theory Spec2Isabelle
  imports Complex_Main "HOL-Library.Product_Lexorder"
begin

section \<open>Python values and exceptions\<close>

text \<open>
  The exceptions that the modelled code paths of \<^verbatim>\<open>prepare.py\<close> and
  \<^verbatim>\<open>retrieval/dense/dpr.py\<close> can raise. A function that can raise returns
  \<open>py_error + 'a\<close>, with \<open>Inl\<close> the raised exception.
\<close>

datatype py_error =
    KeyError
  | AttributeError
  | TypeError
  | ValueError
  | IndexError
  | RuntimeError
  | ZeroDivisionError
  | OverflowError
  | OSError

section \<open>Python classes: \<^verbatim>\<open>type(name, bases, dict)\<close> and method resolution\<close>

text \<open>
  \<^verbatim>\<open>prepare.py\<close> imports its retriever classes and the two training mixins from
  \<^verbatim>\<open>retrieval.sparse\<close>, \<^verbatim>\<open>retrieval.dense\<close> and \<^verbatim>\<open>retrieval.hybrid\<close>. A class is
  referred to by identity: the imported names, any other class of an inheritance chain, and
  the classes created at run time.
\<close>

datatype class_ref =
    BM25Retrieval | ATIREBM25Retrieval | TfidfRetrieval
  | DprBert | ColBert | BaseTrainMixin | Bm25TrainMixin
  | Bm25DprBert | TfidfDprBert | AtireBm25DprBert
  | LogisticBm25DprBert | LogisticAtireBm25DprBert
  | Other string
  | Synthesized nat

text \<open>
  A class object: its \<^verbatim>\<open>__name__\<close>, \<^verbatim>\<open>__bases__\<close>, its own \<^verbatim>\<open>__dict__\<close> (method
  name to implementation, \<open>'f\<close> standing for function objects) and the \<^verbatim>\<open>__mro__\<close> that
  Python computes once, when the class is created, and stores.
\<close>

record 'f class_obj =
  c_name :: string
  c_bases :: "class_ref list"
  c_dict :: "(string \<times> 'f) list"
  c_mro :: "class_ref list"

text \<open>
  The classes alive in the interpreter: the imported ones (their bodies are not part of
  \<^verbatim>\<open>prepare.py\<close>, so they are a parameter) and the ones \<^verbatim>\<open>type(...)\<close> has created so
  far, in creation order.
\<close>

record 'f class_table =
  static_classes :: "class_ref \<Rightarrow> 'f class_obj"
  synthesized :: "'f class_obj list"

definition lookup_class :: "'f class_table \<Rightarrow> class_ref \<Rightarrow> 'f class_obj option" where
  "lookup_class T r =
     (case r of
        Synthesized n \<Rightarrow> (if n < length (synthesized T) then Some (synthesized T ! n) else None)
      | _ \<Rightarrow> Some (static_classes T r))"

text \<open>
  C3 linearisation, as CPython's \<^verbatim>\<open>pmerge\<close>: repeatedly take the first head that occurs in
  no tail, remove it from every sequence; fail when no head qualifies.
\<close>

definition take_head :: "'a \<Rightarrow> 'a list \<Rightarrow> 'a list" where
  "take_head h s = (case s of [] \<Rightarrow> [] | x # xs \<Rightarrow> if x = h then xs else s)"

definition good_head :: "'a list list \<Rightarrow> 'a \<Rightarrow> bool" where
  "good_head seqs h = list_all (\<lambda>s. h \<notin> set (tl s)) seqs"

function c3_merge :: "'a list list \<Rightarrow> 'a list option" where
  "c3_merge seqs =
     (let nonempty = filter (\<lambda>s. s \<noteq> []) seqs in
      if nonempty = [] then Some []
      else (case find (good_head nonempty) (map hd nonempty) of
              None \<Rightarrow> None
            | Some h \<Rightarrow> map_option ((#) h) (c3_merge (map (take_head h) nonempty))))"
  by pat_completeness auto
termination
proof (relation "measure (\<lambda>seqs. sum_list (map length seqs))", goal_cases)
  case 1
  show ?case by simp
next
  case (2 seqs nonempty h)
  have le: "length (take_head h s) \<le> length s" for s :: "'a list"
    by (simp add: take_head_def split: list.splits)
  have les: "sum_list (map (\<lambda>s. length (take_head h s)) xs) \<le> sum_list (map length xs)"
    for xs :: "'a list list"
    by (induction xs) (simp_all add: le add_mono)
  from 2(3) have "h \<in> set (map hd nonempty)"
    by (auto simp: find_Some_iff)
  then obtain s0 where s0: "s0 \<in> set nonempty" "hd s0 = h" by auto
  from s0(1) 2(1) have ne: "s0 \<noteq> []" by auto
  have lt: "length (take_head h s0) < length s0"
    using ne s0(2) by (cases s0) (simp_all add: take_head_def)
  have strict: "s0 \<in> set xs \<Longrightarrow>
      sum_list (map (\<lambda>s. length (take_head h s)) xs) < sum_list (map length xs)"
    for xs :: "'a list list"
  proof (induction xs)
    case Nil
    then show ?case by simp
  next
    case (Cons x xs)
    show ?case
    proof (cases "x = s0")
      case True
      then show ?thesis using lt les [of xs] by simp
    next
      case False
      with Cons have "sum_list (map (\<lambda>s. length (take_head h s)) xs) < sum_list (map length xs)"
        by simp
      then show ?thesis using le [of x] by simp
    qed
  qed
  have "sum_list (map length nonempty) \<le> sum_list (map length seqs)"
    unfolding 2(1) by (induction seqs) auto
  with strict [OF s0(1)] show ?case by (simp add: comp_def)
qed

declare c3_merge.simps [simp del]

text \<open>
  \<^verbatim>\<open>type(name, bases, dict)\<close>: refuses duplicate bases and an inconsistent method
  resolution order with \<^verbatim>\<open>TypeError\<close>; otherwise allocates a new class whose
  \<^verbatim>\<open>__mro__\<close> is the class itself followed by the merge of the bases' linearisations and
  the list of bases. No existing class object is written to.
\<close>

definition type_new ::
  "'f class_table \<Rightarrow> string \<Rightarrow> class_ref list \<Rightarrow> (string \<times> 'f) list
     \<Rightarrow> py_error + ('f class_table \<times> class_ref)" where
  "type_new T name bases dict =
     (if \<not> distinct bases then Inl TypeError
      else (case those (map (lookup_class T) bases) of
              None \<Rightarrow> Inl TypeError
            | Some objs \<Rightarrow>
                (case c3_merge (map c_mro objs @ [bases]) of
                   None \<Rightarrow> Inl TypeError
                 | Some linearisation \<Rightarrow>
                     (let new = Synthesized (length (synthesized T)) in
                      Inr (T\<lparr>synthesized := synthesized T @
                               [\<lparr>c_name = name, c_bases = bases, c_dict = dict,
                                 c_mro = new # linearisation\<rparr>]\<rparr>, new)))))"



section \<open>\<^verbatim>\<open>prepare.py\<close>: \<^verbatim>\<open>RETRIEVER\<close>, \<^verbatim>\<open>retriever_mixin_factory\<close>, \<^verbatim>\<open>get_retriever\<close>\<close>

record model_args =
  retriever_name :: string

record retriever_args =
  dense_train_dataset :: string

record path_args =
  train_data_dir :: string

record args =
  args_model :: model_args
  args_retriever :: retriever_args
  args_path :: path_args

definition RETRIEVER :: "(string \<times> class_ref) list" where
  "RETRIEVER =
     [(''BM25'', BM25Retrieval),
      (''ATIREBM25'', ATIREBM25Retrieval),
      (''TFIDF'', TfidfRetrieval),
      (''DPRBERT'', DprBert),
      (''COLBERT'', ColBert),
      (''BM25_DPRBERT'', Bm25DprBert),
      (''TFIDF_DPRBERT'', TfidfDprBert),
      (''ATIREBM25_DPRBERT'', AtireBm25DprBert),
      (''LOG_BM25_DPRBERT'', LogisticBm25DprBert),
      (''LOG_ATIREBM25_DPRBERT'', LogisticAtireBm25DprBert)]"

definition py_startswith :: "string \<Rightarrow> string \<Rightarrow> bool" where
  "py_startswith s pre = (take (length pre) s = pre)"

text \<open>
  \<^verbatim>\<open>base.__class__(name, (mixin, base), {})\<close>. The metaclass of the imported classes is not
  part of \<^verbatim>\<open>prepare.py\<close>; it is taken to be \<^verbatim>\<open>type\<close> (or a metaclass such as
  \<^verbatim>\<open>ABCMeta\<close> that creates the class as \<^verbatim>\<open>type\<close> does).
\<close>

definition retriever_mixin_factory ::
  "'f class_table \<Rightarrow> string \<Rightarrow> class_ref \<Rightarrow> class_ref \<Rightarrow> py_error + ('f class_table \<times> class_ref)" where
  "retriever_mixin_factory T name base mixin = type_new T name [mixin, base] []"

text \<open>Lines 58 to 64 of \<^verbatim>\<open>get_retriever\<close>: the choice of the class to instantiate.\<close>

definition select_retriever_class ::
  "'f class_table \<Rightarrow> args \<Rightarrow> py_error + ('f class_table \<times> class_ref)" where
  "select_retriever_class T a =
     (case map_of RETRIEVER (retriever_name (args_model a)) of
        None \<Rightarrow> Inl KeyError
      | Some retriever_class \<Rightarrow>
          if py_startswith (dense_train_dataset (args_retriever a)) ''bm25'' then
            retriever_mixin_factory T ''bm25_mixin_class'' retriever_class Bm25TrainMixin
          else if dense_train_dataset (args_retriever a) = ''train_dataset''
                  \<and> retriever_name (args_model a) \<noteq> ''COLBERT'' then
            retriever_mixin_factory T ''base_mixin_class'' retriever_class BaseTrainMixin
          else Inr (T, retriever_class))"

text \<open>
  The constructors of the retriever classes and \<^verbatim>\<open>get_embedding\<close> live in the
  \<^verbatim>\<open>retrieval\<close> package; \<^verbatim>\<open>get_retriever\<close> takes them as parameters. The event list
  records, in order, which of them \<^verbatim>\<open>get_retriever\<close> has called.
\<close>

record ('f, 'r) retrieval_package =
  instantiate :: "'f class_table \<Rightarrow> class_ref \<Rightarrow> args \<Rightarrow> py_error + 'r"
  get_embedding :: "'r \<Rightarrow> py_error + 'r"

datatype event = Instantiate class_ref | GetEmbedding

definition get_retriever ::
  "('f, 'r) retrieval_package \<Rightarrow> 'f class_table \<Rightarrow> args
     \<Rightarrow> 'f class_table \<times> event list \<times> (py_error + 'r)" where
  "get_retriever pkg T a =
     (case select_retriever_class T a of
        Inl e \<Rightarrow> (T, [], Inl e)
      | Inr (T', retriever_class) \<Rightarrow>
          (case instantiate pkg T' retriever_class a of
             Inl e \<Rightarrow> (T', [Instantiate retriever_class], Inl e)
           | Inr retriever \<Rightarrow>
               (case get_embedding pkg retriever of
                  Inl e \<Rightarrow> (T', [Instantiate retriever_class, GetEmbedding], Inl e)
                | Inr retriever' \<Rightarrow>
                    (T', [Instantiate retriever_class, GetEmbedding], Inr retriever'))))"


section \<open>Python numbers: \<^verbatim>\<open>int\<close> and \<^verbatim>\<open>float\<close>\<close>

text \<open>
  \<^verbatim>\<open>epoch_time\<close> is called with two results of \<^verbatim>\<open>time.time()\<close>, which are Python
  floats: IEEE 754 binary64 numbers. A finite float is modelled by the real number it
  denotes; the two infinities and NaN are values of their own. The sign of a zero is not
  modelled: no operation of \<^verbatim>\<open>epoch_time\<close> observes it. A Python \<^verbatim>\<open>int\<close> is unbounded.
\<close>

datatype py_float = Finite real | PosInf | NegInf | NaN

datatype py_num = PyInt int | PyFloat py_float

text \<open>
  Rounding to binary64, to nearest with ties to even. A real \<open>x\<close> with
  \<open>2 ^ e \<le> \<bar>x\<bar> < 2 ^ (e + 1)\<close> lies between multiples of \<open>2 ^ (e - 52)\<close> (53 significant bits); below
  \<open>2 ^ (- 1022)\<close> the spacing stays \<open>2 ^ (- 1074)\<close> (subnormal numbers). A rounded value at or beyond
  \<open>2 ^ 1024\<close> overflows to an infinity.
\<close>

definition expo :: "real \<Rightarrow> int" where
  "expo x = (if x = 0 then - 1022 else max \<lfloor>log 2 \<bar>x\<bar>\<rfloor> (- 1022))"

definition ulp_of :: "real \<Rightarrow> real" where
  "ulp_of x = 2 powi (expo x - 52)"

definition round_half_even :: "real \<Rightarrow> int" where
  "round_half_even q =
     (let n = \<lfloor>q\<rfloor>; r = q - of_int n
      in if r < 1 / 2 then n
         else if 1 / 2 < r then n + 1
         else if even n then n else n + 1)"

definition round_to_ulp :: "real \<Rightarrow> real" where
  "round_to_ulp x = of_int (round_half_even (x / ulp_of x)) * ulp_of x"

definition overflow_threshold :: real where
  "overflow_threshold = 2 ^ 1024"

definition float_round :: "real \<Rightarrow> py_float" where
  "float_round x =
     (let r = round_to_ulp x
      in if \<bar>r\<bar> < overflow_threshold then Finite r else if 0 < r then PosInf else NegInf)"

text \<open>
  The reals that are binary64 numbers: the multiples of their own spacing below the
  overflow threshold.
\<close>

definition is_double :: "real \<Rightarrow> bool" where
  "is_double x \<longleftrightarrow> (\<exists>m::int. x = of_int m * ulp_of x) \<and> \<bar>x\<bar> < overflow_threshold"

text \<open>
  \<^verbatim>\<open>float.__sub__\<close> and \<^verbatim>\<open>float.__truediv__\<close>: the exact result, rounded. A subtraction that
  overflows gives an infinity; a division by zero raises \<^verbatim>\<open>ZeroDivisionError\<close>.
\<close>

fun float_sub :: "py_float \<Rightarrow> py_float \<Rightarrow> py_float" where
  "float_sub (Finite x) (Finite y) = float_round (x - y)"
| "float_sub NaN b = NaN"
| "float_sub a NaN = NaN"
| "float_sub PosInf PosInf = NaN"
| "float_sub NegInf NegInf = NaN"
| "float_sub PosInf b = PosInf"
| "float_sub NegInf b = NegInf"
| "float_sub (Finite x) PosInf = NegInf"
| "float_sub (Finite x) NegInf = PosInf"

fun float_truediv :: "py_float \<Rightarrow> py_float \<Rightarrow> py_error + py_float" where
  "float_truediv a (Finite y) =
     (if y = 0 then Inl ZeroDivisionError
      else Inr (case a of
                  Finite x \<Rightarrow> float_round (x / y)
                | PosInf \<Rightarrow> if 0 < y then PosInf else NegInf
                | NegInf \<Rightarrow> if 0 < y then NegInf else PosInf
                | NaN \<Rightarrow> NaN))"
| "float_truediv (Finite x) PosInf = Inr (Finite 0)"
| "float_truediv (Finite x) NegInf = Inr (Finite 0)"
| "float_truediv a b = Inr NaN"

text \<open>
  The conversion of an \<^verbatim>\<open>int\<close> operand of a mixed operation: correctly rounded, and
  \<^verbatim>\<open>OverflowError\<close> for an \<^verbatim>\<open>int\<close> too large for a float.
\<close>

definition float_of_int :: "int \<Rightarrow> py_error + py_float" where
  "float_of_int n =
     (case float_round (of_int n) of
        Finite x \<Rightarrow> Inr (Finite x)
      | _ \<Rightarrow> Inl OverflowError)"

text \<open>
  The operators \<^verbatim>\<open>-\<close> and \<^verbatim>\<open>/\<close> on numbers. \<^verbatim>\<open>int - int\<close> is exact; \<^verbatim>\<open>int / int\<close> is the
  correctly rounded quotient; a mixed operation converts its \<^verbatim>\<open>int\<close> operand first.
\<close>

fun py_sub :: "py_num \<Rightarrow> py_num \<Rightarrow> py_error + py_num" where
  "py_sub (PyInt a) (PyInt b) = Inr (PyInt (a - b))"
| "py_sub (PyFloat a) (PyFloat b) = Inr (PyFloat (float_sub a b))"
| "py_sub (PyInt a) (PyFloat b) =
     (case float_of_int a of
        Inl err \<Rightarrow> Inl err
      | Inr a' \<Rightarrow> Inr (PyFloat (float_sub a' b)))"
| "py_sub (PyFloat a) (PyInt b) =
     (case float_of_int b of
        Inl err \<Rightarrow> Inl err
      | Inr b' \<Rightarrow> Inr (PyFloat (float_sub a b')))"

fun py_truediv :: "py_num \<Rightarrow> py_num \<Rightarrow> py_error + py_num" where
  "py_truediv (PyInt a) (PyInt b) =
     (if b = 0 then Inl ZeroDivisionError
      else case float_round (of_int a / of_int b) of
             Finite q \<Rightarrow> Inr (PyFloat (Finite q))
           | _ \<Rightarrow> Inl OverflowError)"
| "py_truediv (PyFloat a) (PyFloat b) =
     (case float_truediv a b of
        Inl err \<Rightarrow> Inl err
      | Inr q \<Rightarrow> Inr (PyFloat q))"
| "py_truediv (PyInt a) (PyFloat b) =
     (case float_of_int a of
        Inl err \<Rightarrow> Inl err
      | Inr a' \<Rightarrow>
          (case float_truediv a' b of
             Inl err \<Rightarrow> Inl err
           | Inr q \<Rightarrow> Inr (PyFloat q)))"
| "py_truediv (PyFloat a) (PyInt b) =
     (case float_of_int b of
        Inl err \<Rightarrow> Inl err
      | Inr b' \<Rightarrow>
          (case float_truediv a b' of
             Inl err \<Rightarrow> Inl err
           | Inr q \<Rightarrow> Inr (PyFloat q)))"

text \<open>
  \<^verbatim>\<open>int(x)\<close>: truncation towards zero of a finite float, \<^verbatim>\<open>OverflowError\<close> for an infinity,
  \<^verbatim>\<open>ValueError\<close> for NaN.
\<close>

definition py_trunc :: "real \<Rightarrow> int" where
  "py_trunc x = (if 0 \<le> x then \<lfloor>x\<rfloor> else \<lceil>x\<rceil>)"

fun py_int :: "py_num \<Rightarrow> py_error + int" where
  "py_int (PyInt n) = Inr n"
| "py_int (PyFloat (Finite x)) = Inr (py_trunc x)"
| "py_int (PyFloat NaN) = Inl ValueError"
| "py_int (PyFloat PosInf) = Inl OverflowError"
| "py_int (PyFloat NegInf) = Inl OverflowError"

section \<open>\<^verbatim>\<open>retrieval/dense/dpr.py\<close>: \<^verbatim>\<open>epoch_time\<close>\<close>

text \<open>
  Lines 28 to 32. \<^verbatim>\<open>elapsed_mins\<close> is an \<^verbatim>\<open>int\<close>, so \<^verbatim>\<open>elapsed_mins * 60\<close> is exact.
\<close>

definition epoch_time :: "py_num \<Rightarrow> py_num \<Rightarrow> py_error + int \<times> int" where
  "epoch_time start_time end_time =
     (case py_sub end_time start_time of
        Inl err \<Rightarrow> Inl err
      | Inr elapsed_time \<Rightarrow>
     (case py_truediv elapsed_time (PyInt 60) of
        Inl err \<Rightarrow> Inl err
      | Inr minutes \<Rightarrow>
     (case py_int minutes of
        Inl err \<Rightarrow> Inl err
      | Inr elapsed_mins \<Rightarrow>
     (case py_sub elapsed_time (PyInt (elapsed_mins * 60)) of
        Inl err \<Rightarrow> Inl err
      | Inr seconds \<Rightarrow>
     (case py_int seconds of
        Inl err \<Rightarrow> Inl err
      | Inr elapsed_secs \<Rightarrow> Inr (elapsed_mins, elapsed_secs))))))"

text \<open>The real number a finite Python number denotes.\<close>

fun finite_value :: "py_num \<Rightarrow> real option" where
  "finite_value (PyInt n) = Some (of_int n)"
| "finite_value (PyFloat (Finite x)) = Some x"
| "finite_value (PyFloat f) = None"

section \<open>Tensors and arrays\<close>

text \<open>
  A torch tensor or numpy array is its shape and its entries, indexed by a multi-index.
  Entries are real numbers.
\<close>

record tensor =
  shape :: "nat list"
  entry :: "nat list \<Rightarrow> real"

text \<open>\<^verbatim>\<open>torch.transpose(t, 0, 1)\<close>: swaps the first two dimensions.\<close>

definition torch_transpose01 :: "tensor \<Rightarrow> py_error + tensor" where
  "torch_transpose01 t =
     (case shape t of
        d0 # d1 # ds \<Rightarrow>
          Inr \<lparr>shape = d1 # d0 # ds,
               entry = (\<lambda>idx. case idx of i # j # rest \<Rightarrow> entry t (j # i # rest) | _ \<Rightarrow> 0)\<rparr>
      | _ \<Rightarrow> Inl IndexError)"

text \<open>
  \<^verbatim>\<open>torch.matmul\<close> of two 2-D tensors: entry \<open>(i, j)\<close> is the sum over \<open>k\<close> of
  \<open>a[i, k] * b[k, j]\<close>; the inner dimensions must agree.
\<close>

definition torch_matmul :: "tensor \<Rightarrow> tensor \<Rightarrow> py_error + tensor" where
  "torch_matmul a b =
     (case (shape a, shape b) of
        ([n, k], [k', m]) \<Rightarrow>
          if k = k' then
            Inr \<lparr>shape = [n, m],
                 entry = (\<lambda>idx. case idx of
                         [i, j] \<Rightarrow> (\<Sum>l\<leftarrow>[0..<k]. entry a [i, l] * entry b [l, j])
                       | _ \<Rightarrow> 0)\<rparr>
          else Inl RuntimeError
      | _ \<Rightarrow> Inl RuntimeError)"

definition torch_arange :: "nat \<Rightarrow> nat \<Rightarrow> nat list" where
  "torch_arange lo hi = [lo..<hi]"

text \<open>\<^verbatim>\<open>F.log_softmax(x, dim=1)\<close> on a 2-D tensor.\<close>

definition log_softmax_dim1 :: "tensor \<Rightarrow> py_error + tensor" where
  "log_softmax_dim1 x =
     (case shape x of
        [n, c] \<Rightarrow>
          Inr \<lparr>shape = [n, c],
               entry = (\<lambda>idx. case idx of
                       [i, j] \<Rightarrow> entry x [i, j] - ln (\<Sum>l\<leftarrow>[0..<c]. exp (entry x [i, l]))
                     | _ \<Rightarrow> 0)\<rparr>
      | _ \<Rightarrow> Inl IndexError)"

text \<open>
  \<^verbatim>\<open>F.nll_loss(input, target)\<close> with the default mean reduction, on a 2-D input of shape
  \<open>(n, c)\<close>: the batch sizes of input and target must be equal (\<^verbatim>\<open>ValueError\<close>
  otherwise) and every target must be a class index below \<open>c\<close>.
\<close>

definition nll_loss :: "tensor \<Rightarrow> nat list \<Rightarrow> py_error + real" where
  "nll_loss inp target =
     (case shape inp of
        [n, c] \<Rightarrow>
          if n \<noteq> length target then Inl ValueError
          else if \<not> list_all (\<lambda>t. t < c) target then Inl IndexError
          else Inr (- (\<Sum>i\<leftarrow>[0..<n]. entry inp [i, target ! i]) / real n)
      | _ \<Rightarrow> Inl ValueError)"

text \<open>
  \<^verbatim>\<open>np.array(list_of_arrays)\<close>: stacks arrays of one common shape along a new first
  axis; the empty list gives an array of shape \<open>(0,)\<close>. Arrays of different shapes are
  refused.
\<close>

definition np_array :: "tensor list \<Rightarrow> py_error + tensor" where
  "np_array xs =
     (case xs of
        [] \<Rightarrow> Inr \<lparr>shape = [0], entry = (\<lambda>idx. 0)\<rparr>
      | x # _ \<Rightarrow>
          if list_all (\<lambda>y. shape y = shape x) xs then
            Inr \<lparr>shape = length xs # shape x,
                 entry = (\<lambda>idx. case idx of [] \<Rightarrow> 0 | i # rest \<Rightarrow> entry (xs ! i) rest)\<rparr>
          else Inl ValueError)"

text \<open>
  \<^verbatim>\<open>ndarray.squeeze()\<close> with no axis: removes every dimension of size one. An index of
  the squeezed array is an index of the original with \<open>0\<close> put back at the removed
  dimensions.
\<close>

fun expand_index :: "nat list \<Rightarrow> nat list \<Rightarrow> nat list" where
  "expand_index [] idx = []"
| "expand_index (d # ds) idx =
     (if d = 1 then 0 # expand_index ds idx
      else (case idx of [] \<Rightarrow> [] | i # rest \<Rightarrow> i # expand_index ds rest))"

definition np_squeeze :: "tensor \<Rightarrow> tensor" where
  "np_squeeze a =
     \<lparr>shape = filter (\<lambda>d. d \<noteq> 1) (shape a),
      entry = (\<lambda>idx. entry a (expand_index (shape a) idx))\<rparr>"

text \<open>\<^verbatim>\<open>len(a)\<close> of an array: the size of its first dimension; a 0-d array has none.\<close>

definition np_len :: "tensor \<Rightarrow> py_error + nat" where
  "np_len a = (case shape a of [] \<Rightarrow> Inl TypeError | n # _ \<Rightarrow> Inr n)"

section \<open>\<^verbatim>\<open>retrieval/dense/dpr.py\<close>: the encoder classes\<close>

text \<open>
  \<^verbatim>\<open>nn.Linear(in_features, out_features)\<close>: the two sizes are fixed at construction; the
  weight and bias values are what training changes.
\<close>

record linear_layer =
  in_features :: nat
  out_features :: nat
  weight :: "nat \<Rightarrow> nat \<Rightarrow> real"
  bias :: "nat \<Rightarrow> real"

definition nn_Linear ::
  "nat \<Rightarrow> nat \<Rightarrow> (nat \<Rightarrow> nat \<Rightarrow> real) \<times> (nat \<Rightarrow> real) \<Rightarrow> linear_layer" where
  "nn_Linear n_in n_out init =
     \<lparr>in_features = n_in, out_features = n_out, weight = fst init, bias = snd init\<rparr>"

text \<open>
  A submodule of an encoder: the transformer backbone (its weights \<open>'w\<close> are opaque) or a
  linear projection.
\<close>

datatype 'w submodule = Backbone 'w | Linear linear_layer

datatype encoder_class = BertEncoder | AutoEncoder | KoelectraEncoder

text \<open>
  An \<^verbatim>\<open>nn.Module\<close> instance: its class, whether \<^verbatim>\<open>nn.Module.__init__\<close> has run
  (which creates the \<^verbatim>\<open>_modules\<close> dictionary), and the registered submodules.
\<close>

record 'w module_obj =
  m_class :: encoder_class
  m_initialized :: bool
  m_modules :: "string \<Rightarrow> 'w submodule option"

definition object_new :: "encoder_class \<Rightarrow> 'w module_obj" where
  "object_new cls = \<lparr>m_class = cls, m_initialized = False, m_modules = Map.empty\<rparr>"

definition Module_init :: "'w module_obj \<Rightarrow> 'w module_obj" where
  "Module_init self = self\<lparr>m_initialized := True, m_modules := Map.empty\<rparr>"

text \<open>
  \<^verbatim>\<open>nn.Module.__setattr__\<close> with a module value: \<^verbatim>\<open>AttributeError\<close> ("cannot assign
  module before Module.__init__() call") when \<^verbatim>\<open>_modules\<close> does not exist yet.
\<close>

definition Module_setattr ::
  "'w module_obj \<Rightarrow> string \<Rightarrow> 'w submodule \<Rightarrow> py_error + 'w module_obj" where
  "Module_setattr self name v =
     (if m_initialized self then Inr (self\<lparr>m_modules := (m_modules self)(name \<mapsto> v)\<rparr>)
      else Inl AttributeError)"

text \<open>
  The methods each class inherits. \<^verbatim>\<open>BertEncoder\<close> derives from
  \<^verbatim>\<open>BertPreTrainedModel\<close>, whose base \<^verbatim>\<open>PreTrainedModel\<close> defines
  \<^verbatim>\<open>init_weights\<close>; \<^verbatim>\<open>AutoEncoder\<close> and \<^verbatim>\<open>KoelectraEncoder\<close> derive from
  \<^verbatim>\<open>nn.Module\<close> alone, which defines no \<^verbatim>\<open>init_weights\<close>. The lists name the
  library methods that \<^verbatim>\<open>dpr.py\<close> calls.
\<close>

definition nn_Module_methods :: "string list" where
  "nn_Module_methods =
     [''__call__'', ''cuda'', ''to'', ''train'', ''zero_grad'', ''parameters'']"

definition PreTrainedModel_methods :: "string list" where
  "PreTrainedModel_methods = [''from_pretrained'', ''init_weights'']"

fun class_methods :: "encoder_class \<Rightarrow> string list" where
  "class_methods BertEncoder =
     [''__init__'', ''forward''] @ PreTrainedModel_methods @ nn_Module_methods"
| "class_methods AutoEncoder = [''__init__'', ''forward''] @ nn_Module_methods"
| "class_methods KoelectraEncoder = [''__init__'', ''forward''] @ nn_Module_methods"

text \<open>
  \<^verbatim>\<open>self.init_weights()\<close>: the name is looked up on the class; when no class of the
  hierarchy defines it, \<^verbatim>\<open>nn.Module.__getattr__\<close> searches the registered submodules and
  raises \<^verbatim>\<open>AttributeError\<close> when the name is not among them. (A submodule of that name
  would be called with no input, a \<^verbatim>\<open>TypeError\<close>.)
\<close>

definition call_init_weights :: "'w module_obj \<Rightarrow> py_error + 'w module_obj" where
  "call_init_weights self =
     (if ''init_weights'' \<in> set (class_methods (m_class self)) then Inr self
      else if m_initialized self \<and> m_modules self ''init_weights'' \<noteq> None then Inl TypeError
      else Inl AttributeError)"

record config =
  hidden_size :: nat

text \<open>
  What \<^verbatim>\<open>dpr.py\<close> takes from its libraries and its machine: checkpoint and configuration
  loading (which can fail), the random initial values of a projection layer (by the index
  of the draw), whether CUDA calls fail, the backbone's outputs \<^verbatim>\<open>outputs[1]\<close> and
  \<^verbatim>\<open>outputs[0][:, 0]\<close> for one tokenised text, the tokenizer, dataset loading, the
  parameter values one \<^verbatim>\<open>optimizer.step()\<close> writes (with the optimizer's own state \<open>'o\<close>),
  and the random numbers of the sampler.
\<close>

datatype 'w new_values = BackboneValues 'w | LinearValues "nat \<Rightarrow> nat \<Rightarrow> real" "nat \<Rightarrow> real"

record example =
  ex_question :: string
  ex_context :: string

record ('w, 'tok, 'o) env =
  from_pretrained :: "string \<Rightarrow> config \<Rightarrow> py_error + 'w"
  config_from_pretrained :: "string \<Rightarrow> py_error + config"
  linear_init :: "nat \<Rightarrow> nat \<Rightarrow> nat \<Rightarrow> (nat \<Rightarrow> nat \<Rightarrow> real) \<times> (nat \<Rightarrow> real)"
  cuda_error :: "py_error option"
  pooled_output :: "'w \<Rightarrow> 'tok \<Rightarrow> real list"
  cls_token_output :: "'w \<Rightarrow> 'tok \<Rightarrow> real list"
  tokenizer :: "string \<Rightarrow> 'tok"
  load_from_disk :: "string \<Rightarrow> py_error + (string \<Rightarrow> example list option)"
  adamw_init :: "'o"
  adamw_step :: "'o \<Rightarrow> 'w module_obj \<times> 'w module_obj \<Rightarrow> ('tok \<times> 'tok) list
                   \<Rightarrow> 'o \<times> (bool \<Rightarrow> string \<Rightarrow> 'w new_values)"
  sampler_random :: "nat \<Rightarrow> nat \<Rightarrow> nat"

definition to_cuda :: "('w, 'tok, 'o) env \<Rightarrow> 'a \<Rightarrow> py_error + 'a" where
  "to_cuda E x = (case cuda_error E of None \<Rightarrow> Inr x | Some e \<Rightarrow> Inl e)"

text \<open>\<^verbatim>\<open>BertEncoder.__init__(config)\<close>, lines 36 to 41.\<close>

definition BertEncoder_init ::
  "config \<Rightarrow> 'w \<Rightarrow> (nat \<Rightarrow> nat \<Rightarrow> real) \<times> (nat \<Rightarrow> real) \<Rightarrow> py_error + 'w module_obj" where
  "BertEncoder_init cfg bert_weights proj_init =
     (let self = Module_init (object_new BertEncoder) in
      case Module_setattr self ''bert'' (Backbone bert_weights) of
        Inl e \<Rightarrow> Inl e
      | Inr self \<Rightarrow>
          (case Module_setattr self ''bert_proj''
                  (Linear (nn_Linear (hidden_size cfg) 512 proj_init)) of
             Inl e \<Rightarrow> Inl e
           | Inr self \<Rightarrow> call_init_weights self))"

text \<open>
  \<^verbatim>\<open>BertEncoder.from_pretrained(name, config=config)\<close>: loads the checkpoint, builds the
  model with \<^verbatim>\<open>__init__\<close> and puts the checkpoint's weights into the backbone; the
  projection keeps its fresh values.
\<close>

definition BertEncoder_from_pretrained ::
  "('w, 'tok, 'o) env \<Rightarrow> nat \<Rightarrow> string \<Rightarrow> config \<Rightarrow> py_error + 'w module_obj" where
  "BertEncoder_from_pretrained E draw name cfg =
     (case from_pretrained E name cfg of
        Inl e \<Rightarrow> Inl e
      | Inr w \<Rightarrow> BertEncoder_init cfg w (linear_init E draw (hidden_size cfg) 512))"

text \<open>\<^verbatim>\<open>AutoEncoder.__init__(model_name, config)\<close>, lines 51 to 55.\<close>

definition AutoEncoder_init ::
  "('w, 'tok, 'o) env \<Rightarrow> nat \<Rightarrow> string \<Rightarrow> config \<Rightarrow> py_error + 'w module_obj" where
  "AutoEncoder_init E draw model_name cfg =
     (let self = Module_init (object_new AutoEncoder) in
      case from_pretrained E model_name cfg of
        Inl e \<Rightarrow> Inl e
      | Inr w \<Rightarrow>
          (case Module_setattr self ''backbone'' (Backbone w) of
             Inl e \<Rightarrow> Inl e
           | Inr self \<Rightarrow>
               (case Module_setattr self ''backbone_proj''
                       (Linear (nn_Linear (hidden_size cfg) 512
                                  (linear_init E draw (hidden_size cfg) 512))) of
                  Inl e \<Rightarrow> Inl e
                | Inr self \<Rightarrow> call_init_weights self)))"

text \<open>
  \<^verbatim>\<open>KoelectraEncoder.__init__(model_name, config)\<close>, lines 65 to 68: no call of
  \<^verbatim>\<open>super().__init__()\<close> precedes the first assignment.
\<close>

definition KoelectraEncoder_init ::
  "('w, 'tok, 'o) env \<Rightarrow> nat \<Rightarrow> string \<Rightarrow> config \<Rightarrow> py_error + 'w module_obj" where
  "KoelectraEncoder_init E draw model_name cfg =
     (let self = object_new KoelectraEncoder in
      case from_pretrained E model_name cfg of
        Inl e \<Rightarrow> Inl e
      | Inr w \<Rightarrow>
          (case Module_setattr self ''backbone'' (Backbone w) of
             Inl e \<Rightarrow> Inl e
           | Inr self \<Rightarrow>
               (case Module_setattr self ''backbone_proj''
                       (Linear (nn_Linear (hidden_size cfg) 512
                                  (linear_init E draw (hidden_size cfg) 512))) of
                  Inl e \<Rightarrow> Inl e
                | Inr self \<Rightarrow> call_init_weights self)))"

text \<open>
  A linear layer applied to the rows of a batch: every row must have \<open>in_features\<close>
  entries; the result has shape \<open>(batch, out_features)\<close>.
\<close>

definition linear_forward :: "linear_layer \<Rightarrow> real list list \<Rightarrow> py_error + tensor" where
  "linear_forward L rows =
     (if list_all (\<lambda>x. length x = in_features L) rows then
        Inr \<lparr>shape = [length rows, out_features L],
             entry = (\<lambda>idx. case idx of
                        [i, j] \<Rightarrow>
                          (\<Sum>k\<leftarrow>[0..<in_features L]. weight L j k * (rows ! i) ! k) + bias L j
                      | _ \<Rightarrow> 0)\<rparr>
      else Inl RuntimeError)"

text \<open>
  The three \<^verbatim>\<open>forward\<close> methods, on a batch of tokenised texts. Reading an attribute
  that was never assigned raises \<^verbatim>\<open>AttributeError\<close>.
\<close>

definition encoder_forward ::
  "('w, 'tok, 'o) env \<Rightarrow> 'w module_obj \<Rightarrow> 'tok list \<Rightarrow> py_error + tensor" where
  "encoder_forward E self inputs =
     (case m_class self of
        BertEncoder \<Rightarrow>
          (case (m_modules self ''bert'', m_modules self ''bert_proj'') of
             (Some (Backbone w), Some (Linear L)) \<Rightarrow>
               linear_forward L (map (pooled_output E w) inputs)
           | _ \<Rightarrow> Inl AttributeError)
      | AutoEncoder \<Rightarrow>
          (case (m_modules self ''backbone'', m_modules self ''backbone_proj'') of
             (Some (Backbone w), Some (Linear L)) \<Rightarrow>
               linear_forward L (map (pooled_output E w) inputs)
           | _ \<Rightarrow> Inl AttributeError)
      | KoelectraEncoder \<Rightarrow>
          (case (m_modules self ''backbone'', m_modules self ''backbone_proj'') of
             (Some (Backbone w), Some (Linear L)) \<Rightarrow>
               linear_forward L (map (cls_token_output E w) inputs)
           | _ \<Rightarrow> Inl AttributeError))"

section \<open>\<^verbatim>\<open>retrieval/dense/dpr.py\<close>: \<^verbatim>\<open>DprRetrieval.train\<close>\<close>

record training_args =
  per_device_train_batch_size :: nat
  num_train_epochs :: nat
  gradient_accumulation_steps :: nat
  warmup_steps :: nat
  learning_rate :: real
  adam_epsilon :: real
  weight_decay :: real

text \<open>
  \<^verbatim>\<open>RandomSampler\<close>: each epoch visits the examples in a fresh random order. The order is
  built from the random numbers by drawing one remaining example at a time.
\<close>

primrec shuffle_with :: "(nat \<Rightarrow> nat) \<Rightarrow> nat \<Rightarrow> 'a list \<Rightarrow> 'a list" where
  "shuffle_with rnd 0 xs = []"
| "shuffle_with rnd (Suc n) xs =
     (if xs = [] then []
      else (let k = rnd n mod length xs in
            xs ! k # shuffle_with rnd n (take k xs @ drop (Suc k) xs)))"

text \<open>
  \<^verbatim>\<open>DataLoader(dataset, sampler, batch_size)\<close> with the default \<^verbatim>\<open>drop_last=False\<close>:
  consecutive groups of \<open>batch_size\<close> examples, the last one shorter when the number of
  examples is not a multiple of \<open>batch_size\<close>.
\<close>

function chunks :: "nat \<Rightarrow> 'a list \<Rightarrow> 'a list list" where
  "chunks n xs = (if n = 0 \<or> xs = [] then [] else take n xs # chunks n (drop n xs))"
  by pat_completeness auto
termination
  by (relation "measure (\<lambda>(n, xs). length xs)") auto

declare chunks.simps [simp del]

definition DataLoader_batches ::
  "('w, 'tok, 'o) env \<Rightarrow> training_args \<Rightarrow> 'a list \<Rightarrow> nat \<Rightarrow> 'a list list" where
  "DataLoader_batches E targs dataset epoch =
     chunks (per_device_train_batch_size targs)
       (shuffle_with (sampler_random E epoch) (length dataset) dataset)"

text \<open>
  \<^verbatim>\<open>optimizer.step()\<close> writes new values into the parameter tensors in place; the
  modules and the sizes of the layers stay as they are.
\<close>

definition set_values :: "'w submodule \<Rightarrow> 'w new_values \<Rightarrow> 'w submodule" where
  "set_values sub v =
     (case (sub, v) of
        (Backbone _, BackboneValues w') \<Rightarrow> Backbone w'
      | (Linear L, LinearValues W b) \<Rightarrow> Linear (L\<lparr>weight := W, bias := b\<rparr>)
      | _ \<Rightarrow> sub)"

definition write_parameters ::
  "'w module_obj \<Rightarrow> (string \<Rightarrow> 'w new_values) \<Rightarrow> 'w module_obj" where
  "write_parameters self vals =
     self\<lparr>m_modules := (\<lambda>name. map_option (\<lambda>sub. set_values sub (vals name)) (m_modules self name))\<rparr>"

record ('w, 'o) train_state =
  p_model :: "'w module_obj"
  q_model :: "'w module_obj"
  optimizer :: 'o
  global_step :: nat
  train_loss :: real

text \<open>Line 134: the similarity scores of a batch.\<close>

definition sim_scores :: "tensor \<Rightarrow> tensor \<Rightarrow> py_error + tensor" where
  "sim_scores q_outputs p_outputs =
     (case torch_transpose01 p_outputs of
        Inl e \<Rightarrow> Inl e
      | Inr p_t \<Rightarrow> torch_matmul q_outputs p_t)"

text \<open>Line 135: the targets of a step, a function of the training arguments alone.\<close>

definition step_targets :: "training_args \<Rightarrow> nat list" where
  "step_targets targs = torch_arange 0 (per_device_train_batch_size targs)"

text \<open>Lines 125 to 153: one step on one batch of (passage, question) pairs.\<close>

definition train_step ::
  "('w, 'tok, 'o) env \<Rightarrow> training_args \<Rightarrow> ('w, 'o) train_state \<Rightarrow> ('tok \<times> 'tok) list
     \<Rightarrow> py_error + ('w, 'o) train_state" where
  "train_step E targs st batch =
     (case encoder_forward E (p_model st) (map fst batch) of
        Inl e \<Rightarrow> Inl e
      | Inr p_outputs \<Rightarrow>
     (case encoder_forward E (q_model st) (map snd batch) of
        Inl e \<Rightarrow> Inl e
      | Inr q_outputs \<Rightarrow>
     (case sim_scores q_outputs p_outputs of
        Inl e \<Rightarrow> Inl e
      | Inr scores \<Rightarrow>
     (case log_softmax_dim1 scores of
        Inl e \<Rightarrow> Inl e
      | Inr log_probs \<Rightarrow>
     (case nll_loss log_probs (step_targets targs) of
        Inl e \<Rightarrow> Inl e
      | Inr loss \<Rightarrow>
          (let (opt', vals) = adamw_step E (optimizer st) (p_model st, q_model st) batch in
           Inr \<lparr>p_model = write_parameters (p_model st) (vals True),
                q_model = write_parameters (q_model st) (vals False),
                optimizer = opt',
                global_step = global_step st + 1,
                train_loss = train_loss st + loss\<rparr>))))))"

fun run_batches ::
  "('w, 'tok, 'o) env \<Rightarrow> training_args \<Rightarrow> ('w, 'o) train_state \<Rightarrow> ('tok \<times> 'tok) list list
     \<Rightarrow> py_error + ('w, 'o) train_state" where
  "run_batches E targs st [] = Inr st"
| "run_batches E targs st (batch # rest) =
     (case train_step E targs st batch of
        Inl e \<Rightarrow> Inl e
      | Inr st' \<Rightarrow> run_batches E targs st' rest)"

text \<open>
  Lines 119 to 159: one pass over the batches per epoch; the report at the end of the epoch
  divides the accumulated loss by \<^verbatim>\<open>len(train_dataloader)\<close>.
\<close>

fun run_epochs ::
  "('w, 'tok, 'o) env \<Rightarrow> training_args \<Rightarrow> ('tok \<times> 'tok) list \<Rightarrow> ('w, 'o) train_state
     \<Rightarrow> nat list \<Rightarrow> py_error + ('w, 'o) train_state" where
  "run_epochs E targs dataset st [] = Inr st"
| "run_epochs E targs dataset st (epoch # rest) =
     (let batches = DataLoader_batches E targs dataset epoch in
      case run_batches E targs (st\<lparr>train_loss := 0\<rparr>) batches of
        Inl e \<Rightarrow> Inl e
      | Inr st' \<Rightarrow>
          if length batches = 0 then Inl ZeroDivisionError
          else run_epochs E targs dataset st' rest)"

text \<open>
  \<^verbatim>\<open>train\<close> up to its \<^verbatim>\<open>return\<close>, with the local variables it ends with.
  \<^verbatim>\<open>DataLoader\<close> refuses a batch size of zero; line 104 divides by
  \<^verbatim>\<open>gradient_accumulation_steps\<close>. (Older releases of torch also refuse an empty dataset
  in \<^verbatim>\<open>RandomSampler\<close>; here an empty dataset fails at the division of line 159.)
\<close>

definition train_loop ::
  "('w, 'tok, 'o) env \<Rightarrow> training_args \<Rightarrow> ('tok \<times> 'tok) list \<Rightarrow> 'w module_obj \<Rightarrow> 'w module_obj
     \<Rightarrow> py_error + ('w, 'o) train_state" where
  "train_loop E targs dataset p_m q_m =
     (if per_device_train_batch_size targs = 0 then Inl ValueError
      else if gradient_accumulation_steps targs = 0 then Inl ZeroDivisionError
      else run_epochs E targs dataset
             \<lparr>p_model = p_m, q_model = q_m, optimizer = adamw_init E,
              global_step = 0, train_loss = 0\<rparr>
             [0..<num_train_epochs targs])"

definition train ::
  "('w, 'tok, 'o) env \<Rightarrow> training_args \<Rightarrow> ('tok \<times> 'tok) list \<Rightarrow> 'w module_obj \<Rightarrow> 'w module_obj
     \<Rightarrow> py_error + ('w module_obj \<times> 'w module_obj)" where
  "train E targs dataset p_m q_m =
     (case train_loop E targs dataset p_m q_m of
        Inl e \<Rightarrow> Inl e
      | Inr st \<Rightarrow> Inr (p_model st, q_model st))"

section \<open>\<^verbatim>\<open>retrieval/dense/dpr.py\<close>: the retrieval classes and \<^verbatim>\<open>_exec_embedding\<close>\<close>

datatype dpr_class =
  DprRetrieval | DprKobertRetrieval | DprKorquadBertRetrieval | DprKoelectraRetrieval

text \<open>
  An instance: its class, \<^verbatim>\<open>self.args\<close>, \<^verbatim>\<open>self.contexts\<close> (the corpus, set by
  \<^verbatim>\<open>DenseRetrieval.__init__\<close>) and \<^verbatim>\<open>self.backbone\<close>.
\<close>

record dpr_retrieval =
  r_class :: dpr_class
  r_args :: args
  r_contexts :: "string list"
  r_backbone :: string

fun class_backbone :: "dpr_class \<Rightarrow> string" where
  "class_backbone DprRetrieval = ''bert-base-multilingual-cased''"
| "class_backbone DprKobertRetrieval = ''monologg/kobert''"
| "class_backbone DprKorquadBertRetrieval = ''sangrimlee/bert-base-multilingual-cased-korquad''"
| "class_backbone DprKoelectraRetrieval = ''monologg/koelectra-base-v3-finetuned-korquad''"

definition DprRetrieval_load_model ::
  "('w, 'tok, 'o) env \<Rightarrow> dpr_retrieval \<Rightarrow> py_error + ('w module_obj \<times> 'w module_obj)" where
  "DprRetrieval_load_model E self =
     (case config_from_pretrained E (r_backbone self) of
        Inl e \<Rightarrow> Inl e
      | Inr cfg \<Rightarrow>
     (case BertEncoder_from_pretrained E 0 (r_backbone self) cfg of
        Inl e \<Rightarrow> Inl e
      | Inr p \<Rightarrow>
     (case to_cuda E p of
        Inl e \<Rightarrow> Inl e
      | Inr p_encoder \<Rightarrow>
     (case BertEncoder_from_pretrained E 1 (r_backbone self) cfg of
        Inl e \<Rightarrow> Inl e
      | Inr q \<Rightarrow>
     (case to_cuda E q of
        Inl e \<Rightarrow> Inl e
      | Inr q_encoder \<Rightarrow> Inr (p_encoder, q_encoder))))))"

text \<open>
  \<^verbatim>\<open>_load_model\<close> and \<^verbatim>\<open>_get_encoder\<close> of \<^verbatim>\<open>DprKobertRetrieval\<close> and
  \<^verbatim>\<open>DprKorquadBertRetrieval\<close> (the same code on different backbones), and of
  \<^verbatim>\<open>DprKoelectraRetrieval\<close>.
\<close>

definition AutoEncoder_load_model ::
  "('w, 'tok, 'o) env \<Rightarrow> dpr_retrieval \<Rightarrow> py_error + ('w module_obj \<times> 'w module_obj)" where
  "AutoEncoder_load_model E self =
     (case config_from_pretrained E (r_backbone self) of
        Inl e \<Rightarrow> Inl e
      | Inr cfg \<Rightarrow>
     (case AutoEncoder_init E 0 (r_backbone self) cfg of
        Inl e \<Rightarrow> Inl e
      | Inr p \<Rightarrow>
     (case to_cuda E p of
        Inl e \<Rightarrow> Inl e
      | Inr p_encoder \<Rightarrow>
     (case AutoEncoder_init E 1 (r_backbone self) cfg of
        Inl e \<Rightarrow> Inl e
      | Inr q \<Rightarrow>
     (case to_cuda E q of
        Inl e \<Rightarrow> Inl e
      | Inr q_encoder \<Rightarrow> Inr (p_encoder, q_encoder))))))"

definition AutoEncoder_get_encoder ::
  "('w, 'tok, 'o) env \<Rightarrow> dpr_retrieval \<Rightarrow> py_error + 'w module_obj" where
  "AutoEncoder_get_encoder E self =
     (case config_from_pretrained E (r_backbone self) of
        Inl e \<Rightarrow> Inl e
      | Inr cfg \<Rightarrow>
     (case AutoEncoder_init E 0 (r_backbone self) cfg of
        Inl e \<Rightarrow> Inl e
      | Inr q \<Rightarrow> to_cuda E q))"

definition KoelectraEncoder_load_model ::
  "('w, 'tok, 'o) env \<Rightarrow> dpr_retrieval \<Rightarrow> py_error + ('w module_obj \<times> 'w module_obj)" where
  "KoelectraEncoder_load_model E self =
     (case config_from_pretrained E (r_backbone self) of
        Inl e \<Rightarrow> Inl e
      | Inr cfg \<Rightarrow>
     (case KoelectraEncoder_init E 0 (r_backbone self) cfg of
        Inl e \<Rightarrow> Inl e
      | Inr p \<Rightarrow>
     (case to_cuda E p of
        Inl e \<Rightarrow> Inl e
      | Inr p_encoder \<Rightarrow>
     (case KoelectraEncoder_init E 1 (r_backbone self) cfg of
        Inl e \<Rightarrow> Inl e
      | Inr q \<Rightarrow>
     (case to_cuda E q of
        Inl e \<Rightarrow> Inl e
      | Inr q_encoder \<Rightarrow> Inr (p_encoder, q_encoder))))))"

definition KoelectraEncoder_get_encoder ::
  "('w, 'tok, 'o) env \<Rightarrow> dpr_retrieval \<Rightarrow> py_error + 'w module_obj" where
  "KoelectraEncoder_get_encoder E self =
     (case config_from_pretrained E (r_backbone self) of
        Inl e \<Rightarrow> Inl e
      | Inr cfg \<Rightarrow>
     (case KoelectraEncoder_init E 0 (r_backbone self) cfg of
        Inl e \<Rightarrow> Inl e
      | Inr q \<Rightarrow> to_cuda E q))"

text \<open>\<^verbatim>\<open>self._load_model()\<close> and \<^verbatim>\<open>self._get_encoder()\<close> of a subclass instance.\<close>

definition load_model ::
  "('w, 'tok, 'o) env \<Rightarrow> dpr_retrieval \<Rightarrow> py_error + ('w module_obj \<times> 'w module_obj)" where
  "load_model E self =
     (case r_class self of
        DprRetrieval \<Rightarrow> DprRetrieval_load_model E self
      | DprKobertRetrieval \<Rightarrow> AutoEncoder_load_model E self
      | DprKorquadBertRetrieval \<Rightarrow> AutoEncoder_load_model E self
      | DprKoelectraRetrieval \<Rightarrow> KoelectraEncoder_load_model E self)"

definition subclass_get_encoder ::
  "('w, 'tok, 'o) env \<Rightarrow> dpr_retrieval \<Rightarrow> (py_error + 'w module_obj) option" where
  "subclass_get_encoder E self =
     (case r_class self of
        DprRetrieval \<Rightarrow> None
      | DprKobertRetrieval \<Rightarrow> Some (AutoEncoder_get_encoder E self)
      | DprKorquadBertRetrieval \<Rightarrow> Some (AutoEncoder_get_encoder E self)
      | DprKoelectraRetrieval \<Rightarrow> Some (KoelectraEncoder_get_encoder E self))"

text \<open>\<^verbatim>\<open>os.path.join\<close> of two components.\<close>

definition path_join :: "string \<Rightarrow> string \<Rightarrow> string" where
  "path_join a b =
     (if take 1 b = ''/'' then b
      else if a = [] \<or> last a = CHR ''/'' then a @ b
      else a @ ''/'' @ b)"

text \<open>The \<^verbatim>\<open>TrainingArguments\<close> of lines 204 to 212, with the library's defaults.\<close>

definition dense_training_arguments :: training_args where
  "dense_training_arguments =
     \<lparr>per_device_train_batch_size = 16,
      num_train_epochs = 10,
      gradient_accumulation_steps = 1,
      warmup_steps = 0,
      learning_rate = 1 / 10000,
      adam_epsilon = 1 / 100000000,
      weight_decay = 1 / 100\<rparr>"

text \<open>
  Lines 164 to 202: loading the encoders and assembling the training set (train and
  validation splits of the configured dataset, then the train split of
  \<^verbatim>\<open>kor_dataset\<close>), tokenised into (passage, question) pairs.
  \<^verbatim>\<open>datasets["train"][1]\<close> needs a second training example.
\<close>

definition dense_training_set ::
  "('w, 'tok, 'o) env \<Rightarrow> dpr_retrieval
     \<Rightarrow> py_error + (('w module_obj \<times> 'w module_obj) \<times> ('tok \<times> 'tok) list)" where
  "dense_training_set E self =
     (case load_model E self of
        Inl e \<Rightarrow> Inl e
      | Inr encoders \<Rightarrow>
     (case load_from_disk E (path_join (train_data_dir (args_path (r_args self)))
                                        (dense_train_dataset (args_retriever (r_args self)))) of
        Inl e \<Rightarrow> Inl e
      | Inr datasets \<Rightarrow>
     (case datasets ''train'' of
        None \<Rightarrow> Inl KeyError
      | Some train_split \<Rightarrow>
          if length train_split \<le> 1 then Inl IndexError
          else
     (case datasets ''validation'' of
        None \<Rightarrow> Inl KeyError
      | Some validation_split \<Rightarrow>
     (case load_from_disk E (path_join (train_data_dir (args_path (r_args self))) ''kor_dataset'') of
        Inl e \<Rightarrow> Inl e
      | Inr kor_datasets \<Rightarrow>
     (case kor_datasets ''train'' of
        None \<Rightarrow> Inl KeyError
      | Some kor_train \<Rightarrow>
          (let train_dataset = (train_split @ validation_split) @ kor_train;
               q_seqs = map (\<lambda>ex. tokenizer E (ex_question ex)) train_dataset;
               p_seqs = map (\<lambda>ex. tokenizer E (ex_context ex)) train_dataset
           in Inr (encoders, zip p_seqs q_seqs))))))))"

text \<open>Lines 216 to 221: one embedding per passage of \<^verbatim>\<open>self.contexts\<close>.\<close>

fun embed_contexts ::
  "('w, 'tok, 'o) env \<Rightarrow> 'w module_obj \<Rightarrow> string list \<Rightarrow> py_error + tensor list" where
  "embed_contexts E p_encoder [] = Inr []"
| "embed_contexts E p_encoder (passage # rest) =
     (case to_cuda E (tokenizer E passage) of
        Inl e \<Rightarrow> Inl e
      | Inr tokens \<Rightarrow>
     (case encoder_forward E p_encoder [tokens] of
        Inl e \<Rightarrow> Inl e
      | Inr p_emb \<Rightarrow>
     (case embed_contexts E p_encoder rest of
        Inl e \<Rightarrow> Inl e
      | Inr embs \<Rightarrow> Inr (p_emb # embs))))"

definition exec_embedding ::
  "('w, 'tok, 'o) env \<Rightarrow> dpr_retrieval \<Rightarrow> py_error + (tensor \<times> 'w module_obj)" where
  "exec_embedding E self =
     (case dense_training_set E self of
        Inl e \<Rightarrow> Inl e
      | Inr ((p_encoder, q_encoder), train_dataset) \<Rightarrow>
     (case train E dense_training_arguments train_dataset p_encoder q_encoder of
        Inl e \<Rightarrow> Inl e
      | Inr (p_encoder, q_encoder) \<Rightarrow>
     (case embed_contexts E p_encoder (r_contexts self) of
        Inl e \<Rightarrow> Inl e
      | Inr p_embedding \<Rightarrow>
     (case np_array p_embedding of
        Inl e \<Rightarrow> Inl e
      | Inr stacked \<Rightarrow> Inr (np_squeeze stacked, q_encoder)))))"

section \<open>Predicates on encoders and arrays\<close>

text \<open>
  Every linear submodule of an encoder has 512 outputs; an encoder has the two submodules
  \<^verbatim>\<open>BertEncoder.__init__\<close> registers, with a projection from \<open>h\<close> inputs to 512
  outputs; the backbone's pooled output has \<open>h\<close> entries; and the shape
  \<^verbatim>\<open>np.array(...).squeeze()\<close> gives to \<open>n\<close> stacked arrays of shape \<open>(1, 512)\<close>.
\<close>

definition proj_512 :: "'w module_obj \<Rightarrow> bool" where
  "proj_512 m = (\<forall>name L. m_modules m name = Some (Linear L) \<longrightarrow> out_features L = 512)"

definition bert_ready :: "nat \<Rightarrow> 'w module_obj \<Rightarrow> bool" where
  "bert_ready h m =
     (m_class m = BertEncoder
      \<and> (\<exists>w L. m_modules m ''bert'' = Some (Backbone w)
             \<and> m_modules m ''bert_proj'' = Some (Linear L)
             \<and> in_features L = h \<and> out_features L = 512))"

definition pooled_ok :: "('w, 'tok, 'o) env \<Rightarrow> nat \<Rightarrow> bool" where
  "pooled_ok E h = (\<forall>w t. length (pooled_output E w t) = h)"

definition squeezed_shape :: "nat \<Rightarrow> nat list" where
  "squeezed_shape n = (if n = 0 then [0] else if n = 1 then [512] else [n, 512])"

text \<open>The projection of an encoder has the bias value 1 at output 0.\<close>

definition bias_one :: "'w module_obj \<Rightarrow> bool" where
  "bias_one m = (\<exists>L. m_modules m ''bert_proj'' = Some (Linear L) \<and> bias L 0 = 1)"

section \<open>The sparse index and its scorers\<close>

text \<open>
  Modelled from the spec: the error taxonomy of section 7. The retrieval classes that would
  raise these errors (\<^verbatim>\<open>retrieval.sparse\<close>, \<^verbatim>\<open>retrieval.dense\<close>,
  \<^verbatim>\<open>retrieval.hybrid\<close>) are not among the source files.
\<close>

datatype retrieval_error =
    EmptyCorpusError
  | DimensionMismatchError
  | UnknownSchemeError
  | CacheCorruptionError
  | NotReadyError

text \<open>
  Modelled from the spec: the Sparse Index Artifact of section 3 (the sparse indexer of
  \<^verbatim>\<open>retrieval.sparse\<close> is missing): the vocabulary in first-seen order, the posting list
  \<open>(doc_id, term_frequency)\<close> of every term, the document lengths, their average, and the
  number of documents \<open>N\<close>.
\<close>

record sparse_index =
  vocabulary :: "string list"
  postings :: "string \<Rightarrow> (nat \<times> nat) list"
  doc_lengths :: "nat list"
  avg_doc_length :: real
  n_docs :: nat

text \<open>
  Modelled from the spec: \<^verbatim>\<open>build(corpus)\<close> of section 4.1 (the indexer is missing), on
  documents already split into terms: it fails with \<^verbatim>\<open>EmptyCorpusError\<close> on a corpus of
  zero documents and otherwise accumulates document frequency and per-document term counts.
\<close>

definition sparse_build :: "string list list \<Rightarrow> retrieval_error + sparse_index" where
  "sparse_build docs =
     (if docs = [] then Inl EmptyCorpusError
      else Inr \<lparr>vocabulary = rev (remdups (rev (concat docs))),
                postings = (\<lambda>t. map (\<lambda>i. (i, count_list (docs ! i) t))
                                    (filter (\<lambda>i. t \<in> set (docs ! i)) [0..<length docs])),
                doc_lengths = map length docs,
                avg_doc_length = real (sum_list (map length docs)) / real (length docs),
                n_docs = length docs\<rparr>)"

text \<open>
  Modelled from the spec: the document frequency \<open>df(t)\<close> of section 3 (the scorers of
  \<^verbatim>\<open>retrieval.sparse\<close> are missing): the number of postings of the term.
\<close>

definition df :: "sparse_index \<Rightarrow> string \<Rightarrow> nat" where
  "df idx t = length (postings idx t)"

text \<open>
  Modelled from the spec: the term frequency \<open>tf(t, d)\<close> of section 4.2 (the scorers
  are missing), read off the posting list; zero when the document has no posting.
\<close>

definition tf :: "sparse_index \<Rightarrow> string \<Rightarrow> nat \<Rightarrow> nat" where
  "tf idx t d = (case map_of (postings idx t) d of None \<Rightarrow> 0 | Some f \<Rightarrow> f)"

text \<open>
  Modelled from the spec: \<open>doc_len(d)\<close> of section 4.2 (the scorers are missing), from
  the artifact's \<^verbatim>\<open>doc_lengths\<close>.
\<close>

definition doc_len :: "sparse_index \<Rightarrow> nat \<Rightarrow> nat" where
  "doc_len idx d = (if d < length (doc_lengths idx) then doc_lengths idx ! d else 0)"

text \<open>
  Modelled from the spec: the idf of TF-IDF, section 4.2 (the scorer is missing):
  \<open>idf(t) = log(N / df(t))\<close>, \<open>df(t)\<close> clamped to a minimum of 1. The optional cosine
  normalisation is not applied.
\<close>

definition idf_tfidf :: "sparse_index \<Rightarrow> string \<Rightarrow> real" where
  "idf_tfidf idx t = ln (real (n_docs idx) / real (max 1 (df idx t)))"

text \<open>
  Modelled from the spec: the TF-IDF score of section 4.2 (the scorer is missing), the sum
  over the query terms of \<open>tf(t, d) * idf(t)\<close>.
\<close>

definition tfidf_score :: "sparse_index \<Rightarrow> string list \<Rightarrow> nat \<Rightarrow> real" where
  "tfidf_score idx query d = (\<Sum>t\<leftarrow>query. real (tf idx t d) * idf_tfidf idx t)"

text \<open>
  Modelled from the spec: the BM25 term weight of section 4.2 (the scorer is missing):
  \<open>idf(t) * tf * (k1 + 1) / (tf + k1 * (1 - b + b * doc_len / avg_doc_length))\<close>. A term
  with no posting for the document (absent from the vocabulary, or not in the document)
  contributes zero.
\<close>

definition bm25_term :: "real \<Rightarrow> real \<Rightarrow> real \<Rightarrow> sparse_index \<Rightarrow> string \<Rightarrow> nat \<Rightarrow> real" where
  "bm25_term idf k1 b idx t d =
     (case map_of (postings idx t) d of
        None \<Rightarrow> 0
      | Some f \<Rightarrow>
          idf * (real f * (k1 + 1))
            / (real f + k1 * (1 - b + b * real (doc_len idx d) / avg_doc_length idx)))"

text \<open>
  Modelled from the spec: the idf of BM25 (the scorer is missing). The spec gives it only
  as the ATIRE formula \<open>log(N / df)\<close> with the "+1" smoothing that ATIRE drops; both
  readings of that smoothing are modelled: \<open>log(N / df) + 1\<close> and
  \<open>log(1 + (N - df + 0.5) / (df + 0.5))\<close>.
\<close>

datatype bm25_smoothing = Plus_one_outside | Plus_one_inside

text \<open>
  Modelled from the spec: the smoothed idf of BM25 under each of the two readings (the
  scorer is missing).
\<close>

fun idf_bm25 :: "bm25_smoothing \<Rightarrow> sparse_index \<Rightarrow> string \<Rightarrow> real" where
  "idf_bm25 Plus_one_outside idx t = ln (real (n_docs idx) / real (df idx t)) + 1"
| "idf_bm25 Plus_one_inside idx t =
     ln (1 + (real (n_docs idx) - real (df idx t) + 1 / 2) / (real (df idx t) + 1 / 2))"

text \<open>
  Modelled from the spec: the BM25 score of section 4.2 (the scorer is missing), the term
  weights summed over the query terms.
\<close>

definition bm25_score ::
  "bm25_smoothing \<Rightarrow> real \<Rightarrow> real \<Rightarrow> sparse_index \<Rightarrow> string list \<Rightarrow> nat \<Rightarrow> real" where
  "bm25_score smoothing k1 b idx query d =
     (\<Sum>t\<leftarrow>query. bm25_term (idf_bm25 smoothing idx t) k1 b idx t d)"

text \<open>
  Modelled from the spec: the idf of ATIRE-BM25, section 4.2 (the scorer is missing):
  \<open>idf(t) = log(N / df(t))\<close>, a negative value clamped to zero.
\<close>

definition idf_atire :: "sparse_index \<Rightarrow> string \<Rightarrow> real" where
  "idf_atire idx t = max 0 (ln (real (n_docs idx) / real (df idx t)))"

text \<open>
  Modelled from the spec: the ATIRE-BM25 score of section 4.2 (the scorer is missing), the
  BM25 term weights with the clamped idf, summed over the query terms.
\<close>

definition atire_bm25_score ::
  "real \<Rightarrow> real \<Rightarrow> sparse_index \<Rightarrow> string list \<Rightarrow> nat \<Rightarrow> real" where
  "atire_bm25_score k1 b idx query d =
     (\<Sum>t\<leftarrow>query. bm25_term (idf_atire idx t) k1 b idx t d)"

section \<open>Dense scoring, fusion and the query facade\<close>

text \<open>
  Modelled from the spec: the Dense Embedding Matrix of section 3 with its declared
  dimension \<open>D\<close> (the dense index of \<^verbatim>\<open>retrieval.dense\<close> is missing).
\<close>

record dense_matrix =
  dm_dim :: nat
  dm_rows :: "real list list"

text \<open>
  Modelled from the spec: \<^verbatim>\<open>score(query_vector)\<close> of section 4.3 (the dense index is
  missing): the dot product of the query vector with every row, failing with
  \<^verbatim>\<open>DimensionMismatchError\<close> when the query vector does not have \<open>D\<close> entries.
\<close>

definition dense_score :: "dense_matrix \<Rightarrow> real list \<Rightarrow> retrieval_error + real list" where
  "dense_score M qv =
     (if length qv \<noteq> dm_dim M then Inl DimensionMismatchError
      else Inr (map (\<lambda>row. \<Sum>k\<leftarrow>[0..<dm_dim M]. qv ! k * row ! k) (dm_rows M)))"

text \<open>
  Modelled from the spec: min-max normalisation to \<open>[0, 1]\<close> over the candidate set, of
  section 4.4 (the fusion classes of \<^verbatim>\<open>retrieval.hybrid\<close> are missing). Where all scores
  are equal the normalised score is taken to be zero.
\<close>

definition min_max_normalize :: "real list \<Rightarrow> real list" where
  "min_max_normalize xs =
     (if xs = [] then []
      else (let lo = Min (set xs); hi = Max (set xs)
            in map (\<lambda>x. if hi = lo then 0 else (x - lo) / (hi - lo)) xs))"

text \<open>
  Modelled from the spec: the two fusion strategies of section 4.4 (the fusion classes are
  missing): fixed weights \<open>(alpha, beta)\<close> on normalised scores, or the fitted logistic
  regression \<open>(w_sparse, w_dense, bias)\<close> on the raw scores; without fitted weights the
  logistic strategy falls back to the equal-weight linear combination, and says so.
\<close>

datatype fusion_strategy =
    Linear_fusion real real
  | Logistic_fusion "(real \<times> real \<times> real) option"

text \<open>
  Modelled from the spec: the fused score of every document under a strategy, of section
  4.4 (the fusion classes are missing), with the flag that the fallback was used.
\<close>

fun fuse_scores :: "fusion_strategy \<Rightarrow> real list \<Rightarrow> real list \<Rightarrow> real list \<times> bool" where
  "fuse_scores (Linear_fusion alpha beta) sparse dense =
     (map2 (\<lambda>s d. alpha * s + beta * d) (min_max_normalize sparse) (min_max_normalize dense),
      False)"
| "fuse_scores (Logistic_fusion (Some (w_sparse, w_dense, bias0))) sparse dense =
     (map2 (\<lambda>s d. 1 / (1 + exp (- (w_sparse * s + w_dense * d + bias0)))) sparse dense, False)"
| "fuse_scores (Logistic_fusion None) sparse dense =
     (map2 (\<lambda>s d. (1 / 2) * s + (1 / 2) * d) (min_max_normalize sparse) (min_max_normalize dense),
      True)"

text \<open>
  Modelled from the spec: the ranking of section 4.4 (the fusion classes are missing):
  descending final score, ties broken by ascending document id, at most \<open>top_k\<close> entries.
\<close>

definition rank_top_k :: "nat \<Rightarrow> real list \<Rightarrow> (nat \<times> real) list" where
  "rank_top_k top_k scores =
     take top_k (sort_key (\<lambda>(i, s). (- s, i)) (zip [0..<length scores] scores))"

text \<open>
  Modelled from the spec: the sparse schemes of section 4.2 as one choice (the scorers are
  missing).
\<close>

datatype sparse_scheme = TFIDF | BM25 bm25_smoothing | ATIRE_BM25

text \<open>
  Modelled from the spec: the sparse score under the chosen scheme, of section 4.2 (the
  scorers are missing).
\<close>

fun sparse_score ::
  "sparse_scheme \<Rightarrow> real \<Rightarrow> real \<Rightarrow> sparse_index \<Rightarrow> string list \<Rightarrow> nat \<Rightarrow> real" where
  "sparse_score TFIDF k1 b idx query d = tfidf_score idx query d"
| "sparse_score (BM25 smoothing) k1 b idx query d = bm25_score smoothing k1 b idx query d"
| "sparse_score ATIRE_BM25 k1 b idx query d = atire_bm25_score k1 b idx query d"

text \<open>
  Modelled from the spec: the states of the Query Facade's state machine, section 4.6
  (\<^verbatim>\<open>retrieval\<close>'s base classes are missing).
\<close>

datatype facade_phase = UNINITIALIZED | INDEXED | READY | SERVING

text \<open>
  Modelled from the spec: the state of the Query Facade of section 4.6 (the facade is
  missing): phase, passages by id, tokenizer, query encoder, scorer configuration and
  index artifacts.
\<close>

record facade =
  f_phase :: facade_phase
  f_passages :: "string list"
  f_tokenize :: "string \<Rightarrow> string list"
  f_encode :: "string \<Rightarrow> real list"
  f_scheme :: sparse_scheme
  f_k1 :: real
  f_b :: real
  f_sparse :: "sparse_index option"
  f_dense :: dense_matrix
  f_fusion :: fusion_strategy

text \<open>
  Modelled from the spec: \<^verbatim>\<open>retrieve(query, top_k)\<close> of sections 4.6 and 6 (the facade is
  missing): \<^verbatim>\<open>NotReadyError\<close> before \<^verbatim>\<open>READY\<close>; otherwise the sparse and dense scores
  of every document, fused, ranked, and returned as \<open>(doc_id, score, passage_text)\<close>. The
  first query moves the facade to \<^verbatim>\<open>SERVING\<close>; nothing else of the state changes.
\<close>

definition retrieve ::
  "facade \<Rightarrow> string \<Rightarrow> nat \<Rightarrow> facade \<times> (retrieval_error + (nat \<times> real \<times> string) list)" where
  "retrieve fc query top_k =
     (if f_phase fc \<noteq> READY \<and> f_phase fc \<noteq> SERVING then (fc, Inl NotReadyError)
      else (case f_sparse fc of
              None \<Rightarrow> (fc, Inl NotReadyError)
            | Some idx \<Rightarrow>
                (let sparse = map (sparse_score (f_scheme fc) (f_k1 fc) (f_b fc) idx
                                     (f_tokenize fc query))
                                  [0..<length (f_passages fc)]
                 in case dense_score (f_dense fc) (f_encode fc query) of
                      Inl e \<Rightarrow> (fc\<lparr>f_phase := SERVING\<rparr>, Inl e)
                    | Inr dense \<Rightarrow>
                        (let fused = fst (fuse_scores (f_fusion fc) sparse dense);
                             ranked = rank_top_k top_k fused
                         in (fc\<lparr>f_phase := SERVING\<rparr>,
                             Inr (map (\<lambda>(i, s). (i, s, f_passages fc ! i)) ranked))))))"

section \<open>Concrete inputs\<close>

definition a_bm25 :: args where
  "a_bm25 = \<lparr>args_model = \<lparr>retriever_name = ''BM25''\<rparr>,
              args_retriever = \<lparr>dense_train_dataset = ''wiki''\<rparr>,
              args_path = \<lparr>train_data_dir = ''data''\<rparr>\<rparr>"

definition a_dpr :: args where
  "a_dpr = \<lparr>args_model = \<lparr>retriever_name = ''DPR''\<rparr>,
             args_retriever = \<lparr>dense_train_dataset = ''train_dataset''\<rparr>,
             args_path = \<lparr>train_data_dir = ''data''\<rparr>\<rparr>"


definition plain_classes :: "string class_table" where
  "plain_classes =
     \<lparr>static_classes = (\<lambda>r.
          \<lparr>c_name = ''class'',
           c_bases = (if r = Other ''object'' then [] else [Other ''object'']),
           c_dict = (if r = Bm25TrainMixin then [(''_exec_embedding'', ''Bm25TrainMixin._exec_embedding'')]
                     else if r = DprBert then [(''_exec_embedding'', ''DprBert._exec_embedding'')]
                     else []),
           c_mro = (if r = Other ''object'' then [r] else [r, Other ''object''])\<rparr>),
      synthesized = []\<rparr>"

definition echo_package :: "(string, class_ref) retrieval_package" where
  "echo_package = \<lparr>instantiate = (\<lambda>T c a. Inr c), get_embedding = (\<lambda>r. Inr r)\<rparr>"

definition demo_example :: example where
  "demo_example = \<lparr>ex_question = ''which passage?'', ex_context = ''a passage''\<rparr>"

definition hub_models :: "string list" where
  "hub_models = map class_backbone
     [DprRetrieval, DprKobertRetrieval, DprKorquadBertRetrieval, DprKoelectraRetrieval]"

definition demo_env :: "(unit, string, unit) env" where
  "demo_env =
     \<lparr>from_pretrained = (\<lambda>name cfg.
         if name \<in> set hub_models then Inr () else Inl OSError),
      config_from_pretrained = (\<lambda>name.
         if name \<in> set hub_models then Inr \<lparr>hidden_size = 768\<rparr> else Inl OSError),
      linear_init = (\<lambda>draw n_in n_out. (\<lambda>i j. 0, \<lambda>i. 0)),
      cuda_error = None,
      pooled_output = (\<lambda>w t. replicate 768 0),
      cls_token_output = (\<lambda>w t. replicate 768 0),
      tokenizer = (\<lambda>s. s),
      load_from_disk = (\<lambda>path.
         if path = ''data/train_dataset'' then
           Inr [''train'' \<mapsto> replicate 12 demo_example,
                ''validation'' \<mapsto> replicate 2 demo_example]
         else if path = ''data/kor_dataset'' then
           Inr [''train'' \<mapsto> replicate 2 demo_example]
         else Inl OSError),
      adamw_init = (),
      adamw_step = (\<lambda>opt models batch.
         ((), \<lambda>is_p name. if name = ''bert_proj'' then LinearValues (\<lambda>i j. 1) (\<lambda>i. 1)
                           else BackboneValues ())),
      sampler_random = (\<lambda>epoch i. 0)\<rparr>"

definition demo_args :: args where
  "demo_args = \<lparr>args_model = \<lparr>retriever_name = ''DPRBERT''\<rparr>,
                 args_retriever = \<lparr>dense_train_dataset = ''train_dataset''\<rparr>,
                 args_path = \<lparr>train_data_dir = ''data''\<rparr>\<rparr>"

definition corpus_of_one :: dpr_retrieval where
  "corpus_of_one = \<lparr>r_class = DprRetrieval, r_args = demo_args,
                     r_contexts = [''the only passage''],
                     r_backbone = class_backbone DprRetrieval\<rparr>"

definition corpus_of_three :: dpr_retrieval where
  "corpus_of_three = \<lparr>r_class = DprRetrieval, r_args = demo_args,
                       r_contexts = [''first passage'', ''second passage'', ''third passage''],
                       r_backbone = class_backbone DprRetrieval\<rparr>"

definition kobert_instance :: dpr_retrieval where
  "kobert_instance = \<lparr>r_class = DprKobertRetrieval, r_args = demo_args,
                       r_contexts = [''first passage'', ''second passage''],
                       r_backbone = class_backbone DprKobertRetrieval\<rparr>"

definition q_twos :: tensor where
  "q_twos = \<lparr>shape = [1, 2], entry = (\<lambda>idx. 2)\<rparr>"

definition p_threes :: tensor where
  "p_threes = \<lparr>shape = [1, 2], entry = (\<lambda>idx. 3)\<rparr>"

definition demo_encoder :: "unit module_obj" where
  "demo_encoder =
     \<lparr>m_class = BertEncoder, m_initialized = True,
      m_modules = [''bert'' \<mapsto> Backbone (),
                   ''bert_proj'' \<mapsto> Linear (nn_Linear 768 512 (\<lambda>i j. 0, \<lambda>i. 0))]\<rparr>"

definition demo_state :: "(unit, unit) train_state" where
  "demo_state = \<lparr>p_model = demo_encoder, q_model = demo_encoder, optimizer = (),
                  global_step = 0, train_loss = 0\<rparr>"

definition demo_pairs :: "nat \<Rightarrow> (string \<times> string) list" where
  "demo_pairs n = replicate n (''a passage'', ''which passage?'')"

definition three_docs :: "string list list" where
  "three_docs = [[''the'', ''cat'', ''sat''], [''the'', ''dog'', ''ran''], [''cats'', ''and'', ''dogs'']]"

definition tied_facade :: facade where
  "tied_facade =
     \<lparr>f_phase = READY,
      f_passages = [''cat'', ''dog''],
      f_tokenize = (\<lambda>s. [s]),
      f_encode = (\<lambda>s. [1]),
      f_scheme = BM25 Plus_one_outside,
      f_k1 = 12 / 10,
      f_b = 75 / 100,
      f_sparse = Some (projr (sparse_build [[''cat''], [''dog'']])),
      f_dense = \<lparr>dm_dim = 1, dm_rows = [[3], [3]]\<rparr>,
      f_fusion = Linear_fusion (1 / 2) (1 / 2)\<rparr>"

section \<open>Properties of class creation and of \<^verbatim>\<open>get_retriever\<close>\<close>










lemma select_not_KeyError:
  "map_of RETRIEVER (retriever_name (args_model a)) = Some c \<Longrightarrow>
   select_retriever_class T a \<noteq> Inl KeyError"
  by (auto simp: select_retriever_class_def retriever_mixin_factory_def type_new_def Let_def
           split: option.splits)

lemma select_base:
  assumes "map_of RETRIEVER (retriever_name (args_model a)) = Some c"
    and "select_retriever_class T a = Inr (T', c')"
  shows "c' = c \<or> (\<exists>mixin. map_option c_bases (lookup_class T' c') = Some [mixin, c])"
  using assms
  by (auto simp: select_retriever_class_def retriever_mixin_factory_def type_new_def Let_def
        lookup_class_def split: option.splits if_splits)

lemma get_retriever_instantiates:
  assumes "select_retriever_class T a = Inr (T', c')"
  shows "\<exists>evs res. get_retriever pkg T a = (T', Instantiate c' # evs, res)"
  using assms by (auto simp: get_retriever_def split: sum.splits)

lemma get_retriever_unknown:
  assumes "retriever_name (args_model a) \<notin> dom (map_of RETRIEVER)"
  shows "get_retriever pkg T a = (T, [], Inl KeyError)"
proof -
  from assms have "map_of RETRIEVER (retriever_name (args_model a)) = None" by blast
  then show ?thesis by (simp add: get_retriever_def select_retriever_class_def)
qed

text \<open>
  C4. The recognised retriever names are exactly the keys of \<^verbatim>\<open>RETRIEVER\<close>. With
  \<^verbatim>\<open>args.model.retriever_name\<close> one of them, \<^verbatim>\<open>get_retriever\<close> never raises
  \<^verbatim>\<open>KeyError\<close>, and the class it instantiates is the registered class or a class
  synthesised over it; with any other name the lookup raises \<^verbatim>\<open>KeyError\<close> and nothing has
  been instantiated (the event list is empty, the class table unchanged).
\<close>

theorem get_retriever_recognized_names:
  "dom (map_of RETRIEVER) =
      {''BM25'', ''ATIREBM25'', ''TFIDF'', ''DPRBERT'', ''COLBERT'', ''BM25_DPRBERT'',
       ''TFIDF_DPRBERT'', ''ATIREBM25_DPRBERT'', ''LOG_BM25_DPRBERT'', ''LOG_ATIREBM25_DPRBERT''}
   \<and> map_of RETRIEVER ''BM25'' = Some BM25Retrieval
   \<and> map_of RETRIEVER ''ATIREBM25'' = Some ATIREBM25Retrieval
   \<and> map_of RETRIEVER ''TFIDF'' = Some TfidfRetrieval
   \<and> map_of RETRIEVER ''DPRBERT'' = Some DprBert
   \<and> map_of RETRIEVER ''COLBERT'' = Some ColBert
   \<and> map_of RETRIEVER ''BM25_DPRBERT'' = Some Bm25DprBert
   \<and> map_of RETRIEVER ''TFIDF_DPRBERT'' = Some TfidfDprBert
   \<and> map_of RETRIEVER ''ATIREBM25_DPRBERT'' = Some AtireBm25DprBert
   \<and> map_of RETRIEVER ''LOG_BM25_DPRBERT'' = Some LogisticBm25DprBert
   \<and> map_of RETRIEVER ''LOG_ATIREBM25_DPRBERT'' = Some LogisticAtireBm25DprBert
   \<and> (\<forall>c. map_of RETRIEVER (retriever_name (args_model a)) = Some c \<longrightarrow>
          select_retriever_class T a \<noteq> Inl KeyError
        \<and> (\<forall>T' c'. select_retriever_class T a = Inr (T', c') \<longrightarrow>
              (c' = c \<or> (\<exists>mixin. map_option c_bases (lookup_class T' c') = Some [mixin, c]))
            \<and> (\<exists>evs res. get_retriever pkg T a = (T', Instantiate c' # evs, res))))
   \<and> (retriever_name (args_model a) \<notin>
          {''BM25'', ''ATIREBM25'', ''TFIDF'', ''DPRBERT'', ''COLBERT'', ''BM25_DPRBERT'',
           ''TFIDF_DPRBERT'', ''ATIREBM25_DPRBERT'', ''LOG_BM25_DPRBERT'', ''LOG_ATIREBM25_DPRBERT''}
        \<longrightarrow> get_retriever pkg T a = (T, [], Inl KeyError))"
proof -
  have d: "dom (map_of RETRIEVER) =
      {''BM25'', ''ATIREBM25'', ''TFIDF'', ''DPRBERT'', ''COLBERT'', ''BM25_DPRBERT'',
       ''TFIDF_DPRBERT'', ''ATIREBM25_DPRBERT'', ''LOG_BM25_DPRBERT'', ''LOG_ATIREBM25_DPRBERT''}"
    by (simp add: dom_map_of_conv_image_fst RETRIEVER_def)
  have tab: "map_of RETRIEVER ''BM25'' = Some BM25Retrieval"
    "map_of RETRIEVER ''ATIREBM25'' = Some ATIREBM25Retrieval"
    "map_of RETRIEVER ''TFIDF'' = Some TfidfRetrieval"
    "map_of RETRIEVER ''DPRBERT'' = Some DprBert"
    "map_of RETRIEVER ''COLBERT'' = Some ColBert"
    "map_of RETRIEVER ''BM25_DPRBERT'' = Some Bm25DprBert"
    "map_of RETRIEVER ''TFIDF_DPRBERT'' = Some TfidfDprBert"
    "map_of RETRIEVER ''ATIREBM25_DPRBERT'' = Some AtireBm25DprBert"
    "map_of RETRIEVER ''LOG_BM25_DPRBERT'' = Some LogisticBm25DprBert"
    "map_of RETRIEVER ''LOG_ATIREBM25_DPRBERT'' = Some LogisticAtireBm25DprBert"
    by (simp_all add: RETRIEVER_def)
  have known: "\<forall>c. map_of RETRIEVER (retriever_name (args_model a)) = Some c \<longrightarrow>
          select_retriever_class T a \<noteq> Inl KeyError
        \<and> (\<forall>T' c'. select_retriever_class T a = Inr (T', c') \<longrightarrow>
              (c' = c \<or> (\<exists>mixin. map_option c_bases (lookup_class T' c') = Some [mixin, c]))
            \<and> (\<exists>evs res. get_retriever pkg T a = (T', Instantiate c' # evs, res)))"
    using select_not_KeyError select_base get_retriever_instantiates by blast
  have unknown: "retriever_name (args_model a) \<notin>
          {''BM25'', ''ATIREBM25'', ''TFIDF'', ''DPRBERT'', ''COLBERT'', ''BM25_DPRBERT'',
           ''TFIDF_DPRBERT'', ''ATIREBM25_DPRBERT'', ''LOG_BM25_DPRBERT'', ''LOG_ATIREBM25_DPRBERT''}
        \<longrightarrow> get_retriever pkg T a = (T, [], Inl KeyError)"
    using get_retriever_unknown [of a pkg T] unfolding d by blast
  show ?thesis using d tab known unknown by blast
qed

theorem get_retriever_recognized_names_witness:
  "map_of RETRIEVER (retriever_name (args_model a_bm25)) = Some BM25Retrieval
   \<and> get_retriever echo_package plain_classes a_bm25
       = (plain_classes, [Instantiate BM25Retrieval, GetEmbedding], Inr BM25Retrieval)
   \<and> retriever_name (args_model a_dpr) = ''DPR''
   \<and> get_retriever echo_package plain_classes a_dpr = (plain_classes, [], Inl KeyError)"
proof -
  have k: "map_of RETRIEVER (retriever_name (args_model a_bm25)) = Some BM25Retrieval"
    by (simp add: a_bm25_def RETRIEVER_def)
  have s: "select_retriever_class plain_classes a_bm25 = Inr (plain_classes, BM25Retrieval)"
    by (simp add: select_retriever_class_def a_bm25_def RETRIEVER_def py_startswith_def)
  have "\<forall>c. map_of RETRIEVER (retriever_name (args_model a_bm25)) = Some c \<longrightarrow>
          select_retriever_class plain_classes a_bm25 \<noteq> Inl KeyError
        \<and> (\<forall>T' c'. select_retriever_class plain_classes a_bm25 = Inr (T', c') \<longrightarrow>
              (c' = c \<or> (\<exists>mixin. map_option c_bases (lookup_class T' c') = Some [mixin, c]))
            \<and> (\<exists>evs res. get_retriever echo_package plain_classes a_bm25
                   = (T', Instantiate c' # evs, res)))"
    using get_retriever_recognized_names [of a_bm25 plain_classes echo_package]
    by - (elim conjE, assumption)
  with k s obtain evs res where
    "get_retriever echo_package plain_classes a_bm25 = (plain_classes, Instantiate BM25Retrieval # evs, res)"
    by blast
  then have g1: "get_retriever echo_package plain_classes a_bm25
       = (plain_classes, [Instantiate BM25Retrieval, GetEmbedding], Inr BM25Retrieval)"
    by (simp add: get_retriever_def s echo_package_def)
  have n: "retriever_name (args_model a_dpr) = ''DPR''" by (simp add: a_dpr_def)
  have g2: "get_retriever echo_package plain_classes a_dpr = (plain_classes, [], Inl KeyError)"
    using get_retriever_recognized_names [of a_dpr plain_classes echo_package]
    unfolding n by - (elim conjE, simp)
  show ?thesis using k g1 n g2 by simp
qed






section \<open>Properties of the dense retrieval code\<close>

subsection \<open>Similarity scores\<close>

lemma sim_scores_entries:
  assumes "shape q = [B, D]" and "shape p = [B', D]"
  shows "\<exists>S. sim_scores q p = Inr S \<and> shape S = [B, B']
      \<and> (\<forall>i j. entry S [i, j] = (\<Sum>k\<leftarrow>[0..<D]. entry q [i, k] * entry p [j, k]))"
  using assms by (simp add: sim_scores_def torch_transpose01_def torch_matmul_def)

lemma sim_scores_rows:
  assumes "sim_scores q p = Inr S" and "shape q = n # rest"
  shows "\<exists>m. shape S = [n, m]"
  using assms
  by (auto simp: sim_scores_def torch_transpose01_def torch_matmul_def
           split: list.splits sum.splits if_splits)

lemma log_softmax_shape: "log_softmax_dim1 x = Inr y \<Longrightarrow> shape y = shape x"
  by (auto simp: log_softmax_dim1_def split: list.splits)

lemma nll_loss_rows: "nll_loss x target = Inr l \<Longrightarrow> \<exists>c. shape x = [length target, c]"
  by (auto simp: nll_loss_def split: list.splits if_splits)

lemma linear_forward_shape:
  "linear_forward L rows = Inr t \<Longrightarrow> shape t = [length rows, out_features L]"
  by (auto simp: linear_forward_def split: if_splits)

lemma encoder_forward_rows:
  "encoder_forward E m inputs = Inr t \<Longrightarrow> \<exists>d. shape t = [length inputs, d]"
  by (auto simp: encoder_forward_def dest!: linear_forward_shape
           split: encoder_class.splits option.splits submodule.splits)

lemma train_step_batch_size:
  assumes "train_step E targs st batch = Inr st'"
  shows "length batch = per_device_train_batch_size targs"
proof -
  from assms obtain p_out q_out scores logp loss where
    q: "encoder_forward E (q_model st) (map snd batch) = Inr q_out"
    and s: "sim_scores q_out p_out = Inr scores"
    and l: "log_softmax_dim1 scores = Inr logp"
    and n: "nll_loss logp (step_targets targs) = Inr loss"
    by (auto simp: train_step_def split: sum.splits)
  from encoder_forward_rows [OF q] obtain d where "shape q_out = [length batch, d]" by auto
  with sim_scores_rows [OF s] obtain m where "shape scores = [length batch, m]" by auto
  with log_softmax_shape [OF l] have "shape logp = [length batch, m]" by simp
  with nll_loss_rows [OF n] show ?thesis
    by (simp add: step_targets_def torch_arange_def)
qed

lemma train_step_global_step:
  "train_step E targs st batch = Inr st' \<Longrightarrow> global_step st' = global_step st + 1"
  by (auto simp: train_step_def Let_def split: sum.splits prod.splits)

lemma run_batches_sizes:
  "run_batches E targs st batches = Inr st' \<Longrightarrow>
     list_all (\<lambda>b. length b = per_device_train_batch_size targs) batches
     \<and> global_step st' = global_step st + length batches"
proof (induction batches arbitrary: st)
  case Nil
  then show ?case by simp
next
  case (Cons b batches)
  from Cons.prems obtain st1 where
    s1: "train_step E targs st b = Inr st1" and r: "run_batches E targs st1 batches = Inr st'"
    by (auto split: sum.splits)
  from Cons.IH [OF r] train_step_batch_size [OF s1] train_step_global_step [OF s1]
  show ?case by simp
qed

subsection \<open>Batches\<close>

lemma length_shuffle_with:
  "n \<le> length xs \<Longrightarrow> length (shuffle_with rnd n xs) = n"
proof (induction n arbitrary: xs)
  case 0
  then show ?case by simp
next
  case (Suc n)
  then have ne: "xs \<noteq> []" by auto
  let ?k = "rnd n mod length xs"
  have k: "?k < length xs" using ne by simp
  have "length (take ?k xs @ drop (Suc ?k) xs) = length xs - 1" using k by simp
  with Suc.prems have "n \<le> length (take ?k xs @ drop (Suc ?k) xs)" by simp
  from Suc.IH [OF this] ne show ?case by (simp add: Let_def)
qed

lemma chunks_Nil [simp]: "chunks n [] = []"
  by (simp add: chunks.simps)

lemma chunks_full:
  "0 < n \<Longrightarrow> list_all (\<lambda>b. length b = n) (chunks n xs) \<Longrightarrow> length xs = n * length (chunks n xs)"
proof (induction n xs rule: chunks.induct)
  case (1 n xs)
  show ?case
  proof (cases "xs = []")
    case True
    then show ?thesis by simp
  next
    case False
    with 1(2) have c: "chunks n xs = take n xs # chunks n (drop n xs)"
      by (subst chunks.simps) simp
    with 1(3) have t: "length (take n xs) = n"
      and r: "list_all (\<lambda>b. length b = n) (chunks n (drop n xs))" by simp_all
    from t have le: "n \<le> length xs" by simp
    from 1(1) [OF _ 1(2) r] False 1(2) have "length (drop n xs) = n * length (chunks n (drop n xs))"
      by simp
    with le c show ?thesis by simp
  qed
qed

lemma chunks_dvd:
  "0 < n \<Longrightarrow> n dvd length xs \<Longrightarrow>
     list_all (\<lambda>b. length b = n) (chunks n xs) \<and> length (chunks n xs) = length xs div n"
proof (induction n xs rule: chunks.induct)
  case (1 n xs)
  show ?case
  proof (cases "xs = []")
    case True
    then show ?thesis by simp
  next
    case False
    with 1(2) have c: "chunks n xs = take n xs # chunks n (drop n xs)"
      by (subst chunks.simps) simp
    from False 1(2,3) have le: "n \<le> length xs" by (auto dest: dvd_imp_le)
    then have d: "n dvd length (drop n xs)" using 1(3) by (simp add: dvd_diff_nat)
    from 1(1) [OF _ 1(2) d] False 1(2)
    have ih: "list_all (\<lambda>b. length b = n) (chunks n (drop n xs))"
      "length (chunks n (drop n xs)) = (length xs - n) div n" by simp_all
    have "Suc ((length xs - n) div n) = length xs div n"
      using le 1(2) by (metis div_add_self2 le_add_diff_inverse2 Suc_eq_plus1 less_numeral_extra(3))
    with ih le c show ?thesis by simp
  qed
qed

subsection \<open>Epochs\<close>

lemma DataLoader_batches_full:
  assumes "0 < per_device_train_batch_size targs"
    and "list_all (\<lambda>b. length b = per_device_train_batch_size targs)
           (DataLoader_batches E targs dataset epoch)"
  shows "length dataset
           = per_device_train_batch_size targs * length (DataLoader_batches E targs dataset epoch)"
  using chunks_full [OF assms(1) assms(2) [unfolded DataLoader_batches_def]]
  by (simp add: DataLoader_batches_def length_shuffle_with)

lemma run_epochs_steps:
  assumes "run_epochs E targs dataset st epochs = Inr st'"
    and "0 < per_device_train_batch_size targs"
  shows "global_step st' * per_device_train_batch_size targs
           = global_step st * per_device_train_batch_size targs + length epochs * length dataset
       \<and> (epochs \<noteq> [] \<longrightarrow> dataset \<noteq> []
              \<and> per_device_train_batch_size targs dvd length dataset)"
  using assms(1)
proof (induction epochs arbitrary: st)
  case Nil
  then show ?case by simp
next
  case (Cons epoch epochs)
  let ?bs = "DataLoader_batches E targs dataset epoch"
  from Cons.prems obtain st1 where
    b: "run_batches E targs (st\<lparr>train_loss := 0\<rparr>) ?bs = Inr st1"
    and ne: "length ?bs \<noteq> 0"
    and r: "run_epochs E targs dataset st1 epochs = Inr st'"
    by (auto simp: Let_def split: sum.splits if_splits)
  from run_batches_sizes [OF b]
  have full: "list_all (\<lambda>b. length b = per_device_train_batch_size targs) ?bs"
    and g1: "global_step st1 = global_step st + length ?bs" by simp_all
  from DataLoader_batches_full [OF assms(2) full]
  have len: "length dataset = per_device_train_batch_size targs * length ?bs" .
  from Cons.IH [OF r]
  have ih: "global_step st' * per_device_train_batch_size targs
           = global_step st1 * per_device_train_batch_size targs + length epochs * length dataset"
    by simp
  have d: "per_device_train_batch_size targs dvd length dataset" using len by simp
  have n: "dataset \<noteq> []" using len ne assms(2) by auto
  have "global_step st' * per_device_train_batch_size targs
           = global_step st * per_device_train_batch_size targs
             + length (epoch # epochs) * length dataset"
    using ih g1 len by (simp add: algebra_simps)
  with d n show ?case by simp
qed

lemma train_loop_steps:
  assumes "train_loop E targs dataset p q = Inr st"
  shows "0 < per_device_train_batch_size targs
       \<and> global_step st * per_device_train_batch_size targs
           = num_train_epochs targs * length dataset
       \<and> (0 < num_train_epochs targs \<longrightarrow> dataset \<noteq> []
              \<and> per_device_train_batch_size targs dvd length dataset)"
proof -
  from assms have bs: "0 < per_device_train_batch_size targs"
    and r: "run_epochs E targs dataset
             \<lparr>p_model = p, q_model = q, optimizer = adamw_init E,
              global_step = 0, train_loss = 0\<rparr>
             [0..<num_train_epochs targs] = Inr st"
    by (auto simp: train_loop_def split: if_splits)
  from run_epochs_steps [OF r bs] bs show ?thesis by simp
qed

lemma train_requires_multiple:
  assumes "train E targs dataset p q = Inr r" and "0 < num_train_epochs targs"
  shows "per_device_train_batch_size targs dvd length dataset \<and> dataset \<noteq> []"
proof -
  from assms(1) obtain st where "train_loop E targs dataset p q = Inr st"
    by (auto simp: train_def split: sum.splits)
  from train_loop_steps [OF this] assms(2) show ?thesis by simp
qed

subsection \<open>The projection keeps its output size\<close>

lemma set_values_Linear:
  "set_values sub v = Linear L' \<Longrightarrow>
     \<exists>L. sub = Linear L \<and> out_features L' = out_features L \<and> in_features L' = in_features L"
  by (cases sub; cases v) (auto simp: set_values_def)

lemma set_values_of_Linear:
  "\<exists>L'. set_values (Linear L) v = Linear L' \<and> out_features L' = out_features L
        \<and> in_features L' = in_features L"
  by (cases v) (auto simp: set_values_def)

lemma set_values_of_Backbone: "\<exists>w'. set_values (Backbone w) v = Backbone w'"
  by (cases v) (auto simp: set_values_def)

lemma write_parameters_proj_512: "proj_512 m \<Longrightarrow> proj_512 (write_parameters m vals)"
  unfolding proj_512_def write_parameters_def
  by (auto dest!: set_values_Linear)

lemma write_parameters_bert_ready: "bert_ready h m \<Longrightarrow> bert_ready h (write_parameters m vals)"
proof -
  assume a: "bert_ready h m"
  then obtain w L where w: "m_modules m ''bert'' = Some (Backbone w)"
    and L: "m_modules m ''bert_proj'' = Some (Linear L)"
    and f: "in_features L = h" "out_features L = 512" and c: "m_class m = BertEncoder"
    unfolding bert_ready_def by blast
  from set_values_of_Backbone [of w "vals ''bert''"] obtain w' where w': "set_values (Backbone w) (vals ''bert'') = Backbone w'"
    by blast
  from set_values_of_Linear [of L "vals ''bert_proj''"] obtain L' where L': "set_values (Linear L) (vals ''bert_proj'') = Linear L'"
    "out_features L' = out_features L" "in_features L' = in_features L" by blast
  show ?thesis
    unfolding bert_ready_def write_parameters_def using w L f c w' L' by simp
qed

lemma BertEncoder_init_ready:
  "BertEncoder_init cfg w init = Inr m \<Longrightarrow> bert_ready (hidden_size cfg) m \<and> proj_512 m"
  by (auto simp: BertEncoder_init_def Module_init_def object_new_def Module_setattr_def
        call_init_weights_def nn_Linear_def bert_ready_def proj_512_def Let_def
        split: if_splits)

lemma BertEncoder_init_succeeds: "\<exists>m. BertEncoder_init cfg w init = Inr m"
  by (simp add: BertEncoder_init_def Module_init_def object_new_def Module_setattr_def
        call_init_weights_def PreTrainedModel_methods_def Let_def)

lemma encoder_forward_512:
  assumes "encoder_forward E m inputs = Inr t" and "proj_512 m"
  shows "shape t = [length inputs, 512]"
  using assms
  by (auto simp: encoder_forward_def proj_512_def dest!: linear_forward_shape
           split: encoder_class.splits option.splits submodule.splits)

lemma train_step_proj_512:
  assumes "train_step E targs st batch = Inr st'" and "proj_512 (p_model st)" "proj_512 (q_model st)"
  shows "proj_512 (p_model st') \<and> proj_512 (q_model st')"
  using assms
  by (auto simp: train_step_def Let_def write_parameters_proj_512 split: sum.splits prod.splits)

lemma run_batches_proj_512:
  "run_batches E targs st batches = Inr st' \<Longrightarrow> proj_512 (p_model st) \<Longrightarrow> proj_512 (q_model st)
     \<Longrightarrow> proj_512 (p_model st') \<and> proj_512 (q_model st')"
proof (induction batches arbitrary: st)
  case Nil
  then show ?case by simp
next
  case (Cons b batches)
  from Cons.prems(1) obtain st1 where
    s1: "train_step E targs st b = Inr st1" and r: "run_batches E targs st1 batches = Inr st'"
    by (auto split: sum.splits)
  from train_step_proj_512 [OF s1 Cons.prems(2,3)] Cons.IH [OF r] show ?case by simp
qed

lemma run_epochs_proj_512:
  "run_epochs E targs dataset st epochs = Inr st' \<Longrightarrow> proj_512 (p_model st)
     \<Longrightarrow> proj_512 (q_model st) \<Longrightarrow> proj_512 (p_model st') \<and> proj_512 (q_model st')"
proof (induction epochs arbitrary: st)
  case Nil
  then show ?case by simp
next
  case (Cons epoch epochs)
  from Cons.prems(1) obtain st1 where
    b: "run_batches E targs (st\<lparr>train_loss := 0\<rparr>) (DataLoader_batches E targs dataset epoch) = Inr st1"
    and r: "run_epochs E targs dataset st1 epochs = Inr st'"
    by (auto simp: Let_def split: sum.splits if_splits)
  from run_batches_proj_512 [OF b] Cons.prems(2,3)
  have "proj_512 (p_model st1) \<and> proj_512 (q_model st1)" by simp
  with Cons.IH [OF r] show ?case by simp
qed

lemma train_proj_512:
  assumes "train E targs dataset p q = Inr (p', q')" and "proj_512 p" "proj_512 q"
  shows "proj_512 p' \<and> proj_512 q'"
proof -
  from assms(1) obtain st where t: "train_loop E targs dataset p q = Inr st"
    and pq: "p' = p_model st" "q' = q_model st"
    by (auto simp: train_def split: sum.splits)
  from t have "run_epochs E targs dataset
             \<lparr>p_model = p, q_model = q, optimizer = adamw_init E,
              global_step = 0, train_loss = 0\<rparr>
             [0..<num_train_epochs targs] = Inr st"
    by (auto simp: train_loop_def split: if_splits)
  from run_epochs_proj_512 [OF this] assms(2,3) pq show ?thesis by simp
qed

subsection \<open>When training returns\<close>

lemma encoder_forward_ready:
  assumes "bert_ready h m" and "pooled_ok E h"
  shows "\<exists>t. encoder_forward E m inputs = Inr t \<and> shape t = [length inputs, 512]"
proof -
  from assms(1) obtain w L where c: "m_class m = BertEncoder"
    and w: "m_modules m ''bert'' = Some (Backbone w)"
    and L: "m_modules m ''bert_proj'' = Some (Linear L)"
    and f: "in_features L = h" "out_features L = 512"
    unfolding bert_ready_def by blast
  have "list_all (\<lambda>x. length x = in_features L) (map (pooled_output E w) inputs)"
    using assms(2) f by (simp add: pooled_ok_def list_all_iff)
  then show ?thesis
    by (simp add: encoder_forward_def c w L linear_forward_def f)
qed

lemma train_step_ready:
  assumes p: "bert_ready h (p_model st)" and q: "bert_ready h (q_model st)"
    and ok: "pooled_ok E h"
    and len: "length batch = per_device_train_batch_size targs"
  shows "\<exists>st'. train_step E targs st batch = Inr st'
            \<and> bert_ready h (p_model st') \<and> bert_ready h (q_model st')"
proof -
  let ?n = "length batch"
  from encoder_forward_ready [OF p ok, of "map fst batch"] obtain p_out where
    po: "encoder_forward E (p_model st) (map fst batch) = Inr p_out" "shape p_out = [?n, 512]"
    by auto
  from encoder_forward_ready [OF q ok, of "map snd batch"] obtain q_out where
    qo: "encoder_forward E (q_model st) (map snd batch) = Inr q_out" "shape q_out = [?n, 512]"
    by auto
  from sim_scores_entries [OF qo(2) po(2)] obtain S where
    S: "sim_scores q_out p_out = Inr S" "shape S = [?n, ?n]" by blast
  obtain logp where lp: "log_softmax_dim1 S = Inr logp" "shape logp = [?n, ?n]"
    using S(2) by (simp add: log_softmax_dim1_def)
  have "list_all (\<lambda>t. t < ?n) (step_targets targs)"
    by (simp add: step_targets_def torch_arange_def len list_all_iff)
  then obtain loss where nl: "nll_loss logp (step_targets targs) = Inr loss"
    using lp(2) by (simp add: nll_loss_def step_targets_def torch_arange_def len)
  obtain opt' vals where a: "adamw_step E (optimizer st) (p_model st, q_model st) batch = (opt', vals)"
    by (cases "adamw_step E (optimizer st) (p_model st, q_model st) batch")
  show ?thesis
    by (simp add: train_step_def po qo S lp nl a
          write_parameters_bert_ready [OF p] write_parameters_bert_ready [OF q])
qed

lemma run_batches_ready:
  "bert_ready h (p_model st) \<Longrightarrow> bert_ready h (q_model st) \<Longrightarrow> pooled_ok E h
   \<Longrightarrow> list_all (\<lambda>b. length b = per_device_train_batch_size targs) batches
   \<Longrightarrow> \<exists>st'. run_batches E targs st batches = Inr st'
            \<and> bert_ready h (p_model st') \<and> bert_ready h (q_model st')"
proof (induction batches arbitrary: st)
  case Nil
  then show ?case by simp
next
  case (Cons b batches)
  from Cons.prems(4) have len: "length b = per_device_train_batch_size targs"
    and rest: "list_all (\<lambda>b. length b = per_device_train_batch_size targs) batches" by simp_all
  from train_step_ready [OF Cons.prems(1,2,3) len] obtain st1 where
    s1: "train_step E targs st b = Inr st1"
    and r1: "bert_ready h (p_model st1)" "bert_ready h (q_model st1)" by blast
  from Cons.IH [OF r1 Cons.prems(3) rest] s1 show ?case by simp
qed

lemma run_epochs_ready:
  assumes bs: "0 < per_device_train_batch_size targs"
    and dv: "per_device_train_batch_size targs dvd length dataset"
    and ne: "dataset \<noteq> []"
    and ok: "pooled_ok E h"
  shows "bert_ready h (p_model st) \<Longrightarrow> bert_ready h (q_model st)
     \<Longrightarrow> \<exists>st'. run_epochs E targs dataset st epochs = Inr st'
            \<and> bert_ready h (p_model st') \<and> bert_ready h (q_model st')"
proof (induction epochs arbitrary: st)
  case Nil
  then show ?case by simp
next
  case (Cons epoch epochs)
  let ?bs = "DataLoader_batches E targs dataset epoch"
  have l: "length (shuffle_with (sampler_random E epoch) (length dataset) dataset) = length dataset"
    by (simp add: length_shuffle_with)
  from chunks_dvd [OF bs, of "shuffle_with (sampler_random E epoch) (length dataset) dataset"] dv l
  have full: "list_all (\<lambda>b. length b = per_device_train_batch_size targs) ?bs"
    and n: "length ?bs = length dataset div per_device_train_batch_size targs"
    by (simp_all add: DataLoader_batches_def)
  have "0 < length dataset" using ne by simp
  with dv bs have "0 < length dataset div per_device_train_batch_size targs"
    by (metis dvd_div_eq_0_iff gr0I less_numeral_extra(3))
  with n have n0: "length ?bs \<noteq> 0" by simp
  from run_batches_ready [OF _ _ ok full, of "st\<lparr>train_loss := 0\<rparr>"] Cons.prems
  obtain st1 where b: "run_batches E targs (st\<lparr>train_loss := 0\<rparr>) ?bs = Inr st1"
    and r1: "bert_ready h (p_model st1)" "bert_ready h (q_model st1)" by auto
  from Cons.IH [OF r1] b n0 show ?case by (simp add: Let_def)
qed

lemma train_returns:
  assumes "0 < per_device_train_batch_size targs"
    and "0 < gradient_accumulation_steps targs"
    and "per_device_train_batch_size targs dvd length dataset"
    and "dataset \<noteq> []"
    and "pooled_ok E h"
    and "bert_ready h p" and "bert_ready h q"
  shows "\<exists>p' q'. train E targs dataset p q = Inr (p', q') \<and> bert_ready h p' \<and> bert_ready h q'"
proof -
  from run_epochs_ready [OF assms(1,3,4,5),
      of "\<lparr>p_model = p, q_model = q, optimizer = adamw_init E, global_step = 0, train_loss = 0\<rparr>"
         "[0..<num_train_epochs targs]"] assms(6,7)
  obtain st' where "run_epochs E targs dataset
        \<lparr>p_model = p, q_model = q, optimizer = adamw_init E, global_step = 0, train_loss = 0\<rparr>
        [0..<num_train_epochs targs] = Inr st'"
    and "bert_ready h (p_model st')" "bert_ready h (q_model st')" by auto
  then show ?thesis using assms(1,2) by (simp add: train_def train_loop_def)
qed

subsection \<open>The embedding matrix\<close>

lemma embed_contexts_shapes:
  "embed_contexts E enc cs = Inr embs \<Longrightarrow> proj_512 enc \<Longrightarrow>
     length embs = length cs \<and> list_all (\<lambda>t. shape t = [1, 512]) embs"
proof (induction cs arbitrary: embs)
  case Nil
  then show ?case by simp
next
  case (Cons c cs)
  from Cons.prems(1) obtain tok p_emb rest where
    f: "encoder_forward E enc [tok] = Inr p_emb"
    and r: "embed_contexts E enc cs = Inr rest" and e: "embs = p_emb # rest"
    by (auto split: sum.splits)
  from encoder_forward_512 [OF f Cons.prems(2)] Cons.IH [OF r Cons.prems(2)] e
  show ?case by simp
qed

lemma embed_contexts_ready:
  "bert_ready h enc \<Longrightarrow> pooled_ok E h \<Longrightarrow> cuda_error E = None
     \<Longrightarrow> \<exists>embs. embed_contexts E enc cs = Inr embs"
proof (induction cs)
  case Nil
  then show ?case by simp
next
  case (Cons c cs)
  from encoder_forward_ready [OF Cons.prems(1,2), of "[tokenizer E c]"] obtain t where
    "encoder_forward E enc [tokenizer E c] = Inr t" by blast
  with Cons show ?case by (auto simp: to_cuda_def)
qed

lemma np_array_stack:
  assumes "list_all (\<lambda>t. shape t = s) xs"
  shows "\<exists>a. np_array xs = Inr a \<and> shape a = (if xs = [] then [0] else length xs # s)"
  using assms by (cases xs) (auto simp: np_array_def list_all_iff)

lemma stack_squeeze_shape:
  assumes "list_all (\<lambda>t. shape t = [1, 512]) xs"
  shows "\<exists>a. np_array xs = Inr a \<and> shape (np_squeeze a) = squeezed_shape (length xs)"
proof -
  from np_array_stack [OF assms] obtain a where
    a: "np_array xs = Inr a" "shape a = (if xs = [] then [0] else [length xs, 1, 512])" by auto
  then show ?thesis by (auto simp: np_squeeze_def squeezed_shape_def)
qed

lemma bert_ready_proj_512_load:
  assumes "DprRetrieval_load_model E self = Inr (p, q)"
  shows "\<exists>cfg. config_from_pretrained E (r_backbone self) = Inr cfg
          \<and> bert_ready (hidden_size cfg) p \<and> bert_ready (hidden_size cfg) q
          \<and> proj_512 p \<and> proj_512 q"
  using assms
  by (auto simp: DprRetrieval_load_model_def BertEncoder_from_pretrained_def to_cuda_def
        dest!: BertEncoder_init_ready split: sum.splits option.splits)

subsection \<open>Encoders that cannot be constructed\<close>

lemma AutoEncoder_init_result:
  "AutoEncoder_init E draw name cfg
     = (case from_pretrained E name cfg of Inl e \<Rightarrow> Inl e | Inr w \<Rightarrow> Inl AttributeError)"
  by (simp add: AutoEncoder_init_def Module_init_def object_new_def Module_setattr_def
        call_init_weights_def nn_Module_methods_def Let_def split: sum.splits)

lemma KoelectraEncoder_init_result:
  "KoelectraEncoder_init E draw name cfg
     = (case from_pretrained E name cfg of Inl e \<Rightarrow> Inl e | Inr w \<Rightarrow> Inl AttributeError)"
  by (simp add: KoelectraEncoder_init_def object_new_def Module_setattr_def Let_def
        split: sum.splits)

lemma AutoEncoder_init_never: "AutoEncoder_init E draw name cfg \<noteq> Inr m"
  by (simp add: AutoEncoder_init_result split: sum.splits)

lemma KoelectraEncoder_init_never: "KoelectraEncoder_init E draw name cfg \<noteq> Inr m"
  by (simp add: KoelectraEncoder_init_result split: sum.splits)

lemma AutoEncoder_load_model_never: "AutoEncoder_load_model E self \<noteq> Inr r"
  by (simp add: AutoEncoder_load_model_def AutoEncoder_init_never split: sum.splits)

lemma KoelectraEncoder_load_model_never: "KoelectraEncoder_load_model E self \<noteq> Inr r"
  by (simp add: KoelectraEncoder_load_model_def KoelectraEncoder_init_never split: sum.splits)

lemma AutoEncoder_get_encoder_never: "AutoEncoder_get_encoder E self \<noteq> Inr m"
  by (simp add: AutoEncoder_get_encoder_def AutoEncoder_init_never split: sum.splits)

lemma KoelectraEncoder_get_encoder_never: "KoelectraEncoder_get_encoder E self \<noteq> Inr m"
  by (simp add: KoelectraEncoder_get_encoder_def KoelectraEncoder_init_never split: sum.splits)

lemma load_model_returns:
  assumes "load_model E self = Inr (p, q)"
  shows "r_class self = DprRetrieval \<and> DprRetrieval_load_model E self = Inr (p, q)"
  using assms AutoEncoder_load_model_never [of E self "(p, q)"]
    KoelectraEncoder_load_model_never [of E self "(p, q)"]
  by (cases "r_class self") (simp_all add: load_model_def)

lemma bind_InrE:
  assumes "(case x of Inl e \<Rightarrow> Inl e | Inr v \<Rightarrow> f v) = Inr r"
  obtains v where "x = Inr v" and "f v = Inr r"
  using assms by (cases x) auto

lemma lookup_InrE:
  assumes "(case x of None \<Rightarrow> Inl err | Some v \<Rightarrow> f v) = Inr r"
  obtains v where "x = Some v" and "f v = Inr r"
  using assms by (cases x) auto

lemma dense_training_set_load:
  assumes "dense_training_set E self = Inr (encs, ds)"
  shows "load_model E self = Inr encs"
proof -
  from assms [unfolded dense_training_set_def] obtain encs0 where
    l: "load_model E self = Inr encs0" by (rule bind_InrE)
  from assms have "fst (encs, ds) = encs0"
    unfolding dense_training_set_def l
    by (simp split: sum.splits option.splits if_splits add: Let_def)
  with l show ?thesis by simp
qed

lemma exec_embedding_parts:
  assumes "exec_embedding E self = Inr (emb, q_enc)"
  obtains p0 q0 ds p1 embs stacked where
    "dense_training_set E self = Inr ((p0, q0), ds)"
    "load_model E self = Inr (p0, q0)"
    "train E dense_training_arguments ds p0 q0 = Inr (p1, q_enc)"
    "embed_contexts E p1 (r_contexts self) = Inr embs"
    "np_array embs = Inr stacked"
    "emb = np_squeeze stacked"
proof -
  from assms [unfolded exec_embedding_def] obtain x where
    d: "dense_training_set E self = Inr x"
    and r1: "(case x of ((p_encoder, q_encoder), train_dataset) \<Rightarrow>
              case train E dense_training_arguments train_dataset p_encoder q_encoder of
                Inl e \<Rightarrow> Inl e
              | Inr (p_encoder, q_encoder) \<Rightarrow>
                  (case embed_contexts E p_encoder (r_contexts self) of
                     Inl e \<Rightarrow> Inl e
                   | Inr p_embedding \<Rightarrow>
                       (case np_array p_embedding of
                          Inl e \<Rightarrow> Inl e
                        | Inr stacked \<Rightarrow> Inr (np_squeeze stacked, q_encoder)))) = Inr (emb, q_enc)"
    by (rule bind_InrE)
  obtain p0 q0 ds where x: "x = ((p0, q0), ds)" by (cases x) auto
  from r1 [unfolded x, simplified] obtain y where
    t: "train E dense_training_arguments ds p0 q0 = Inr y"
    and r2: "(case y of (p_encoder, q_encoder) \<Rightarrow>
                  (case embed_contexts E p_encoder (r_contexts self) of
                     Inl e \<Rightarrow> Inl e
                   | Inr p_embedding \<Rightarrow>
                       (case np_array p_embedding of
                          Inl e \<Rightarrow> Inl e
                        | Inr stacked \<Rightarrow> Inr (np_squeeze stacked, q_encoder)))) = Inr (emb, q_enc)"
    by (rule bind_InrE)
  obtain p1 q1 where y: "y = (p1, q1)" by (cases y) auto
  from r2 [unfolded y, simplified] obtain embs where
    e: "embed_contexts E p1 (r_contexts self) = Inr embs"
    and r3: "(case np_array embs of
                Inl e \<Rightarrow> Inl e
              | Inr stacked \<Rightarrow> Inr (np_squeeze stacked, q1)) = Inr (emb, q_enc)"
    by (rule bind_InrE)
  from r3 obtain stacked where a: "np_array embs = Inr stacked"
    and r4: "Inr (np_squeeze stacked, q1) = (Inr (emb, q_enc) :: py_error + tensor \<times> 'a module_obj)"
    by (rule bind_InrE)
  from r4 have s: "emb = np_squeeze stacked" and q: "q1 = q_enc" by simp_all
  from dense_training_set_load [OF d [unfolded x]] have l: "load_model E self = Inr (p0, q0)" .
  show ?thesis
    by (rule that [OF d [unfolded x] l t [unfolded y q] e a s])
qed

lemma exec_embedding_shape:
  assumes "exec_embedding E self = Inr (emb, q_enc)"
  shows "shape emb = squeezed_shape (length (r_contexts self))"
proof -
  obtain p0 q0 ds p1 embs stacked where
    d: "dense_training_set E self = Inr ((p0, q0), ds)"
    and l: "load_model E self = Inr (p0, q0)"
    and t: "train E dense_training_arguments ds p0 q0 = Inr (p1, q_enc)"
    and e: "embed_contexts E p1 (r_contexts self) = Inr embs"
    and a: "np_array embs = Inr stacked" and s: "emb = np_squeeze stacked"
    by (rule exec_embedding_parts [OF assms])
  from load_model_returns [OF l] have "DprRetrieval_load_model E self = Inr (p0, q0)" by simp
  from bert_ready_proj_512_load [OF this]
  have "proj_512 p0 \<and> proj_512 q0" by blast
  with train_proj_512 [OF t] have "proj_512 p1" by simp
  from embed_contexts_shapes [OF e this]
  have n: "length embs = length (r_contexts self)"
    and sh: "list_all (\<lambda>t. shape t = [1, 512]) embs" by simp_all
  from stack_squeeze_shape [OF sh] obtain a' where
    "np_array embs = Inr a'" "shape (np_squeeze a') = squeezed_shape (length embs)" by blast
  with a s n show ?thesis by simp
qed

lemma exec_embedding_returns:
  assumes c: "r_class self = DprRetrieval"
    and cfg: "config_from_pretrained E (r_backbone self) = Inr cfg"
    and w: "from_pretrained E (r_backbone self) cfg = Inr w"
    and cuda: "cuda_error E = None"
    and ok: "pooled_ok E (hidden_size cfg)"
    and d1: "load_from_disk E (path_join (train_data_dir (args_path (r_args self)))
                (dense_train_dataset (args_retriever (r_args self)))) = Inr d1"
    and tr: "d1 ''train'' = Some tr" and tr2: "2 \<le> length tr"
    and va: "d1 ''validation'' = Some va"
    and d2: "load_from_disk E (path_join (train_data_dir (args_path (r_args self))) ''kor_dataset'')
                = Inr d2"
    and kt: "d2 ''train'' = Some kt"
    and dv: "16 dvd (length tr + length va + length kt)"
  shows "\<exists>emb q_enc. exec_embedding E self = Inr (emb, q_enc)"
proof -
  let ?h = "hidden_size cfg"
  from BertEncoder_init_succeeds [of cfg w "linear_init E 0 ?h 512"] obtain p0 where
    p0: "BertEncoder_init cfg w (linear_init E 0 ?h 512) = Inr p0" by blast
  from BertEncoder_init_succeeds [of cfg w "linear_init E 1 ?h 512"] obtain q0 where
    q0: "BertEncoder_init cfg w (linear_init E 1 ?h 512) = Inr q0" by blast
  have lm: "load_model E self = Inr (p0, q0)"
    by (simp add: load_model_def c DprRetrieval_load_model_def cfg BertEncoder_from_pretrained_def w p0 q0
          to_cuda_def cuda del: One_nat_def)
  from BertEncoder_init_ready [OF p0] BertEncoder_init_ready [OF q0]
  have rp: "bert_ready ?h p0" and rq: "bert_ready ?h q0" by simp_all
  define ds where "ds = zip (map (\<lambda>ex. tokenizer E (ex_context ex)) ((tr @ va) @ kt))
                 (map (\<lambda>ex. tokenizer E (ex_question ex)) ((tr @ va) @ kt))"
  have dts: "dense_training_set E self = Inr ((p0, q0), ds)"
    using tr2 unfolding ds_def by (simp add: dense_training_set_def lm d1 tr va d2 kt Let_def)
  have len: "length ds = length tr + length va + length kt" by (simp add: ds_def)
  have ne: "ds \<noteq> []" using tr2 len by (metis add_is_0 length_0_conv not_numeral_le_zero)
  have dv': "per_device_train_batch_size dense_training_arguments dvd length ds"
    using dv len by (simp add: dense_training_arguments_def)
  have "\<exists>p' q'. train E dense_training_arguments ds p0 q0 = Inr (p', q')
          \<and> bert_ready ?h p' \<and> bert_ready ?h q'"
    by (rule train_returns [OF _ _ dv' ne ok rp rq])
       (simp_all add: dense_training_arguments_def)
  then obtain p1 q1 where t: "train E dense_training_arguments ds p0 q0 = Inr (p1, q1)"
    and r1: "bert_ready ?h p1" by blast
  from embed_contexts_ready [OF r1 ok cuda] obtain embs where
    e: "embed_contexts E p1 (r_contexts self) = Inr embs" by blast
  have "proj_512 p0 \<and> proj_512 q0"
    using BertEncoder_init_ready [OF p0] BertEncoder_init_ready [OF q0] by simp
  with train_proj_512 [OF t] have "proj_512 p1" by simp
  from embed_contexts_shapes [OF e this] have "list_all (\<lambda>t. shape t = [1, 512]) embs" by simp
  from stack_squeeze_shape [OF this] obtain a where a: "np_array embs = Inr a" by blast
  show ?thesis by (simp add: exec_embedding_def dts t e a)
qed

lemma demo_exec_embedding_returns:
  assumes "r_class self = DprRetrieval" and "r_args self = demo_args"
    and "r_backbone self = class_backbone DprRetrieval"
  shows "\<exists>emb q_enc. exec_embedding demo_env self = Inr (emb, q_enc)"
proof (rule exec_embedding_returns [OF assms(1)])
  show "config_from_pretrained demo_env (r_backbone self) = Inr \<lparr>hidden_size = 768\<rparr>"
    by (simp add: demo_env_def hub_models_def assms(3))
  show "from_pretrained demo_env (r_backbone self) \<lparr>hidden_size = 768\<rparr> = Inr ()"
    by (simp add: demo_env_def hub_models_def assms(3))
  show "cuda_error demo_env = None" by (simp add: demo_env_def)
  show "pooled_ok demo_env (hidden_size \<lparr>hidden_size = 768\<rparr>)"
    by (simp add: pooled_ok_def demo_env_def)
  show "load_from_disk demo_env (path_join (train_data_dir (args_path (r_args self)))
           (dense_train_dataset (args_retriever (r_args self))))
        = Inr [''train'' \<mapsto> replicate 12 demo_example, ''validation'' \<mapsto> replicate 2 demo_example]"
    by (simp add: assms(2) demo_args_def path_join_def demo_env_def)
  show "[''train'' \<mapsto> replicate 12 demo_example, ''validation'' \<mapsto> replicate 2 demo_example] ''train''
        = Some (replicate 12 demo_example)" by simp
  show "2 \<le> length (replicate 12 demo_example)" by simp
  show "[''train'' \<mapsto> replicate 12 demo_example, ''validation'' \<mapsto> replicate 2 demo_example] ''validation''
        = Some (replicate 2 demo_example)" by simp
  show "load_from_disk demo_env (path_join (train_data_dir (args_path (r_args self))) ''kor_dataset'')
        = Inr [''train'' \<mapsto> replicate 2 demo_example]"
    by (simp add: assms(2) demo_args_def path_join_def demo_env_def)
  show "[''train'' \<mapsto> replicate 2 demo_example] ''train'' = Some (replicate 2 demo_example)"
    by simp
  show "16 dvd length (replicate 12 demo_example) + length (replicate 2 demo_example)
          + length (replicate 2 demo_example)" by simp
qed

lemma train_not_multiple:
  assumes "0 < num_train_epochs targs"
    and "\<not> per_device_train_batch_size targs dvd length dataset"
  shows "\<exists>e. train E targs dataset p q = Inl e"
proof (cases "train E targs dataset p q")
  case (Inl e)
  then show ?thesis by blast
next
  case (Inr r)
  from train_requires_multiple [OF Inr assms(1)] assms(2) show ?thesis by simp
qed

lemma demo_encoder_ready: "bert_ready 768 demo_encoder"
  by (simp add: bert_ready_def demo_encoder_def nn_Linear_def)

lemma demo_pooled_ok: "pooled_ok demo_env 768"
  by (simp add: pooled_ok_def demo_env_def)

lemma train_step_models:
  assumes "train_step E targs st b = Inr st'"
  shows "p_model st' = write_parameters (p_model st)
                         (snd (adamw_step E (optimizer st) (p_model st, q_model st) b) True)
       \<and> q_model st' = write_parameters (q_model st)
                         (snd (adamw_step E (optimizer st) (p_model st, q_model st) b) False)"
  using assms
  by (auto simp: train_step_def Let_def split: sum.splits prod.splits)

lemma demo_step_trained:
  assumes "train_step demo_env targs st b = Inr st'" and "bert_ready h (q_model st)"
  shows "bias_one (q_model st') \<and> bert_ready h (q_model st')"
proof -
  from train_step_models [OF assms(1)]
  have q: "q_model st' = write_parameters (q_model st)
             (\<lambda>name. if name = ''bert_proj'' then LinearValues (\<lambda>i j. 1) (\<lambda>i. 1)
                      else BackboneValues ())"
    by (simp add: demo_env_def)
  from assms(2) obtain L where "m_modules (q_model st) ''bert_proj'' = Some (Linear L)"
    unfolding bert_ready_def by blast
  then have "bias_one (q_model st')"
    unfolding q by (simp add: bias_one_def write_parameters_def set_values_def)
  moreover have "bert_ready h (q_model st')"
    unfolding q by (rule write_parameters_bert_ready [OF assms(2)])
  ultimately show ?thesis by simp
qed

lemma demo_batches_trained:
  "run_batches demo_env targs st batches = Inr st' \<Longrightarrow> bert_ready h (q_model st)
     \<Longrightarrow> batches \<noteq> [] \<or> bias_one (q_model st)
     \<Longrightarrow> bias_one (q_model st') \<and> bert_ready h (q_model st')"
proof (induction batches arbitrary: st)
  case Nil
  then show ?case by simp
next
  case (Cons b batches)
  from Cons.prems(1) obtain st1 where
    s1: "train_step demo_env targs st b = Inr st1"
    and r: "run_batches demo_env targs st1 batches = Inr st'"
    by (auto split: sum.splits)
  from demo_step_trained [OF s1 Cons.prems(2)]
  have "bias_one (q_model st1)" "bert_ready h (q_model st1)" by simp_all
  with Cons.IH [OF r] show ?case by simp
qed

lemma demo_epochs_trained:
  "run_epochs demo_env targs ds st epochs = Inr st' \<Longrightarrow> bert_ready h (q_model st)
     \<Longrightarrow> epochs \<noteq> [] \<or> bias_one (q_model st)
     \<Longrightarrow> bias_one (q_model st')"
proof (induction epochs arbitrary: st)
  case Nil
  then show ?case by simp
next
  case (Cons epoch epochs)
  let ?bs = "DataLoader_batches demo_env targs ds epoch"
  from Cons.prems(1) obtain st1 where
    b: "run_batches demo_env targs (st\<lparr>train_loss := 0\<rparr>) ?bs = Inr st1"
    and ne: "?bs \<noteq> []"
    and r: "run_epochs demo_env targs ds st1 epochs = Inr st'"
    by (auto simp: Let_def split: sum.splits if_splits)
  from demo_batches_trained [OF b, of h] Cons.prems(2) ne
  have "bias_one (q_model st1)" "bert_ready h (q_model st1)" by simp_all
  with Cons.IH [OF r] show ?case by simp
qed

lemma demo_train_loop_trained:
  assumes "train_loop demo_env targs ds p q = Inr st" and "bert_ready h q"
    and "0 < num_train_epochs targs"
  shows "bias_one (q_model st)"
proof -
  from assms(1) have r: "run_epochs demo_env targs ds
             \<lparr>p_model = p, q_model = q, optimizer = adamw_init demo_env,
              global_step = 0, train_loss = 0\<rparr>
             [0..<num_train_epochs targs] = Inr st"
    by (auto simp: train_loop_def split: if_splits)
  have "[0..<num_train_epochs targs] \<noteq> []" using assms(3) by simp
  with demo_epochs_trained [OF r, of h] assms(2) show ?thesis by simp
qed

lemma exec_embedding_training_run:
  assumes "exec_embedding E self = Inr (emb, q_enc)"
  shows "\<exists>p0 q0 ds st.
           dense_training_set E self = Inr ((p0, q0), ds)
         \<and> load_model E self = Inr (p0, q0)
         \<and> train_loop E dense_training_arguments ds p0 q0 = Inr st
         \<and> 16 dvd length ds \<and> 16 \<le> length ds
         \<and> global_step st * 16 = 10 * length ds \<and> 10 \<le> global_step st
         \<and> q_enc = q_model st
         \<and> (\<exists>embs stacked. embed_contexts E (p_model st) (r_contexts self) = Inr embs
               \<and> np_array embs = Inr stacked \<and> emb = np_squeeze stacked)"
proof -
  obtain p0 q0 ds p1 embs stacked where
    d: "dense_training_set E self = Inr ((p0, q0), ds)"
    and l: "load_model E self = Inr (p0, q0)"
    and t: "train E dense_training_arguments ds p0 q0 = Inr (p1, q_enc)"
    and e: "embed_contexts E p1 (r_contexts self) = Inr embs"
    and a: "np_array embs = Inr stacked" and s: "emb = np_squeeze stacked"
    by (rule exec_embedding_parts [OF assms])
  from t obtain st where tl: "train_loop E dense_training_arguments ds p0 q0 = Inr st"
    and pq: "p1 = p_model st" "q_enc = q_model st"
    by (auto simp: train_def split: sum.splits)
  from train_loop_steps [OF tl]
  have g: "global_step st * 16 = 10 * length ds" and ne: "ds \<noteq> []" and dv: "16 dvd length ds"
    by (simp_all add: dense_training_arguments_def)
  from ne dv have le: "16 \<le> length ds" by (auto dest: dvd_imp_le)
  with g have gs: "10 \<le> global_step st" by simp
  show ?thesis using d l tl dv le g gs pq e a s by blast
qed

lemma demo_exec_embedding_changes_encoder:
  "\<exists>emb q_enc p0 q0 ds st.
       exec_embedding demo_env corpus_of_three = Inr (emb, q_enc)
     \<and> load_model demo_env corpus_of_three = Inr (p0, q0)
     \<and> dense_training_set demo_env corpus_of_three = Inr ((p0, q0), ds)
     \<and> train_loop demo_env dense_training_arguments ds p0 q0 = Inr st
     \<and> 10 \<le> global_step st
     \<and> q_enc = q_model st
     \<and> q_enc \<noteq> q0"
proof -
  from demo_exec_embedding_returns [of corpus_of_three] obtain emb q_enc where
    r: "exec_embedding demo_env corpus_of_three = Inr (emb, q_enc)"
    by (auto simp: corpus_of_three_def)
  from exec_embedding_training_run [OF r] obtain p0 q0 ds st where
    l: "load_model demo_env corpus_of_three = Inr (p0, q0)"
    and d: "dense_training_set demo_env corpus_of_three = Inr ((p0, q0), ds)"
    and tl: "train_loop demo_env dense_training_arguments ds p0 q0 = Inr st"
    and gs: "10 \<le> global_step st" and q: "q_enc = q_model st"
    by blast
  from load_model_returns [OF l]
  have dl: "DprRetrieval_load_model demo_env corpus_of_three = Inr (p0, q0)" by simp
  from bert_ready_proj_512_load [OF dl] obtain cfg :: config where rq: "bert_ready (hidden_size cfg) q0"
    by blast
  have ep: "0 < num_train_epochs dense_training_arguments"
    by (simp add: dense_training_arguments_def)
  from demo_train_loop_trained [OF tl rq ep] have b1: "bias_one (q_model st)" .
  from dl have "q0 = \<lparr>m_class = BertEncoder, m_initialized = True,
      m_modules = [''bert'' \<mapsto> Backbone (),
                   ''bert_proj'' \<mapsto> Linear (nn_Linear 768 512 (\<lambda>i j. 0, \<lambda>i. 0))]\<rparr>"
    by (auto simp: DprRetrieval_load_model_def demo_env_def hub_models_def corpus_of_three_def
          BertEncoder_from_pretrained_def
          BertEncoder_init_def Module_init_def object_new_def Module_setattr_def
          call_init_weights_def to_cuda_def Let_def PreTrainedModel_methods_def
          split: sum.splits if_splits)
  then have "\<not> bias_one q0" by (simp add: bias_one_def nn_Linear_def)
  with b1 q have "q_enc \<noteq> q0" by auto
  with r l d tl gs q show ?thesis by blast
qed

text \<open>
  C1 at a corpus of one passage. \<^verbatim>\<open>_exec_embedding\<close> returns, and the array it
  returns has shape \<open>(512,)\<close>: \<^verbatim>\<open>squeeze()\<close> has removed the corpus dimension
  together with the batch dimension, so the length of the matrix is 512, not the corpus
  size 1.
\<close>

theorem exec_embedding_one_passage:
  "\<not> isl (exec_embedding demo_env corpus_of_one)
   \<and> length (r_contexts corpus_of_one) = 1
   \<and> shape (fst (projr (exec_embedding demo_env corpus_of_one))) = [512]
   \<and> np_len (fst (projr (exec_embedding demo_env corpus_of_one))) = Inr 512"
proof -
  from demo_exec_embedding_returns [of corpus_of_one] obtain emb q_enc where
    r: "exec_embedding demo_env corpus_of_one = Inr (emb, q_enc)"
    by (auto simp: corpus_of_one_def)
  from exec_embedding_shape [OF r] have "shape emb = [512]"
    by (simp add: corpus_of_one_def squeezed_shape_def)
  with r show ?thesis by (simp add: corpus_of_one_def np_len_def)
qed

text \<open>
  C7. The similarity of a batch is the plain dot product: for query outputs of shape
  \<open>(n_q, d)\<close> and passage outputs of shape \<open>(n_p, d)\<close>, line 134 returns the
  \<open>(n_q, n_p)\<close> matrix whose entry \<open>(i, j)\<close> is the sum over \<open>k\<close> of
  \<open>q[i, k] * p[j, k]\<close>; neither side is normalised.
\<close>

theorem sim_scores_dot_product:
  assumes "shape q_outputs = [n_q, d]" and "shape p_outputs = [n_p, d]"
  shows "\<exists>scores. sim_scores q_outputs p_outputs = Inr scores
      \<and> shape scores = [n_q, n_p]
      \<and> (\<forall>i j. entry scores [i, j]
              = (\<Sum>k\<leftarrow>[0..<d]. entry q_outputs [i, k] * entry p_outputs [j, k]))"
proof -
  let ?p_t = "\<lparr>shape = [d, n_p],
               entry = (\<lambda>idx. case idx of i # j # rest \<Rightarrow> entry p_outputs (j # i # rest)
                                | _ \<Rightarrow> 0)\<rparr>"
  have t: "torch_transpose01 p_outputs = Inr ?p_t"
    using assms(2) by (simp add: torch_transpose01_def)
  let ?s = "\<lparr>shape = [n_q, n_p],
             entry = (\<lambda>idx. case idx of
                        [i, j] \<Rightarrow> (\<Sum>l\<leftarrow>[0..<d]. entry q_outputs [i, l] * entry p_outputs [j, l])
                      | _ \<Rightarrow> 0)\<rparr>"
  have m: "torch_matmul q_outputs ?p_t = Inr ?s"
    using assms(1) by (simp add: torch_matmul_def)
  have s: "sim_scores q_outputs p_outputs = Inr ?s"
    by (simp add: sim_scores_def t m)
  have e: "entry ?s [i, j] = (\<Sum>k\<leftarrow>[0..<d]. entry q_outputs [i, k] * entry p_outputs [j, k])"
    for i j by simp
  from s e show ?thesis by simp
qed

theorem sim_scores_dot_product_witness:
  "shape q_twos = [1, 2] \<and> shape p_threes = [1, 2]
   \<and> (\<exists>scores. sim_scores q_twos p_threes = Inr scores \<and> shape scores = [1, 1]
          \<and> entry scores [0, 0] = 12)"
proof -
  have q: "shape q_twos = [1, 2]" and p: "shape p_threes = [1, 2]"
    by (simp_all add: q_twos_def p_threes_def)
  from sim_scores_dot_product [OF q p] obtain scores where
    s: "sim_scores q_twos p_threes = Inr scores" "shape scores = [1, 1]"
    and e: "\<forall>i j. entry scores [i, j]
              = (\<Sum>k\<leftarrow>[0..<2]. entry q_twos [i, k] * entry p_threes [j, k])"
    by blast
  have "[0..<2] = [0, Suc 0]" by (simp add: upt_rec)
  with e have "entry scores [0, 0] = 12" by (simp add: q_twos_def p_threes_def)
  with q p s show ?thesis by blast
qed

text \<open>
  C8. Constructing an \<^verbatim>\<open>AutoEncoder\<close> or a \<^verbatim>\<open>KoelectraEncoder\<close> never returns: when
  \<^verbatim>\<open>AutoModel.from_pretrained\<close> returns a backbone the constructor raises
  \<^verbatim>\<open>AttributeError\<close> (for \<^verbatim>\<open>AutoEncoder\<close> at \<^verbatim>\<open>self.init_weights()\<close>, after both
  assignments; for \<^verbatim>\<open>KoelectraEncoder\<close> already at the first assignment), and otherwise
  it raises the error of \<^verbatim>\<open>from_pretrained\<close>. So \<^verbatim>\<open>_load_model\<close> and
  \<^verbatim>\<open>_get_encoder\<close> of the three subclasses never return normally.
\<close>

theorem encoders_never_constructed:
  "AutoEncoder_init E draw model_name cfg
     = (case from_pretrained E model_name cfg of Inl e \<Rightarrow> Inl e | Inr w \<Rightarrow> Inl AttributeError)
   \<and> KoelectraEncoder_init E draw model_name cfg
     = (case from_pretrained E model_name cfg of Inl e \<Rightarrow> Inl e | Inr w \<Rightarrow> Inl AttributeError)
   \<and> (\<forall>w. (\<exists>m. Module_setattr (Module_init (object_new AutoEncoder)) ''backbone'' (Backbone w)
                  = Inr m)
          \<and> Module_setattr (object_new KoelectraEncoder) ''backbone'' (Backbone w)
              = Inl AttributeError)
   \<and> (\<forall>r. AutoEncoder_load_model E self \<noteq> Inr r \<and> KoelectraEncoder_load_model E self \<noteq> Inr r)
   \<and> (\<forall>m. AutoEncoder_get_encoder E self \<noteq> Inr m \<and> KoelectraEncoder_get_encoder E self \<noteq> Inr m)
   \<and> (r_class self \<noteq> DprRetrieval \<longrightarrow>
         (\<forall>r. load_model E self \<noteq> Inr r) \<and> (\<forall>m. subclass_get_encoder E self \<noteq> Some (Inr m)))"
proof -
  have a: "\<forall>w. (\<exists>m. Module_setattr (Module_init (object_new AutoEncoder)) ''backbone'' (Backbone w)
                  = Inr m)
          \<and> Module_setattr (object_new KoelectraEncoder) ''backbone'' (Backbone w)
              = Inl AttributeError"
    by (simp add: Module_setattr_def Module_init_def object_new_def)
  have b: "\<forall>r. AutoEncoder_load_model E self \<noteq> Inr r \<and> KoelectraEncoder_load_model E self \<noteq> Inr r"
    by (simp add: AutoEncoder_load_model_never KoelectraEncoder_load_model_never)
  have c: "\<forall>m. AutoEncoder_get_encoder E self \<noteq> Inr m \<and> KoelectraEncoder_get_encoder E self \<noteq> Inr m"
    by (simp add: AutoEncoder_get_encoder_never KoelectraEncoder_get_encoder_never)
  have d: "r_class self \<noteq> DprRetrieval \<longrightarrow>
         (\<forall>r. load_model E self \<noteq> Inr r) \<and> (\<forall>m. subclass_get_encoder E self \<noteq> Some (Inr m))"
    using b c by (cases "r_class self") (simp_all add: load_model_def subclass_get_encoder_def)
  show ?thesis
    using AutoEncoder_init_result [of E draw model_name cfg]
      KoelectraEncoder_init_result [of E draw model_name cfg] a b c d
    by (intro conjI)
qed

theorem encoders_never_constructed_witness:
  "r_class kobert_instance \<noteq> DprRetrieval
   \<and> from_pretrained demo_env (r_backbone kobert_instance) \<lparr>hidden_size = 768\<rparr> = Inr ()
   \<and> AutoEncoder_init demo_env 0 (r_backbone kobert_instance) \<lparr>hidden_size = 768\<rparr>
        = Inl AttributeError
   \<and> KoelectraEncoder_init demo_env 0 (r_backbone kobert_instance) \<lparr>hidden_size = 768\<rparr>
        = Inl AttributeError
   \<and> load_model demo_env kobert_instance = Inl AttributeError
   \<and> subclass_get_encoder demo_env kobert_instance = Some (Inl AttributeError)"
proof -
  note th = encoders_never_constructed
    [of demo_env 0 "r_backbone kobert_instance" "\<lparr>hidden_size = 768\<rparr>" kobert_instance]
  have c: "r_class kobert_instance \<noteq> DprRetrieval" by (simp add: kobert_instance_def)
  have f: "from_pretrained demo_env (r_backbone kobert_instance) \<lparr>hidden_size = 768\<rparr> = Inr ()"
    by (simp add: demo_env_def hub_models_def kobert_instance_def)
  from th have a: "AutoEncoder_init demo_env 0 (r_backbone kobert_instance) \<lparr>hidden_size = 768\<rparr>
        = Inl AttributeError"
    unfolding f by - (elim conjE, simp)
  from th have k: "KoelectraEncoder_init demo_env 0 (r_backbone kobert_instance) \<lparr>hidden_size = 768\<rparr>
        = Inl AttributeError"
    unfolding f by - (elim conjE, simp)
  have cf: "config_from_pretrained demo_env (r_backbone kobert_instance) = Inr \<lparr>hidden_size = 768\<rparr>"
    by (simp add: demo_env_def hub_models_def kobert_instance_def)
  have rc: "r_class kobert_instance = DprKobertRetrieval" by (simp add: kobert_instance_def)
  have l: "load_model demo_env kobert_instance = Inl AttributeError"
    by (simp add: load_model_def rc AutoEncoder_load_model_def cf a)
  have g: "subclass_get_encoder demo_env kobert_instance = Some (Inl AttributeError)"
    by (simp add: subclass_get_encoder_def rc AutoEncoder_get_encoder_def cf a)
  show ?thesis using c f a k l g by simp
qed

text \<open>
  A model name that the loader does not know: \<^verbatim>\<open>AutoEncoder(...)\<close> raises the loader's
  error on line 53, not \<^verbatim>\<open>AttributeError\<close>.
\<close>

theorem AutoEncoder_init_unknown_model:
  "AutoEncoder_init demo_env 0 ''no-such-model'' \<lparr>hidden_size = 768\<rparr> = Inl OSError
   \<and> AutoEncoder_init demo_env 0 ''no-such-model'' \<lparr>hidden_size = 768\<rparr>
        \<noteq> Inl AttributeError"
  by (simp add: AutoEncoder_init_result demo_env_def hub_models_def)

text \<open>
  C9. The targets of a training step are \<^verbatim>\<open>arange(0, per_device_train_batch_size)\<close>
  whatever the batch. A step returns only on a batch of exactly
  \<^verbatim>\<open>per_device_train_batch_size\<close> examples (then every target is a valid index of the
  batch's similarity matrix); so with at least one epoch \<^verbatim>\<open>train\<close> returns only when the
  batch size divides the number of examples, and raises when it does not (the last batch of
  the epoch is partial).
\<close>

theorem train_needs_full_batches:
  "(\<forall>st batch st'. train_step E targs st batch = Inr st' \<longrightarrow>
        length batch = per_device_train_batch_size targs
      \<and> list_all (\<lambda>t. t < length batch) (step_targets targs))
   \<and> step_targets targs = [0..<per_device_train_batch_size targs]
   \<and> (\<forall>p q r. 0 < num_train_epochs targs \<and> train E targs dataset p q = Inr r \<longrightarrow>
          per_device_train_batch_size targs dvd length dataset)
   \<and> (\<forall>p q. 0 < num_train_epochs targs
          \<and> \<not> per_device_train_batch_size targs dvd length dataset \<longrightarrow>
          (\<exists>e. train E targs dataset p q = Inl e))"
proof -
  have a: "\<forall>st batch st'. train_step E targs st batch = Inr st' \<longrightarrow>
        length batch = per_device_train_batch_size targs
      \<and> list_all (\<lambda>t. t < length batch) (step_targets targs)"
  proof (intro allI impI)
    fix st batch st'
    assume "train_step E targs st batch = Inr st'"
    from train_step_batch_size [OF this]
    show "length batch = per_device_train_batch_size targs
      \<and> list_all (\<lambda>t. t < length batch) (step_targets targs)"
      by (simp add: step_targets_def torch_arange_def list_all_iff)
  qed
  have b: "step_targets targs = [0..<per_device_train_batch_size targs]"
    by (simp add: step_targets_def torch_arange_def)
  have c: "\<forall>p q r. 0 < num_train_epochs targs \<and> train E targs dataset p q = Inr r \<longrightarrow>
          per_device_train_batch_size targs dvd length dataset"
    using train_requires_multiple by blast
  have d: "\<forall>p q. 0 < num_train_epochs targs
          \<and> \<not> per_device_train_batch_size targs dvd length dataset \<longrightarrow>
          (\<exists>e. train E targs dataset p q = Inl e)"
    using train_not_multiple by blast
  show ?thesis using a b c d by (intro conjI)
qed

theorem train_needs_full_batches_witness:
  "(\<exists>st'. train_step demo_env dense_training_arguments demo_state (demo_pairs 16) = Inr st')
   \<and> length (demo_pairs 16) = per_device_train_batch_size dense_training_arguments
   \<and> 0 < num_train_epochs dense_training_arguments
   \<and> (\<exists>r. train demo_env dense_training_arguments (demo_pairs 32) demo_encoder demo_encoder = Inr r)
   \<and> per_device_train_batch_size dense_training_arguments dvd length (demo_pairs 32)
   \<and> \<not> per_device_train_batch_size dense_training_arguments dvd length (demo_pairs 20)
   \<and> (\<exists>e. train demo_env dense_training_arguments (demo_pairs 20) demo_encoder demo_encoder = Inl e)"
proof -
  note th = train_needs_full_batches [of demo_env dense_training_arguments]
  have bs: "per_device_train_batch_size dense_training_arguments = 16"
    and ep: "0 < num_train_epochs dense_training_arguments"
    and ga: "0 < gradient_accumulation_steps dense_training_arguments"
    by (simp_all add: dense_training_arguments_def)
  have l16: "length (demo_pairs 16) = per_device_train_batch_size dense_training_arguments"
    by (simp add: demo_pairs_def bs)
  have rp: "bert_ready 768 (p_model demo_state)" and rq: "bert_ready 768 (q_model demo_state)"
    by (simp_all add: demo_state_def demo_encoder_ready)
  from train_step_ready [OF rp rq demo_pooled_ok l16]
  obtain st' where s: "train_step demo_env dense_training_arguments demo_state (demo_pairs 16) = Inr st'"
    by blast
  have d32: "per_device_train_batch_size dense_training_arguments dvd length (demo_pairs 32)"
    by (simp add: demo_pairs_def bs)
  have ne: "demo_pairs 32 \<noteq> []" by (simp add: demo_pairs_def)
  from train_returns [OF _ ga d32 ne demo_pooled_ok demo_encoder_ready demo_encoder_ready] bs
  obtain r where t: "train demo_env dense_training_arguments (demo_pairs 32) demo_encoder demo_encoder = Inr r"
    by auto
  have n20: "\<not> per_device_train_batch_size dense_training_arguments dvd length (demo_pairs 20)"
    by (simp add: demo_pairs_def bs)
  from th [of "demo_pairs 20"] ep n20
  have f: "\<exists>e. train demo_env dense_training_arguments (demo_pairs 20) demo_encoder demo_encoder = Inl e"
    by blast
  from th [of "demo_pairs 16"] s have "length (demo_pairs 16) = per_device_train_batch_size dense_training_arguments"
    by blast
  moreover from th [of "demo_pairs 32"] ep t
  have "per_device_train_batch_size dense_training_arguments dvd length (demo_pairs 32)" by blast
  ultimately show ?thesis using s ep t n20 f by blast
qed

text \<open>
  C3, as the code has it. Whenever \<^verbatim>\<open>_exec_embedding\<close> returns, it has trained both
  encoders itself: it ran \<^verbatim>\<open>train\<close> on the assembled training set for 10 epochs of
  batches of 16, that is \<open>10 * (n div 16)\<close> optimizer steps on the in-batch negative
  log-likelihood loss, at least 10; the passages are embedded with the passage encoder as
  trained, and the question encoder it returns is the trained one.
\<close>

theorem exec_embedding_trains:
  assumes "exec_embedding E self = Inr (emb, q_enc)"
  shows "\<exists>p0 q0 ds st.
           dense_training_set E self = Inr ((p0, q0), ds)
         \<and> load_model E self = Inr (p0, q0)
         \<and> train_loop E dense_training_arguments ds p0 q0 = Inr st
         \<and> 16 dvd length ds \<and> 16 \<le> length ds
         \<and> global_step st * 16 = 10 * length ds \<and> 10 \<le> global_step st
         \<and> q_enc = q_model st
         \<and> (\<exists>embs stacked. embed_contexts E (p_model st) (r_contexts self) = Inr embs
               \<and> np_array embs = Inr stacked \<and> emb = np_squeeze stacked)"
proof -
  obtain p0 q0 ds p1 embs stacked where
    d: "dense_training_set E self = Inr ((p0, q0), ds)"
    and l: "load_model E self = Inr (p0, q0)"
    and t: "train E dense_training_arguments ds p0 q0 = Inr (p1, q_enc)"
    and e: "embed_contexts E p1 (r_contexts self) = Inr embs"
    and a: "np_array embs = Inr stacked" and s: "emb = np_squeeze stacked"
    by (rule exec_embedding_parts [OF assms])
  from t obtain st where tl: "train_loop E dense_training_arguments ds p0 q0 = Inr st"
    and pq: "p1 = p_model st" "q_enc = q_model st"
    by (auto simp: train_def split: sum.splits)
  from train_loop_steps [OF tl]
  have g: "global_step st * 16 = 10 * length ds" and ne: "ds \<noteq> []" and dv: "16 dvd length ds"
    by (simp_all add: dense_training_arguments_def)
  from ne dv have le: "16 \<le> length ds" by (auto dest: dvd_imp_le)
  with g have gs: "10 \<le> global_step st" by simp
  show ?thesis using d l tl dv le g gs pq e a s by blast
qed

theorem exec_embedding_trains_witness:
  "\<exists>emb q_enc p0 q0 ds st.
       exec_embedding demo_env corpus_of_three = Inr (emb, q_enc)
     \<and> dense_training_set demo_env corpus_of_three = Inr ((p0, q0), ds)
     \<and> train_loop demo_env dense_training_arguments ds p0 q0 = Inr st
     \<and> length ds = 16 \<and> global_step st = 10 \<and> q_enc = q_model st"
proof -
  from demo_exec_embedding_returns [of corpus_of_three] obtain emb q_enc where
    r: "exec_embedding demo_env corpus_of_three = Inr (emb, q_enc)"
    by (auto simp: corpus_of_three_def)
  from exec_embedding_trains [OF r] obtain p0 q0 ds st where
    d: "dense_training_set demo_env corpus_of_three = Inr ((p0, q0), ds)"
    and tl: "train_loop demo_env dense_training_arguments ds p0 q0 = Inr st"
    and g: "global_step st * 16 = 10 * length ds" and q: "q_enc = q_model st"
    by blast
  have lm: "\<exists>encs. load_model demo_env corpus_of_three = Inr encs"
    using dense_training_set_load [OF d] by blast
  from d have "length ds = 16"
    by (auto simp: dense_training_set_def demo_env_def corpus_of_three_def demo_args_def
          path_join_def Let_def split: sum.splits)
  with g have "global_step st = 10" by simp
  with r d tl q \<open>length ds = 16\<close> show ?thesis by blast
qed

text \<open>
  On the demonstration input \<^verbatim>\<open>_exec_embedding\<close> returns; its training loop has made 10
  optimizer steps, and the question encoder it returns differs from the one
  \<^verbatim>\<open>_load_model\<close> gave it.
\<close>

theorem exec_embedding_changes_encoder:
  "\<not> isl (exec_embedding demo_env corpus_of_three)
   \<and> \<not> isl (load_model demo_env corpus_of_three)
   \<and> snd (projr (exec_embedding demo_env corpus_of_three))
        \<noteq> snd (projr (load_model demo_env corpus_of_three))
   \<and> 10 \<le> global_step (projr (train_loop demo_env dense_training_arguments
              (snd (projr (dense_training_set demo_env corpus_of_three)))
              (fst (projr (load_model demo_env corpus_of_three)))
              (snd (projr (load_model demo_env corpus_of_three)))))"
proof -
  from demo_exec_embedding_changes_encoder obtain emb q_enc p0 q0 ds st where
    r: "exec_embedding demo_env corpus_of_three = Inr (emb, q_enc)"
    and l: "load_model demo_env corpus_of_three = Inr (p0, q0)"
    and d: "dense_training_set demo_env corpus_of_three = Inr ((p0, q0), ds)"
    and tl: "train_loop demo_env dense_training_arguments ds p0 q0 = Inr st"
    and gs: "10 \<le> global_step st" and ne: "q_enc \<noteq> q0"
    by blast
  show ?thesis by (simp add: r l d tl gs ne)
qed

text \<open>
  X1. For a corpus of two or more passages, the array \<^verbatim>\<open>_exec_embedding\<close> returns has
  shape \<open>(N, 512)\<close> with \<open>N\<close> the number of passages: one row of 512 entries per passage.
\<close>

theorem exec_embedding_matrix_shape:
  assumes "exec_embedding E self = Inr (emb, q_enc)" and "2 \<le> length (r_contexts self)"
  shows "shape emb = [length (r_contexts self), 512]
       \<and> np_len emb = Inr (length (r_contexts self))"
proof -
  from assms(2) have "length (r_contexts self) \<noteq> 0" "length (r_contexts self) \<noteq> 1"
    by linarith+
  with exec_embedding_shape [OF assms(1)]
  have "shape emb = [length (r_contexts self), 512]"
    unfolding squeezed_shape_def by simp
  then show ?thesis by (simp add: np_len_def)
qed

theorem exec_embedding_matrix_shape_witness:
  "\<not> isl (exec_embedding demo_env corpus_of_three)
   \<and> 2 \<le> length (r_contexts corpus_of_three)
   \<and> shape (fst (projr (exec_embedding demo_env corpus_of_three))) = [3, 512]
   \<and> np_len (fst (projr (exec_embedding demo_env corpus_of_three))) = Inr 3"
proof -
  from demo_exec_embedding_returns [of corpus_of_three] obtain emb q_enc where
    r: "exec_embedding demo_env corpus_of_three = Inr (emb, q_enc)"
    by (auto simp: corpus_of_three_def)
  have n: "2 \<le> length (r_contexts corpus_of_three)" by (simp add: corpus_of_three_def)
  from exec_embedding_matrix_shape [OF r n] r n show ?thesis
    by (simp add: corpus_of_three_def)
qed

text \<open>
  X2. \<^verbatim>\<open>_exec_embedding\<close> of a \<^verbatim>\<open>DprRetrieval\<close> returns whenever the configuration and
  the checkpoint load, CUDA calls succeed, the backbone's pooled output has
  \<^verbatim>\<open>hidden_size\<close> entries, both datasets load with the splits the code reads, the train
  split has at least two examples, and the number of assembled training examples is a
  multiple of 16.
\<close>

theorem exec_embedding_returns_when_inputs_fit:
  assumes "r_class self = DprRetrieval"
    and "config_from_pretrained E (r_backbone self) = Inr cfg"
    and "from_pretrained E (r_backbone self) cfg = Inr w"
    and "cuda_error E = None"
    and "pooled_ok E (hidden_size cfg)"
    and "load_from_disk E (path_join (train_data_dir (args_path (r_args self)))
                (dense_train_dataset (args_retriever (r_args self)))) = Inr d1"
    and "d1 ''train'' = Some tr" and "2 \<le> length tr"
    and "d1 ''validation'' = Some va"
    and "load_from_disk E (path_join (train_data_dir (args_path (r_args self))) ''kor_dataset'')
                = Inr d2"
    and "d2 ''train'' = Some kt"
    and "16 dvd (length tr + length va + length kt)"
  shows "\<exists>emb q_enc. exec_embedding E self = Inr (emb, q_enc)"
  using assms by (rule exec_embedding_returns)

theorem exec_embedding_returns_when_inputs_fit_witness:
  "r_class corpus_of_three = DprRetrieval
   \<and> config_from_pretrained demo_env (r_backbone corpus_of_three) = Inr \<lparr>hidden_size = 768\<rparr>
   \<and> from_pretrained demo_env (r_backbone corpus_of_three) \<lparr>hidden_size = 768\<rparr> = Inr ()
   \<and> cuda_error demo_env = None
   \<and> pooled_ok demo_env 768
   \<and> load_from_disk demo_env ''data/train_dataset''
        = Inr [''train'' \<mapsto> replicate 12 demo_example, ''validation'' \<mapsto> replicate 2 demo_example]
   \<and> load_from_disk demo_env ''data/kor_dataset'' = Inr [''train'' \<mapsto> replicate 2 demo_example]
   \<and> (16::nat) dvd 12 + 2 + 2
   \<and> \<not> isl (exec_embedding demo_env corpus_of_three)"
proof -
  have c: "r_class corpus_of_three = DprRetrieval" by (simp add: corpus_of_three_def)
  have cf: "config_from_pretrained demo_env (r_backbone corpus_of_three) = Inr \<lparr>hidden_size = 768\<rparr>"
    by (simp add: demo_env_def hub_models_def corpus_of_three_def)
  have fp: "from_pretrained demo_env (r_backbone corpus_of_three) \<lparr>hidden_size = 768\<rparr> = Inr ()"
    by (simp add: demo_env_def hub_models_def corpus_of_three_def)
  have cu: "cuda_error demo_env = None" by (simp add: demo_env_def)
  have po: "pooled_ok demo_env (hidden_size \<lparr>hidden_size = 768\<rparr>)"
    by (simp add: pooled_ok_def demo_env_def)
  have p1: "path_join (train_data_dir (args_path (r_args corpus_of_three)))
              (dense_train_dataset (args_retriever (r_args corpus_of_three))) = ''data/train_dataset''"
    by (simp add: corpus_of_three_def demo_args_def path_join_def)
  have p2: "path_join (train_data_dir (args_path (r_args corpus_of_three))) ''kor_dataset''
              = ''data/kor_dataset''"
    by (simp add: corpus_of_three_def demo_args_def path_join_def)
  have l1: "load_from_disk demo_env ''data/train_dataset''
        = Inr [''train'' \<mapsto> replicate 12 demo_example, ''validation'' \<mapsto> replicate 2 demo_example]"
    by (simp add: demo_env_def hub_models_def)
  have l2: "load_from_disk demo_env ''data/kor_dataset'' = Inr [''train'' \<mapsto> replicate 2 demo_example]"
    by (simp add: demo_env_def hub_models_def)
  have "\<exists>emb q_enc. exec_embedding demo_env corpus_of_three = Inr (emb, q_enc)"
  proof (rule exec_embedding_returns_when_inputs_fit [OF c cf fp cu po])
    show "load_from_disk demo_env (path_join (train_data_dir (args_path (r_args corpus_of_three)))
           (dense_train_dataset (args_retriever (r_args corpus_of_three))))
        = Inr [''train'' \<mapsto> replicate 12 demo_example, ''validation'' \<mapsto> replicate 2 demo_example]"
      unfolding p1 by (rule l1)
    show "[''train'' \<mapsto> replicate 12 demo_example, ''validation'' \<mapsto> replicate 2 demo_example] ''train''
        = Some (replicate 12 demo_example)" by simp
    show "2 \<le> length (replicate 12 demo_example)" by simp
    show "[''train'' \<mapsto> replicate 12 demo_example, ''validation'' \<mapsto> replicate 2 demo_example] ''validation''
        = Some (replicate 2 demo_example)" by simp
    show "load_from_disk demo_env (path_join (train_data_dir (args_path (r_args corpus_of_three))) ''kor_dataset'')
        = Inr [''train'' \<mapsto> replicate 2 demo_example]"
      unfolding p2 by (rule l2)
    show "[''train'' \<mapsto> replicate 2 demo_example] ''train'' = Some (replicate 2 demo_example)"
      by simp
    show "16 dvd length (replicate 12 demo_example) + length (replicate 2 demo_example)
          + length (replicate 2 demo_example)" by simp
  qed
  then have r: "\<not> isl (exec_embedding demo_env corpus_of_three)" by auto
  have d: "(16::nat) dvd 12 + 2 + 2" by simp
  from po have po': "pooled_ok demo_env 768" by simp
  show ?thesis using c cf fp cu po' l1 l2 d r by (intro conjI)
qed

section \<open>Properties of the sparse scorers\<close>

lemma sparse_build_df_le:
  assumes "sparse_build docs = Inr idx"
  shows "df idx t \<le> n_docs idx" and "0 < n_docs idx"
proof -
  from assms have ne: "docs \<noteq> []" and idx: "idx = projr (sparse_build docs)"
    by (auto simp: sparse_build_def split: if_splits)
  have "length (filter (\<lambda>i. t \<in> set (docs ! i)) [0..<length docs]) \<le> length [0..<length docs]"
    by (rule length_filter_le)
  then show "df idx t \<le> n_docs idx" using ne by (simp add: idx df_def sparse_build_def)
  show "0 < n_docs idx" using ne by (simp add: idx sparse_build_def)
qed

lemma idf_tfidf_nonneg:
  assumes "sparse_build docs = Inr idx"
  shows "0 \<le> idf_tfidf idx t"
proof -
  from sparse_build_df_le(1) [OF assms, of t] sparse_build_df_le(2) [OF assms]
  have "max 1 (df idx t) \<le> n_docs idx" and "0 < max 1 (df idx t)" by simp_all
  then have "1 \<le> real (n_docs idx) / real (max 1 (df idx t))"
    by (simp add: le_divide_eq)
  then show ?thesis unfolding idf_tfidf_def by (rule ln_ge_zero)
qed

lemma tfidf_score_nonneg:
  assumes "sparse_build docs = Inr idx"
  shows "0 \<le> tfidf_score idx query d"
  unfolding tfidf_score_def
  by (rule sum_list_nonneg) (auto simp: idf_tfidf_nonneg [OF assms])

lemma posting_facts:
  assumes "sparse_build docs = Inr idx" and "map_of (postings idx t) d = Some f"
  shows "0 < f" and "0 < df idx t" and "0 < doc_len idx d" and "0 < avg_doc_length idx"
proof -
  from assms(1) have ne: "docs \<noteq> []" and idx: "idx = projr (sparse_build docs)"
    by (auto simp: sparse_build_def split: if_splits)
  from assms(2) have "(d, f) \<in> set (postings idx t)" by (rule map_of_SomeD)
  then have d: "d < length docs" and t: "t \<in> set (docs ! d)" and f: "f = count_list (docs ! d) t"
    by (auto simp: idx sparse_build_def ne)
  from t have "count_list (docs ! d) t \<noteq> 0" by (simp add: count_list_0_iff)
  with f show "0 < f" by simp
  from \<open>(d, f) \<in> set (postings idx t)\<close> show "0 < df idx t"
    by (auto simp: df_def)
  from t have l: "0 < length (docs ! d)" by auto
  with d show "0 < doc_len idx d" by (simp add: doc_len_def idx sparse_build_def ne)
  from d have "docs ! d \<in> set docs" by simp
  then have "length (docs ! d) \<le> sum_list (map length docs)"
    by (simp add: member_le_sum_list)
  with l have "0 < sum_list (map length docs)" by linarith
  then show "0 < avg_doc_length idx" using ne by (simp add: idx sparse_build_def)
qed

lemma bm25_term_nonneg:
  assumes b: "sparse_build docs = Inr idx"
    and k1: "0 \<le> k1" and b0: "0 \<le> b" and b1: "b \<le> 1"
    and idf: "0 < df idx t \<Longrightarrow> 0 \<le> idf"
  shows "0 \<le> bm25_term idf k1 b idx t d"
proof (cases "map_of (postings idx t) d")
  case None
  then show ?thesis by (simp add: bm25_term_def)
next
  case (Some f)
  from posting_facts [OF b Some]
  have f: "0 < f" and dfp: "0 < df idx t" and a: "0 < avg_doc_length idx" by simp_all
  have "0 \<le> b * real (doc_len idx d) / avg_doc_length idx" using b0 a by simp
  with b1 have "0 \<le> 1 - b + b * real (doc_len idx d) / avg_doc_length idx" by simp
  with k1 have "0 \<le> k1 * (1 - b + b * real (doc_len idx d) / avg_doc_length idx)" by simp
  with f have den: "0 < real f + k1 * (1 - b + b * real (doc_len idx d) / avg_doc_length idx)"
    by simp
  have num: "0 \<le> idf * (real f * (k1 + 1))" using idf [OF dfp] k1 by simp
  show ?thesis using num den by (simp add: bm25_term_def Some)
qed

lemma idf_bm25_nonneg:
  assumes "sparse_build docs = Inr idx" and "0 < df idx t"
  shows "0 \<le> idf_bm25 smoothing idx t"
proof (cases smoothing)
  case Plus_one_outside
  from sparse_build_df_le(1) [OF assms(1), of t] assms(2)
  have "1 \<le> real (n_docs idx) / real (df idx t)" by (simp add: le_divide_eq)
  then have "0 \<le> ln (real (n_docs idx) / real (df idx t))" by (rule ln_ge_zero)
  then show ?thesis using Plus_one_outside by simp
next
  case Plus_one_inside
  from sparse_build_df_le(1) [OF assms(1), of t]
  have "0 \<le> (real (n_docs idx) - real (df idx t) + 1 / 2) / (real (df idx t) + 1 / 2)"
    by simp
  then have "0 \<le> ln (1 + (real (n_docs idx) - real (df idx t) + 1 / 2) / (real (df idx t) + 1 / 2))"
    by (intro ln_ge_zero) simp
  then show ?thesis using Plus_one_inside by simp
qed

lemma atire_unclamped_nonneg:
  assumes "sparse_build docs = Inr idx" and "0 < df idx t"
  shows "0 \<le> ln (real (n_docs idx) / real (df idx t))"
proof -
  from sparse_build_df_le(1) [OF assms(1), of t] assms(2)
  have "1 \<le> real (n_docs idx) / real (df idx t)" by (simp add: le_divide_eq)
  then show ?thesis by (rule ln_ge_zero)
qed

lemma bm25_score_nonneg:
  assumes "sparse_build docs = Inr idx" and "0 \<le> k1" and "0 \<le> b" and "b \<le> 1"
  shows "0 \<le> bm25_score smoothing k1 b idx query d"
  unfolding bm25_score_def
  by (rule sum_list_nonneg)
     (auto intro!: bm25_term_nonneg [OF assms] idf_bm25_nonneg [OF assms(1)])

lemma atire_bm25_score_nonneg:
  assumes "sparse_build docs = Inr idx" and "0 \<le> k1" and "0 \<le> b" and "b \<le> 1"
  shows "0 \<le> atire_bm25_score k1 b idx query d"
  unfolding atire_bm25_score_def
  by (rule sum_list_nonneg)
     (auto intro!: bm25_term_nonneg [OF assms] simp: idf_atire_def)

text \<open>
  C2. For every non-empty corpus the index is built, and for every query and document the
  TF-IDF score, the BM25 score (under either reading of its smoothed idf) and the ATIRE-BM25
  score (whose idf is clamped at zero) are non-negative, for constants \<open>k1 \<ge> 0\<close> and
  \<open>0 \<le> b \<le> 1\<close>.
\<close>

theorem sparse_scores_nonneg:
  assumes "docs \<noteq> []" and "0 \<le> k1" and "0 \<le> b" and "b \<le> 1"
  shows "\<exists>idx. sparse_build docs = Inr idx
      \<and> (\<forall>query d smoothing.
            0 \<le> tfidf_score idx query d
          \<and> 0 \<le> bm25_score smoothing k1 b idx query d
          \<and> 0 \<le> atire_bm25_score k1 b idx query d)"
proof -
  from assms(1) obtain idx where idx: "sparse_build docs = Inr idx"
    by (simp add: sparse_build_def)
  show ?thesis
    using idx tfidf_score_nonneg [OF idx] bm25_score_nonneg [OF idx assms(2,3,4)]
      atire_bm25_score_nonneg [OF idx assms(2,3,4)]
    by blast
qed

theorem sparse_scores_nonneg_witness:
  "three_docs \<noteq> [] \<and> (0::real) \<le> 12 / 10 \<and> (0::real) \<le> 75 / 100 \<and> (75 / 100 :: real) \<le> 1
   \<and> (\<exists>idx. sparse_build three_docs = Inr idx
          \<and> 0 \<le> tfidf_score idx [''cat''] 0
          \<and> 0 \<le> bm25_score Plus_one_inside (12 / 10) (75 / 100) idx [''cat''] 0
          \<and> 0 \<le> atire_bm25_score (12 / 10) (75 / 100) idx [''the'', ''cat''] 1)"
proof -
  have h1: "three_docs \<noteq> []" by (simp add: three_docs_def)
  have h2: "(0::real) \<le> 12 / 10" and h3: "(0::real) \<le> 75 / 100" and h4: "(75 / 100 :: real) \<le> 1"
    by simp_all
  from sparse_scores_nonneg [OF h1 h2 h3 h4] h1 h2 h3 h4 show ?thesis by blast
qed

section \<open>Properties of ranking and of the query facade\<close>

lemma rank_top_k_order:
  assumes "i < j" and "j < length (rank_top_k top_k scores)"
  shows "snd (rank_top_k top_k scores ! j) < snd (rank_top_k top_k scores ! i)
       \<or> (snd (rank_top_k top_k scores ! j) = snd (rank_top_k top_k scores ! i)
            \<and> fst (rank_top_k top_k scores ! i) < fst (rank_top_k top_k scores ! j))"
proof -
  let ?key = "\<lambda>(i, s). (- s, i) :: real \<times> nat"
  let ?xs = "zip [0..<length scores] scores"
  let ?r = "rank_top_k top_k scores"
  have r: "?r = take top_k (sort_key ?key ?xs)" by (simp add: rank_top_k_def)
  have "sorted (map ?key (sort_key ?key ?xs))" by (rule sorted_sort_key)
  then have "sorted (take top_k (map ?key (sort_key ?key ?xs)))" by (rule sorted_wrt_take)
  then have so: "sorted (map ?key ?r)" by (simp add: r take_map)
  have "distinct ?xs" by (rule distinct_zipI1) simp
  then have di: "distinct ?r" by (simp add: r distinct_take)
  from assms have ij: "i < length ?r" by simp
  from so assms ij have "?key (?r ! i) \<le> ?key (?r ! j)"
    by (auto simp: sorted_iff_nth_mono dest!: spec [of _ i] spec [of _ j])
  moreover from di assms ij have "?r ! i \<noteq> ?r ! j"
    by (simp add: nth_eq_iff_index_eq)
  ultimately show ?thesis
    by (cases "?r ! i"; cases "?r ! j") (auto simp: less_eq_prod_def)
qed


lemma retrieve_cases:
  assumes "retrieve fc query top_k = (fc', res)"
  shows "(fc' = fc \<and> res = Inl NotReadyError
            \<and> ((f_phase fc \<noteq> READY \<and> f_phase fc \<noteq> SERVING) \<or> f_sparse fc = None))
       \<or> (fc' = fc\<lparr>f_phase := SERVING\<rparr> \<and> (f_phase fc = READY \<or> f_phase fc = SERVING)
            \<and> f_sparse fc \<noteq> None
            \<and> ((\<exists>e. res = Inl e) \<or> (\<exists>scores. res =
                   Inr (map (\<lambda>(i, s). (i, s, f_passages fc ! i)) (rank_top_k top_k scores)))))"
proof (cases "f_phase fc \<noteq> READY \<and> f_phase fc \<noteq> SERVING")
  case True
  with assms show ?thesis by (simp add: retrieve_def)
next
  case False
  note ph = this
  show ?thesis
  proof (cases "f_sparse fc")
    case None
    with assms ph show ?thesis by (simp add: retrieve_def)
  next
    case (Some idx)
    show ?thesis
    proof (cases "dense_score (f_dense fc) (f_encode fc query)")
      case (Inl e)
      with assms ph Some show ?thesis by (auto simp: retrieve_def Let_def)
    next
      case (Inr dense)
      with assms ph Some show ?thesis by (auto simp: retrieve_def Let_def)
    qed
  qed
qed

lemma retrieve_again:
  assumes "retrieve fc query top_k = (fc', res)"
  shows "retrieve fc' query top_k = (fc', res)"
proof (cases "(f_phase fc \<noteq> READY \<and> f_phase fc \<noteq> SERVING) \<or> f_sparse fc = None")
  case True
  with assms have "fc' = fc" by (auto simp: retrieve_def split: if_splits)
  with assms show ?thesis by simp
next
  case False
  then obtain idx where i: "f_sparse fc = Some idx"
    and ph: "\<not> (f_phase fc \<noteq> READY \<and> f_phase fc \<noteq> SERVING)" by auto
  from assms i ph have f: "fc' = fc\<lparr>f_phase := SERVING\<rparr>"
    by (auto simp: retrieve_def Let_def split: sum.splits)
  have "retrieve (fc\<lparr>f_phase := SERVING\<rparr>) query top_k = retrieve fc query top_k"
    using i ph by (auto simp: retrieve_def Let_def split: sum.splits)
  with assms f show ?thesis by simp
qed

lemma tied_facade_retrieve:
  "retrieve tied_facade ''bird'' 2
     = (tied_facade\<lparr>f_phase := SERVING\<rparr>, Inr [(0, 0, ''cat''), (1, 0, ''dog'')])"
proof -
  let ?I = "projr (sparse_build [[''cat''], [''dog'']])"
  have c: "\<not> (f_phase tied_facade \<noteq> READY \<and> f_phase tied_facade \<noteq> SERVING)"
    by (simp add: tied_facade_def)
  have f2: "f_sparse tied_facade = Some ?I" by (simp add: tied_facade_def)
  have p: "postings ?I ''bird'' = []"
    by (simp add: sparse_build_def upt_rec)
  have sp: "bm25_score Plus_one_outside k b0 ?I [''bird''] d = 0" for d k b0
    by (simp add: bm25_score_def bm25_term_def p)
  have up: "[0..<2] = [0, Suc 0]" by (simp add: upt_rec)
  have f3: "map (sparse_score (f_scheme tied_facade) (f_k1 tied_facade) (f_b tied_facade) ?I
                   (f_tokenize tied_facade ''bird''))
                [0..<length (f_passages tied_facade)] = [0, 0]"
    by (simp add: tied_facade_def sp up)
  have f4: "dense_score (f_dense tied_facade) (f_encode tied_facade ''bird'') = Inr [3, 3]"
    by (simp add: tied_facade_def dense_score_def)
  have f5: "fst (fuse_scores (f_fusion tied_facade) [0, 0] [3, 3]) = [0, 0]"
    by (simp add: tied_facade_def min_max_normalize_def)
  have f6: "rank_top_k 2 [0, 0] = [(0, 0), (1, 0)]"
    by (simp add: rank_top_k_def up less_eq_prod_def)
  have f7: "map (\<lambda>(i, s). (i, s, f_passages tied_facade ! i)) [(0, 0::real), (1, 0)]
              = [(0, 0, ''cat''), (1, 0, ''dog'')]"
    by (simp add: tied_facade_def)
  show ?thesis
    by (simp only: retrieve_def c if_False f2 option.case Let_def f3 f4 sum.case f5 f6 f7)
qed

text \<open>
  C6. A \<^verbatim>\<open>retrieve\<close> call changes nothing of the facade but its phase, and the same call
  on the state it leaves returns the same state and the same ordered result; in a result,
  a later entry has a strictly lower score than an earlier one, or the same score and a
  larger document id.
\<close>

theorem retrieve_deterministic_ties:
  assumes "retrieve fc query top_k = (fc', res)"
  shows "retrieve fc' query top_k = (fc', res)
       \<and> fc'\<lparr>f_phase := f_phase fc\<rparr> = fc
       \<and> (\<forall>result i j. res = Inr result \<and> i < j \<and> j < length result \<longrightarrow>
             (fst (snd (result ! j)) < fst (snd (result ! i))
              \<or> (fst (snd (result ! j)) = fst (snd (result ! i))
                   \<and> fst (result ! i) < fst (result ! j))))"
proof -
  have a: "retrieve fc' query top_k = (fc', res)" using assms by (rule retrieve_again)
  have b: "fc'\<lparr>f_phase := f_phase fc\<rparr> = fc"
    using retrieve_cases [OF assms] by auto
  have c: "fst (snd (result ! j)) < fst (snd (result ! i))
              \<or> (fst (snd (result ! j)) = fst (snd (result ! i))
                   \<and> fst (result ! i) < fst (result ! j))"
    if r: "res = Inr result" and ij: "i < j" and j: "j < length result" for result i j
  proof -
    from retrieve_cases [OF assms] r obtain scores where
      res: "result = map (\<lambda>(i, s). (i, s, f_passages fc ! i)) (rank_top_k top_k scores)"
      by auto
    let ?r = "rank_top_k top_k scores"
    from j res have j': "j < length ?r" by simp
    with ij have i': "i < length ?r" by simp
    have ri: "fst (result ! i) = fst (?r ! i)" "fst (snd (result ! i)) = snd (?r ! i)"
      using i' by (simp_all add: res split_beta)
    have rj: "fst (result ! j) = fst (?r ! j)" "fst (snd (result ! j)) = snd (?r ! j)"
      using j' by (simp_all add: res split_beta)
    from rank_top_k_order [OF ij j'] show ?thesis by (simp add: ri rj)
  qed
  from a b c show ?thesis by blast
qed

theorem retrieve_deterministic_ties_witness:
  "retrieve tied_facade ''bird'' 2
     = (tied_facade\<lparr>f_phase := SERVING\<rparr>, Inr [(0, 0, ''cat''), (1, 0, ''dog'')])
   \<and> retrieve (tied_facade\<lparr>f_phase := SERVING\<rparr>) ''bird'' 2
     = (tied_facade\<lparr>f_phase := SERVING\<rparr>, Inr [(0, 0, ''cat''), (1, 0, ''dog'')])
   \<and> (0::nat) < 1 \<and> (1::nat) < length [(0::nat, 0::real, ''cat''), (1, 0, ''dog'')]
   \<and> fst (snd ([(0::nat, 0::real, ''cat''), (1, 0, ''dog'')] ! 1))
        = fst (snd ([(0::nat, 0::real, ''cat''), (1, 0, ''dog'')] ! 0))
   \<and> fst ([(0::nat, 0::real, ''cat''), (1, 0, ''dog'')] ! 0)
        < fst ([(0::nat, 0::real, ''cat''), (1, 0, ''dog'')] ! 1)"
proof -
  note th = retrieve_deterministic_ties [OF tied_facade_retrieve]
  from th have again: "retrieve (tied_facade\<lparr>f_phase := SERVING\<rparr>) ''bird'' 2
     = (tied_facade\<lparr>f_phase := SERVING\<rparr>, Inr [(0, 0, ''cat''), (1, 0, ''dog'')])"
    by blast
  from th have "fst (snd ([(0::nat, 0::real, ''cat''), (1, 0, ''dog'')] ! 1))
          < fst (snd ([(0::nat, 0::real, ''cat''), (1, 0, ''dog'')] ! 0))
       \<or> (fst (snd ([(0::nat, 0::real, ''cat''), (1, 0, ''dog'')] ! 1))
            = fst (snd ([(0::nat, 0::real, ''cat''), (1, 0, ''dog'')] ! 0))
          \<and> fst ([(0::nat, 0::real, ''cat''), (1, 0, ''dog'')] ! 0)
            < fst ([(0::nat, 0::real, ''cat''), (1, 0, ''dog'')] ! 1))"
    by (elim conjE allE [of _ "[(0::nat, 0::real, ''cat''), (1, 0, ''dog'')]"]
          allE [of _ "0::nat"] allE [of _ "1::nat"]) simp
  with tied_facade_retrieve again show ?thesis by simp
qed

section \<open>Properties of \<^verbatim>\<open>epoch_time\<close>\<close>

subsection \<open>Rounding to nearest, ties to even\<close>

lemma rhe_cases:
  "round_half_even q = \<lfloor>q\<rfloor> \<or> round_half_even q = \<lfloor>q\<rfloor> + 1"
  by (simp add: round_half_even_def Let_def)

lemma rhe_of_int [simp]: "round_half_even (of_int n) = n"
  by (simp add: round_half_even_def Let_def)

lemma rhe_ge_floor: "\<lfloor>q\<rfloor> \<le> round_half_even q"
  using rhe_cases [of q] by auto

lemma rhe_le_ceiling: "round_half_even q \<le> \<lceil>q\<rceil>"
proof (cases "q = of_int \<lfloor>q\<rfloor>")
  case True
  then obtain n where "q = of_int n" by metis
  then show ?thesis by simp
next
  case False
  then have "\<lceil>q\<rceil> = \<lfloor>q\<rfloor> + 1" by (simp add: ceiling_altdef)
  then show ?thesis using rhe_cases [of q] by auto
qed

lemma rhe_ge_int: "of_int n \<le> q \<Longrightarrow> n \<le> round_half_even q"
  using rhe_ge_floor [of q] by (meson le_floor_iff order_trans)

lemma rhe_le_int: "q \<le> of_int n \<Longrightarrow> round_half_even q \<le> n"
  using rhe_le_ceiling [of q] by (meson ceiling_le_iff order_trans)

lemma rhe_upper: "of_int (round_half_even q) \<le> q + 1 / 2"
  unfolding round_half_even_def Let_def by (auto; linarith)

lemma rhe_lower: "q - 1 / 2 \<le> of_int (round_half_even q)"
  unfolding round_half_even_def Let_def by (auto; linarith)

lemma ulp_of_pos [simp]: "0 < ulp_of x"
  by (simp add: ulp_of_def)

lemma ulp_of_nz [simp]: "ulp_of x \<noteq> 0"
  using ulp_of_pos [of x] by linarith

lemma round_to_ulp_upper: "round_to_ulp x \<le> x + ulp_of x / 2"
proof -
  have "of_int (round_half_even (x / ulp_of x)) * ulp_of x \<le> (x / ulp_of x + 1 / 2) * ulp_of x"
    by (rule mult_right_mono [OF rhe_upper]) (simp add: less_imp_le)
  also have "\<dots> = x + ulp_of x / 2"
    using ulp_of_pos [of x] by (simp add: field_simps)
  finally show ?thesis by (simp add: round_to_ulp_def)
qed

lemma round_to_ulp_lower: "x - ulp_of x / 2 \<le> round_to_ulp x"
proof -
  have "(x / ulp_of x - 1 / 2) * ulp_of x \<le> of_int (round_half_even (x / ulp_of x)) * ulp_of x"
    by (rule mult_right_mono [OF rhe_lower]) (simp add: less_imp_le)
  moreover have "(x / ulp_of x - 1 / 2) * ulp_of x = x - ulp_of x / 2"
    using ulp_of_pos [of x] by (simp add: field_simps)
  ultimately show ?thesis by (simp add: round_to_ulp_def)
qed

text \<open>Rounding never crosses a multiple of the spacing.\<close>

lemma round_to_ulp_ge_grid:
  assumes "of_int m * ulp_of x \<le> x"
  shows "of_int m * ulp_of x \<le> round_to_ulp x"
proof -
  have "of_int m \<le> x / ulp_of x"
    using assms ulp_of_pos [of x] by (simp add: field_simps)
  then have "m \<le> round_half_even (x / ulp_of x)" by (rule rhe_ge_int)
  then have "(of_int m :: real) \<le> of_int (round_half_even (x / ulp_of x))" by simp
  then show ?thesis
    unfolding round_to_ulp_def by (rule mult_right_mono) (simp add: less_imp_le)
qed

lemma round_to_ulp_le_grid:
  assumes "x \<le> of_int m * ulp_of x"
  shows "round_to_ulp x \<le> of_int m * ulp_of x"
proof -
  have "x / ulp_of x \<le> of_int m"
    using assms ulp_of_pos [of x] by (simp add: field_simps)
  then have "round_half_even (x / ulp_of x) \<le> m" by (rule rhe_le_int)
  then have "(of_int (round_half_even (x / ulp_of x)) :: real) \<le> of_int m" by simp
  then show ?thesis
    unfolding round_to_ulp_def by (rule mult_right_mono) (simp add: less_imp_le)
qed

lemma round_to_ulp_exact:
  assumes "x = of_int m * ulp_of x"
  shows "round_to_ulp x = x"
proof -
  have "x / ulp_of x = of_int m"
    using assms ulp_of_pos [of x] by (simp add: field_simps)
  then have "round_to_ulp x = of_int m * ulp_of x" by (simp add: round_to_ulp_def)
  then show ?thesis using assms by simp
qed


subsection \<open>Binades\<close>

lemma floor_log2_iff:
  fixes x :: real
  assumes "0 < x"
  shows "\<lfloor>log 2 x\<rfloor> = k \<longleftrightarrow> 2 powi k \<le> x \<and> x < 2 powi (k + 1)"
proof -
  have a: "(2::real) powr real_of_int k = 2 powi k"
    by (rule powr_real_of_int') simp_all
  have b: "(2::real) powr (real_of_int k + 1) = 2 powi (k + 1)"
    using powr_real_of_int' [of "2::real" "k + 1"] by simp
  show ?thesis
    using floor_log_eq_powr_iff [of x 2 k] assms by (simp add: a b)
qed

lemma two_powi_pos [simp]: "0 < (2::real) powi k"
  by simp

lemma two_powi_less_imp:
  assumes "(2::real) powi a < 2 powi b"
  shows "a < b"
proof (rule ccontr)
  assume "\<not> a < b"
  then have "b \<le> a" by simp
  then have "(2::real) powi b \<le> 2 powi a" by (intro power_int_increasing) simp_all
  then show False using assms by simp
qed

lemma expo_ge [simp]: "- 1022 \<le> expo x"
  by (simp add: expo_def)

lemma abs_less_expo: "\<bar>x\<bar> < 2 powi (expo x + 1)"
proof (cases "x = 0")
  case True
  then show ?thesis by simp
next
  case False
  then have p: "0 < \<bar>x\<bar>" by simp
  have "\<bar>x\<bar> < 2 powi (\<lfloor>log 2 \<bar>x\<bar>\<rfloor> + 1)"
    using floor_log2_iff [OF p, of "\<lfloor>log 2 \<bar>x\<bar>\<rfloor>"] by simp
  also have "\<dots> \<le> 2 powi (expo x + 1)"
    using False by (intro power_int_increasing) (simp_all add: expo_def)
  finally show ?thesis .
qed

lemma expo_le_abs:
  assumes "2 powi (- 1022) \<le> \<bar>x\<bar>"
  shows "2 powi (expo x) \<le> \<bar>x\<bar>"
proof -
  have nz: "x \<noteq> 0" using assms by auto
  then have p: "0 < \<bar>x\<bar>" by simp
  have f: "2 powi \<lfloor>log 2 \<bar>x\<bar>\<rfloor> \<le> \<bar>x\<bar>"
    using floor_log2_iff [OF p, of "\<lfloor>log 2 \<bar>x\<bar>\<rfloor>"] by simp
  show ?thesis
  proof (cases "- 1022 \<le> \<lfloor>log 2 \<bar>x\<bar>\<rfloor>")
    case True
    then have "expo x = \<lfloor>log 2 \<bar>x\<bar>\<rfloor>" using nz by (simp add: expo_def)
    then show ?thesis using f by simp
  next
    case False
    then have "expo x = - 1022" using nz by (simp add: expo_def)
    then show ?thesis using assms by simp
  qed
qed

lemma expo_le:
  assumes "\<bar>x\<bar> < 2 powi (k + 1)" and "- 1022 \<le> k"
  shows "expo x \<le> k"
proof (cases "x = 0")
  case True
  then show ?thesis using assms(2) by (simp add: expo_def)
next
  case False
  then have p: "0 < \<bar>x\<bar>" by simp
  have "2 powi \<lfloor>log 2 \<bar>x\<bar>\<rfloor> \<le> \<bar>x\<bar>"
    using floor_log2_iff [OF p, of "\<lfloor>log 2 \<bar>x\<bar>\<rfloor>"] by simp
  then have "(2::real) powi \<lfloor>log 2 \<bar>x\<bar>\<rfloor> < 2 powi (k + 1)"
    using assms(1) by linarith
  then have "\<lfloor>log 2 \<bar>x\<bar>\<rfloor> < k + 1"
    by (rule two_powi_less_imp)
  then show ?thesis using False assms(2) by (simp add: expo_def)
qed

lemma expo_eqI:
  assumes "2 powi k \<le> \<bar>x\<bar>" and "\<bar>x\<bar> < 2 powi (k + 1)" and "- 1022 \<le> k"
  shows "expo x = k"
proof -
  have p: "0 < \<bar>x\<bar>" using assms(1) two_powi_pos [of k] by linarith
  then have nz: "x \<noteq> 0" by simp
  have "\<lfloor>log 2 \<bar>x\<bar>\<rfloor> = k"
    using floor_log2_iff [OF p, of k] assms by simp
  then show ?thesis using nz assms(3) by (simp add: expo_def)
qed

lemma expo_mono:
  assumes "\<bar>x\<bar> \<le> \<bar>y\<bar>"
  shows "expo x \<le> expo y"
proof -
  have "\<bar>x\<bar> < 2 powi (expo y + 1)"
    using assms abs_less_expo [of y] by linarith
  then show ?thesis by (rule expo_le) simp
qed


subsection \<open>Representable numbers\<close>

lemma two_powi_split: "(2::real) powi (a + b) = 2 powi a * 2 powi b"
  by (rule power_int_add) simp

lemma grid_refine:
  fixes x :: real
  assumes "x = of_int m * 2 powi g" and "h \<le> g"
  shows "\<exists>m'::int. x = of_int m' * 2 powi h"
proof -
  have "(2::real) powi g = 2 powi (h + (g - h))" by simp
  also have "\<dots> = 2 powi h * 2 powi (g - h)" by (rule two_powi_split)
  also have "(2::real) powi (g - h) = 2 ^ nat (g - h)"
    using assms(2) by (simp add: power_int_nonneg_exp)
  finally have "x = of_int (m * 2 ^ nat (g - h)) * 2 powi h"
    using assms(1) by (simp add: mult.assoc mult.commute)
  then show ?thesis by blast
qed

lemma multiple_of_ulp:
  assumes "x = of_int m * 2 powi g" and "expo x - 52 \<le> g"
  shows "\<exists>m'::int. x = of_int m' * ulp_of x"
  unfolding ulp_of_def using assms by (rule grid_refine)

lemma expo_le_52:
  assumes "\<bar>x\<bar> < 2 ^ 53"
  shows "expo x \<le> 52"
  by (rule expo_le) (use assms in simp_all)

lemma int_multiple_of_ulp:
  assumes "\<bar>x\<bar> < 2 ^ 53"
  shows "\<exists>m'::int. of_int n = of_int m' * ulp_of x"
proof -
  have "real_of_int n = of_int n * 2 powi 0" by simp
  moreover have "expo x - 52 \<le> 0" using expo_le_52 [OF assms] by simp
  ultimately show ?thesis unfolding ulp_of_def by (rule grid_refine)
qed

lemma ulp_of_times_2_53: "of_int (2 ^ 53) * ulp_of y = 2 powi (expo y + 1)"
proof -
  have e: "expo y + 1 = 53 + (expo y - 52)" by simp
  have "(2::real) powi (expo y + 1) = 2 powi 53 * 2 powi (expo y - 52)"
    by (subst e) (rule two_powi_split)
  then show ?thesis by (simp add: ulp_of_def)
qed

lemma round_to_ulp_abs_le: "\<bar>round_to_ulp y\<bar> \<le> 2 powi (expo y + 1)"
proof -
  have b: "\<bar>y\<bar> < 2 powi (expo y + 1)" by (rule abs_less_expo)
  have "y \<le> of_int (2 ^ 53) * ulp_of y"
    unfolding ulp_of_times_2_53 using b by linarith
  then have up: "round_to_ulp y \<le> of_int (2 ^ 53) * ulp_of y"
    by (rule round_to_ulp_le_grid)
  have "of_int (- (2 ^ 53)) * ulp_of y \<le> y"
    using b ulp_of_times_2_53 [of y] by simp
  then have "of_int (- (2 ^ 53)) * ulp_of y \<le> round_to_ulp y"
    by (rule round_to_ulp_ge_grid)
  then have lo: "- (of_int (2 ^ 53) * ulp_of y) \<le> round_to_ulp y" by simp
  show ?thesis using up lo unfolding ulp_of_times_2_53 by linarith
qed

lemma round_to_ulp_multiple:
  "\<exists>m::int. round_to_ulp y = of_int m * ulp_of (round_to_ulp y)"
proof -
  define r where "r = round_to_ulp y"
  have rM: "r = of_int (round_half_even (y / ulp_of y)) * 2 powi (expo y - 52)"
    by (simp add: r_def round_to_ulp_def ulp_of_def)
  have le: "\<bar>r\<bar> \<le> 2 powi (expo y + 1)"
    unfolding r_def by (rule round_to_ulp_abs_le)
  show ?thesis
  proof (cases "\<bar>r\<bar> < 2 powi (expo y + 1)")
    case True
    then have "expo r \<le> expo y" by (rule expo_le) simp
    then have "expo r - 52 \<le> expo y - 52" by simp
    with rM have "\<exists>m::int. r = of_int m * ulp_of r" by (rule multiple_of_ulp)
    then show ?thesis by (simp add: r_def)
  next
    case False
    with le have eq: "\<bar>r\<bar> = 2 powi (expo y + 1)" by linarith
    have "(2::real) powi (expo y + 1) < 2 powi (expo y + 1 + 1)"
      by (rule power_int_strict_increasing) simp_all
    moreover have "- 1022 \<le> expo y + 1" using expo_ge [of y] by linarith
    ultimately have "expo r = expo y + 1"
      using eq by (intro expo_eqI) simp_all
    then have u: "ulp_of r = 2 powi (expo y - 51)" by (simp add: ulp_of_def)
    have e: "expo y + 1 = 52 + (expo y - 51)" by simp
    have "(2::real) powi (expo y + 1) = 2 powi 52 * 2 powi (expo y - 51)"
      by (subst e) (rule two_powi_split)
    then have a: "\<bar>r\<bar> = of_int (2 ^ 52) * ulp_of r" using eq u by simp
    have "r = of_int (2 ^ 52) * ulp_of r \<or> r = of_int (- (2 ^ 52)) * ulp_of r"
      using a by (cases "0 \<le> r") simp_all
    then have "\<exists>m::int. r = of_int m * ulp_of r" by blast
    then show ?thesis by (simp add: r_def)
  qed
qed

lemma is_double_round_to_ulp:
  assumes "\<bar>round_to_ulp y\<bar> < overflow_threshold"
  shows "is_double (round_to_ulp y)"
  unfolding is_double_def using round_to_ulp_multiple [of y] assms by simp

lemma is_double_exact: "is_double x \<Longrightarrow> round_to_ulp x = x"
  unfolding is_double_def using round_to_ulp_exact by blast

lemma float_round_is_double:
  assumes "is_double x"
  shows "float_round x = Finite x"
proof -
  have "\<bar>x\<bar> < overflow_threshold" using assms by (simp add: is_double_def)
  then show ?thesis by (simp add: float_round_def is_double_exact [OF assms])
qed

lemma is_double_of_int:
  assumes "\<bar>n\<bar> < 2 ^ 53"
  shows "is_double (of_int n)"
proof -
  have "real_of_int \<bar>n\<bar> < of_int (2 ^ 53)" using assms by (simp only: of_int_less_iff)
  then have a: "\<bar>real_of_int n\<bar> < 2 ^ 53" by simp
  have "(2::real) ^ 53 \<le> 2 ^ 1024" by (rule power_increasing) simp_all
  then have "\<bar>real_of_int n\<bar> < overflow_threshold"
    unfolding overflow_threshold_def using a by linarith
  then show ?thesis
    unfolding is_double_def using int_multiple_of_ulp [OF a, of n] by simp
qed


subsection \<open>The rounded quotient by 60\<close>

lemma ulp_of_le_one:
  assumes "\<bar>x\<bar> < 2 ^ 53"
  shows "ulp_of x \<le> 1"
proof -
  have "expo x - 52 \<le> 0" using expo_le_52 [OF assms] by simp
  then have "(2::real) powi (expo x - 52) \<le> 2 powi 0"
    by (intro power_int_increasing) simp_all
  then show ?thesis by (simp add: ulp_of_def)
qed

lemma ulp_of_le_rel:
  assumes "1 / 2 \<le> \<bar>x\<bar>"
  shows "ulp_of x * 2 ^ 52 \<le> \<bar>x\<bar>"
proof -
  have "(2::real) powi (- 1022) \<le> 2 powi (- 1)"
    by (intro power_int_increasing) simp_all
  then have "(2::real) powi (- 1022) \<le> \<bar>x\<bar>"
    using assms by (simp add: power_int_minus)
  then have a: "2 powi (expo x) \<le> \<bar>x\<bar>" by (rule expo_le_abs)
  have e: "expo x = (expo x - 52) + 52" by simp
  have "(2::real) powi (expo x) = 2 powi (expo x - 52) * 2 powi 52"
    by (subst e) (rule two_powi_split)
  then show ?thesis using a by (simp add: ulp_of_def)
qed

lemma abs_less_ulp: "\<bar>x\<bar> < 2 ^ 53 * ulp_of x"
  using abs_less_expo [of x] ulp_of_times_2_53 [of x] by simp

lemma grid_gap:
  assumes "is_double e" and "e < of_int n" and "\<bar>e\<bar> < 2 ^ 53"
  shows "ulp_of e \<le> of_int n - e"
proof -
  obtain m :: int where m: "e = of_int m * ulp_of e"
    using assms(1) by (auto simp add: is_double_def)
  obtain N :: int where N: "real_of_int n = of_int N * ulp_of e"
    using int_multiple_of_ulp [OF assms(3), of n] by blast
  have "of_int m * ulp_of e < of_int N * ulp_of e"
    using assms(2) m N by simp
  then have "real_of_int m < of_int N"
    using ulp_of_pos [of e] by (simp add: mult_less_cancel_right)
  then have "m + 1 \<le> N" by simp
  then have "real_of_int (m + 1) \<le> of_int N" by (simp only: of_int_le_iff)
  then have "of_int (m + 1) * ulp_of e \<le> of_int N * ulp_of e"
    by (rule mult_right_mono) (simp add: less_imp_le)
  then have "of_int m * ulp_of e + ulp_of e \<le> of_int N * ulp_of e"
    by (simp add: algebra_simps)
  then show ?thesis using m N by linarith
qed

lemma div_60_below_next:
  assumes d: "is_double e" and e0: "0 \<le> e" and e53: "e < 2 ^ 53"
  shows "round_to_ulp (e / 60) < of_int (\<lfloor>e / 60\<rfloor> + 1)"
proof (rule ccontr)
  define x where "x = e / 60"
  define k where "k = \<lfloor>x\<rfloor>"
  define u where "u = ulp_of x"
  assume "\<not> round_to_ulp (e / 60) < of_int (\<lfloor>e / 60\<rfloor> + 1)"
  then have q: "of_int k + 1 \<le> round_to_ulp x" by (simp add: x_def k_def)
  have x0: "0 \<le> x" using e0 by (simp add: x_def)
  have k0: "0 \<le> k" using x0 by (simp add: k_def)
  have kx: "of_int k \<le> x" by (simp add: k_def)
  have xk: "x < of_int k + 1" by (simp add: k_def)
  have "x \<le> e" using e0 by (simp add: x_def)
  then have x53: "\<bar>x\<bar> < 2 ^ 53" using x0 e53 by simp
  have u1: "u \<le> 1" unfolding u_def by (rule ulp_of_le_one [OF x53])
  have up: "round_to_ulp x \<le> x + u / 2" unfolding u_def by (rule round_to_ulp_upper)
  have "of_int k + 1 \<le> x + 1 / 2" using q up u1 by linarith
  moreover have "0 \<le> real_of_int k" using k0 by simp
  ultimately have "1 / 2 \<le> x" by linarith
  then have "1 / 2 \<le> \<bar>x\<bar>" by simp
  then have "u * 2 ^ 52 \<le> \<bar>x\<bar>" unfolding u_def by (rule ulp_of_le_rel)
  then have ux: "u * 2 ^ 52 \<le> x" using x0 by simp
  have gap: "of_int k + 1 - x \<le> u / 2" using q up by linarith
  have e_eq: "e = 60 * x" by (simp add: x_def)
  have a53: "\<bar>e\<bar> < 2 ^ 53" using e0 e53 by simp
  have lt: "e < of_int (60 * (k + 1))" using xk by (simp add: e_eq)
  have v: "ulp_of e \<le> of_int (60 * (k + 1)) - e"
    by (rule grid_gap [OF d lt a53])
  have ev: "e < 2 ^ 53 * ulp_of e" using abs_less_ulp [of e] e0 by simp
  have "of_int (60 * (k + 1)) - e = 60 * (of_int k + 1 - x)" by (simp add: e_eq)
  also have "\<dots> \<le> 30 * u" using gap by simp
  finally have "ulp_of e \<le> 30 * u" using v by linarith
  then have "2 ^ 53 * ulp_of e \<le> 60 * (u * 2 ^ 52)" by simp
  also have "\<dots> \<le> 60 * x" using ux by simp
  finally have "2 ^ 53 * ulp_of e \<le> e" by (simp add: e_eq)
  then show False using ev by linarith
qed

lemma div_60_above_floor:
  assumes e0: "0 \<le> e" and e53: "e < 2 ^ 53"
  shows "of_int \<lfloor>e / 60\<rfloor> \<le> round_to_ulp (e / 60)"
proof -
  have "e / 60 \<le> e" using e0 by simp
  then have x53: "\<bar>e / 60\<bar> < 2 ^ 53" using e0 e53 by simp
  obtain m :: int where m: "real_of_int \<lfloor>e / 60\<rfloor> = of_int m * ulp_of (e / 60)"
    using int_multiple_of_ulp [OF x53, of "\<lfloor>e / 60\<rfloor>"] by blast
  have "of_int m * ulp_of (e / 60) \<le> e / 60"
    unfolding m [symmetric] by (rule of_int_floor_le)
  then have "of_int m * ulp_of (e / 60) \<le> round_to_ulp (e / 60)"
    by (rule round_to_ulp_ge_grid)
  then show ?thesis by (simp only: m)
qed

lemma floor_div_60:
  assumes "is_double e" and "0 \<le> e" and "e < 2 ^ 53"
  shows "\<lfloor>round_to_ulp (e / 60)\<rfloor> = \<lfloor>e / 60\<rfloor>"
  using div_60_above_floor [OF assms(2,3)] div_60_below_next [OF assms]
  by (simp add: floor_eq_iff)


subsection \<open>The two passes of \<^verbatim>\<open>epoch_time\<close>\<close>

lemma below_threshold:
  assumes "\<bar>x\<bar> \<le> 2 ^ 53"
  shows "\<bar>x\<bar> < overflow_threshold"
proof -
  have "(2::real) ^ 53 < 2 ^ 1024" by (rule power_strict_increasing) simp_all
  then show ?thesis unfolding overflow_threshold_def using assms by linarith
qed

lemma float_round_div_60:
  assumes "is_double e" and "0 \<le> e" and "e < 2 ^ 53"
  shows "\<exists>q. float_round (e / 60) = Finite q \<and> py_trunc q = \<lfloor>e / 60\<rfloor>"
proof -
  define q where "q = round_to_ulp (e / 60)"
  have lo: "of_int \<lfloor>e / 60\<rfloor> \<le> q"
    unfolding q_def by (rule div_60_above_floor [OF assms(2,3)])
  have hi: "q < of_int (\<lfloor>e / 60\<rfloor> + 1)"
    unfolding q_def by (rule div_60_below_next [OF assms])
  have f0: "0 \<le> \<lfloor>e / 60\<rfloor>" using assms(2) by simp
  then have q0: "0 \<le> q" using lo by linarith
  have "e / 60 \<le> e" using assms(2) by simp
  then have "e / 60 < 2 ^ 53" using assms(3) by linarith
  then have "\<lfloor>e / 60\<rfloor> < 2 ^ 53" by (simp add: floor_less_iff)
  then have "\<lfloor>e / 60\<rfloor> + 1 \<le> 2 ^ 53" by simp
  then have "real_of_int (\<lfloor>e / 60\<rfloor> + 1) \<le> of_int (2 ^ 53)" by (simp only: of_int_le_iff)
  moreover have "real_of_int (2 ^ 53) = 2 ^ 53" by simp
  ultimately have "q < 2 ^ 53" using hi by linarith
  then have "\<bar>q\<bar> \<le> 2 ^ 53" using q0 by simp
  then have "\<bar>q\<bar> < overflow_threshold" by (rule below_threshold)
  then have a: "float_round (e / 60) = Finite q"
    by (simp add: float_round_def q_def [symmetric])
  have "\<lfloor>q\<rfloor> = \<lfloor>e / 60\<rfloor>" using lo hi by (simp add: floor_eq_iff)
  then have "py_trunc q = \<lfloor>e / 60\<rfloor>" using q0 by (simp add: py_trunc_def)
  with a show ?thesis by blast
qed

lemma floor_div_60_range:
  fixes e :: real
  assumes "0 \<le> e"
  shows "0 \<le> \<lfloor>e / 60\<rfloor> * 60" and "of_int (\<lfloor>e / 60\<rfloor> * 60) \<le> e"
    and "e - of_int (\<lfloor>e / 60\<rfloor> * 60) < 60"
proof -
  show "0 \<le> \<lfloor>e / 60\<rfloor> * 60" using assms by simp
  have "real_of_int \<lfloor>e / 60\<rfloor> \<le> e / 60" by (rule of_int_floor_le)
  then show "of_int (\<lfloor>e / 60\<rfloor> * 60) \<le> e" by simp
  have "e / 60 < real_of_int \<lfloor>e / 60\<rfloor> + 1" by linarith
  then show "e - of_int (\<lfloor>e / 60\<rfloor> * 60) < 60" by linarith
qed

lemma is_double_diff_int:
  assumes d: "is_double e" and e53: "\<bar>e\<bar> < 2 ^ 53"
    and r: "\<bar>e - of_int n\<bar> \<le> \<bar>e\<bar>"
  shows "is_double (e - of_int n)"
proof -
  obtain m :: int where m: "e = of_int m * ulp_of e"
    using d by (auto simp add: is_double_def)
  obtain N :: int where N: "real_of_int n = of_int N * ulp_of e"
    using int_multiple_of_ulp [OF e53, of n] by blast
  have "e - of_int n = of_int m * ulp_of e - of_int N * ulp_of e"
    using m N by simp
  also have "\<dots> = of_int (m - N) * ulp_of e" by (simp add: algebra_simps)
  finally have g: "e - of_int n = of_int (m - N) * 2 powi (expo e - 52)"
    by (simp add: ulp_of_def)
  have "expo (e - of_int n) \<le> expo e" by (rule expo_mono [OF r])
  then have "expo (e - of_int n) - 52 \<le> expo e - 52" by simp
  with g have "\<exists>m'::int. e - of_int n = of_int m' * ulp_of (e - of_int n)"
    by (rule multiple_of_ulp)
  moreover have "\<bar>e - of_int n\<bar> < overflow_threshold"
    using r d by (simp add: is_double_def)
  ultimately show ?thesis by (simp add: is_double_def)
qed

lemma float_of_int_exact:
  assumes "\<bar>n\<bar> < 2 ^ 53"
  shows "float_of_int n = Inr (Finite (of_int n))"
  by (simp add: float_of_int_def float_round_is_double [OF is_double_of_int [OF assms]])

lemma float_sub_Finite:
  assumes "float_sub a b = Finite e"
  shows "is_double e"
proof (cases a)
  case (Finite x)
  show ?thesis
  proof (cases b)
    case (Finite y)
    with \<open>a = Finite x\<close> assms have "float_round (x - y) = Finite e" by simp
    then have "e = round_to_ulp (x - y) \<and> \<bar>round_to_ulp (x - y)\<bar> < overflow_threshold"
      by (simp add: float_round_def Let_def split: if_splits)
    then show ?thesis using is_double_round_to_ulp by blast
  qed (use assms \<open>a = Finite x\<close> in simp_all)
qed (use assms in \<open>cases b; simp\<close>)+

lemma py_sub_finite:
  assumes "py_sub a b = Inr v" and "finite_value v = Some e"
  shows "(\<exists>n. v = PyInt n \<and> e = of_int n) \<or> (v = PyFloat (Finite e) \<and> is_double e)"
proof (cases v)
  case (PyInt n)
  then show ?thesis using assms(2) by auto
next
  case (PyFloat f)
  then obtain e' where f: "f = Finite e'" using assms(2) by (cases f) simp_all
  then have ee: "e' = e" using assms(2) PyFloat by simp
  have "\<exists>a' b'. float_sub a' b' = f"
    using assms(1) PyFloat
    by (cases a; cases b) (auto split: sum.splits)
  then have "is_double e" using f ee float_sub_Finite by blast
  then show ?thesis using PyFloat f ee by simp
qed

lemma epoch_time_of_int:
  assumes s: "py_sub end_time start_time = Inr (PyInt n)"
    and n0: "0 \<le> n" and n53: "n < 2 ^ 53"
  shows "epoch_time start_time end_time =
           Inr (\<lfloor>real_of_int n / 60\<rfloor>, n - \<lfloor>real_of_int n / 60\<rfloor> * 60)"
proof -
  have an: "\<bar>n\<bar> < 2 ^ 53" using n0 n53 by simp
  have d: "is_double (of_int n)" by (rule is_double_of_int [OF an])
  have e0: "0 \<le> real_of_int n" using n0 by simp
  have "real_of_int n < of_int (2 ^ 53)" using n53 by (simp only: of_int_less_iff)
  then have e53: "real_of_int n < 2 ^ 53" by simp
  obtain q where q: "float_round (real_of_int n / 60) = Finite q"
    and t: "py_trunc q = \<lfloor>real_of_int n / 60\<rfloor>"
    using float_round_div_60 [OF d e0 e53] by blast
  have dv: "py_truediv (PyInt n) (PyInt 60) = Inr (PyFloat (Finite q))"
    using q by simp
  show ?thesis
    by (simp add: epoch_time_def s dv t del: py_truediv.simps)
qed

lemma epoch_time_of_float:
  assumes s: "py_sub end_time start_time = Inr (PyFloat (Finite e))"
    and d: "is_double e" and e0: "0 \<le> e" and e53: "e < 2 ^ 53"
  shows "epoch_time start_time end_time =
           Inr (\<lfloor>e / 60\<rfloor>, \<lfloor>e - of_int (\<lfloor>e / 60\<rfloor> * 60)\<rfloor>)"
proof -
  define k where "k = \<lfloor>e / 60\<rfloor>"
  obtain q where q: "float_round (e / 60) = Finite q" and t: "py_trunc q = k"
    using float_round_div_60 [OF d e0 e53] unfolding k_def by blast
  have "\<bar>60::int\<bar> < 2 ^ 53" by simp
  then have f60: "float_of_int 60 = Inr (Finite 60)"
    using float_of_int_exact [of 60] by simp
  have dv: "py_truediv (PyFloat (Finite e)) (PyInt 60) = Inr (PyFloat (Finite q))"
    using q by (simp add: f60)
  have k0: "0 \<le> k * 60" and ke: "of_int (k * 60) \<le> e" and r60: "e - of_int (k * 60) < 60"
    unfolding k_def using floor_div_60_range [OF e0] by simp_all
  have "real_of_int (k * 60) < 2 ^ 53" using ke e53 by linarith
  then have "real_of_int (k * 60) < of_int (2 ^ 53)" by simp
  then have "k * 60 < 2 ^ 53" by (simp only: of_int_less_iff)
  then have "\<bar>k * 60\<bar> < 2 ^ 53" using k0 by simp
  then have fk: "float_of_int (k * 60) = Inr (Finite (of_int (k * 60)))"
    by (rule float_of_int_exact)
  have a53: "\<bar>e\<bar> < 2 ^ 53" using e0 e53 by simp
  have "\<bar>e - of_int (k * 60)\<bar> \<le> \<bar>e\<bar>" using ke e0 k0 by simp
  then have "is_double (e - of_int (k * 60))"
    by (rule is_double_diff_int [OF d a53])
  then have fr: "float_round (e - of_int (k * 60)) = Finite (e - of_int (k * 60))"
    by (rule float_round_is_double)
  have sb: "py_sub (PyFloat (Finite e)) (PyInt (k * 60)) =
              Inr (PyFloat (Finite (e - of_int (k * 60))))"
    by (simp add: fk fr del: of_int_mult)
  have r0: "0 \<le> e - of_int (k * 60)" using ke by simp
  have tr: "py_trunc (e - of_int (k * 60)) = \<lfloor>e - of_int (k * 60)\<rfloor>"
    using r0 by (simp only: py_trunc_def if_True)
  show ?thesis
    unfolding epoch_time_def s k_def [symmetric]
    by (simp add: dv t sb tr del: of_int_mult py_truediv.simps py_sub.simps)
qed


subsection \<open>Rounding at a given number\<close>

lemma ulp_of_eqI:
  assumes "2 powi k \<le> \<bar>x\<bar>" and "\<bar>x\<bar> < 2 powi (k + 1)" and "- 1022 \<le> k"
  shows "ulp_of x = 2 powi (k - 52)"
  by (simp add: ulp_of_def expo_eqI [OF assms])

lemma below_threshold_pow:
  assumes "\<bar>x\<bar> < 2 ^ n" and "n \<le> 1024"
  shows "\<bar>x\<bar> < overflow_threshold"
proof -
  have "(2::real) ^ n \<le> 2 ^ 1024" using assms(2) by (intro power_increasing) simp_all
  then show ?thesis unfolding overflow_threshold_def using assms(1) by linarith
qed

lemma float_round_eqI:
  assumes "2 powi k \<le> \<bar>x\<bar>" and "\<bar>x\<bar> < 2 powi (k + 1)" and "- 1022 \<le> k"
    and "round_half_even (x / 2 powi (k - 52)) = m"
    and "r = of_int m * 2 powi (k - 52)"
    and "\<bar>r\<bar> < 2 ^ n" and "n \<le> 1024"
  shows "float_round x = Finite r"
proof -
  have "round_to_ulp x = r"
    by (simp add: round_to_ulp_def ulp_of_eqI [OF assms(1-3)] assms(4,5))
  then show ?thesis
    using below_threshold_pow [OF assms(6,7)] by (simp add: float_round_def)
qed

lemma rhe_down:
  assumes "of_int n \<le> q" and "q < of_int n + 1 / 2"
  shows "round_half_even q = n"
proof -
  have "\<lfloor>q\<rfloor> = n" using assms by (simp add: floor_eq_iff)
  then show ?thesis using assms by (simp add: round_half_even_def)
qed

lemma rhe_up:
  assumes "of_int n + 1 / 2 < q" and "q < of_int n + 1"
  shows "round_half_even q = n + 1"
proof -
  have "\<lfloor>q\<rfloor> = n" using assms by (simp add: floor_eq_iff)
  then show ?thesis using assms by (simp add: round_half_even_def)
qed

lemma rhe_tie:
  assumes "q = of_int n + 1 / 2"
  shows "round_half_even q = (if even n then n else n + 1)"
proof -
  have "\<lfloor>q\<rfloor> = n" using assms by (simp add: floor_eq_iff)
  then show ?thesis using assms by (simp add: round_half_even_def)
qed

lemma is_doubleI:
  assumes "2 powi k \<le> \<bar>x\<bar>" and "\<bar>x\<bar> < 2 powi (k + 1)" and "- 1022 \<le> k"
    and "x = of_int m * 2 powi (k - 52)" and "\<bar>x\<bar> < 2 ^ n" and "n \<le> 1024"
  shows "is_double x"
  unfolding is_double_def ulp_of_eqI [OF assms(1-3)]
  using assms(4) below_threshold_pow [OF assms(5,6)] by blast

lemma double_513_4: "is_double (513 / 4)"
  by (rule is_doubleI [where k = 7 and m = "513 * 2 ^ 43" and n = 8]) simp_all

lemma double_515_4: "is_double (515 / 4)"
  by (rule is_doubleI [where k = 7 and m = "515 * 2 ^ 43" and n = 8]) simp_all

lemma double_half: "is_double (1 / 2)"
  by (rule is_doubleI [where k = "- 1" and m = "2 ^ 52" and n = 0]) simp_all

lemma double_1e17: "is_double (10 ^ 17)"
  by (rule is_doubleI [where k = 56 and m = "6250000000000000" and n = 57]) simp_all

lemma double_32: "is_double 32"
  using is_double_of_int [of 32] by simp

lemma div_1e17: "float_round (10 ^ 17 / 60) = Finite (6666666666666667 / 4)"
proof (rule float_round_eqI [where k = 50 and m = 6666666666666667 and n = 51])
  show "round_half_even (10 ^ 17 / 60 / 2 powi (50 - 52)) = 6666666666666667"
    using rhe_up [of 6666666666666666 "10 ^ 17 / 60 / 2 powi (50 - 52)"] by simp
qed simp_all

lemma float_of_minutes: "float_round (of_int 99999999999999960) = Finite 99999999999999968"
proof (rule float_round_eqI [where k = 56 and m = 6249999999999998 and n = 57])
  show "round_half_even (real_of_int 99999999999999960 / 2 powi (56 - 52)) = 6249999999999998"
    using rhe_tie [of "real_of_int 99999999999999960 / 2 powi (56 - 52)" 6249999999999997]
    by simp
qed simp_all

lemma div_1e30: "float_round (of_int (10 ^ 30) / of_int 60) = Finite 16666666666666666704873979904"
proof (rule float_round_eqI [where k = 93 and m = 7579122514774402 and n = 94])
  show "round_half_even (real_of_int (10 ^ 30) / real_of_int 60 / 2 powi (93 - 52)) = 7579122514774402"
    using rhe_up [of 7579122514774401 "real_of_int (10 ^ 30) / real_of_int 60 / 2 powi (93 - 52)"] by simp
qed simp_all

lemma epoch_time_int_1e30:
  "epoch_time (PyInt 0) (PyInt (10 ^ 30)) = Inr (16666666666666666704873979904, - 2292438794240)"
proof -
  have s: "py_sub (PyInt (10 ^ 30)) (PyInt 0) = Inr (PyInt (10 ^ 30))" by simp
  have dv: "py_truediv (PyInt (10 ^ 30)) (PyInt 60) =
              Inr (PyFloat (Finite 16666666666666666704873979904))"
    using div_1e30 by simp
  have t: "py_trunc 16666666666666666704873979904 = 16666666666666666704873979904"
    by (simp add: py_trunc_def)
  have sb: "py_sub (PyInt (10 ^ 30)) (PyInt (16666666666666666704873979904 * 60)) =
              Inr (PyInt (- 2292438794240))"
    by simp
  show ?thesis
    unfolding epoch_time_def
    by (simp only: s dv t sb sum.case py_int.simps)
qed

subsection \<open>Minutes and seconds\<close>

text \<open>
  C10, as the code has it. Let \<open>elapsed_time\<close> be the number the code computes for
  \<^verbatim>\<open>end_time - start_time\<close> (for floats, the rounded difference). If it is finite,
  non-negative and below \<open>2 ^ 53\<close>, then \<^verbatim>\<open>epoch_time\<close> returns \<open>(elapsed_mins, elapsed_secs)\<close>
  where \<open>elapsed_mins\<close> is the integer truncation of the exact quotient
  \<open>elapsed_time / 60\<close>, \<open>0 \<le> elapsed_secs \<le> 59\<close>, and \<open>60 * elapsed_mins + elapsed_secs\<close> is the
  whole-second part of \<open>elapsed_time\<close>. This holds for \<^verbatim>\<open>int\<close> and for \<^verbatim>\<open>float\<close> timestamps
  and for a mix of them: the rounded quotient never reaches the next integer, and the
  second subtraction is exact.
\<close>

theorem epoch_time_minutes_seconds:
  assumes "py_sub end_time start_time = Inr elapsed_time"
    and "finite_value elapsed_time = Some e"
    and "0 \<le> e" and "e < 2 ^ 53"
  shows "\<exists>elapsed_mins elapsed_secs.
           epoch_time start_time end_time = Inr (elapsed_mins, elapsed_secs)
         \<and> elapsed_mins = py_trunc (e / 60) \<and> elapsed_mins = \<lfloor>e / 60\<rfloor>
         \<and> 0 \<le> elapsed_secs \<and> elapsed_secs \<le> 59
         \<and> 60 * elapsed_mins + elapsed_secs = \<lfloor>e\<rfloor>"
proof -
  define k where "k = \<lfloor>e / 60\<rfloor>"
  define r where "r = e - of_int (k * 60)"
  have tr: "py_trunc (e / 60) = k" using assms(3) by (simp add: py_trunc_def k_def)
  have r0: "0 \<le> r" and r60: "r < 60"
    unfolding r_def k_def using floor_div_60_range(2,3) [OF assms(3)] by simp_all
  have lo: "0 \<le> \<lfloor>r\<rfloor>" using r0 by simp
  have "\<lfloor>r\<rfloor> < 60" using r60 by (simp add: floor_less_iff)
  then have hi: "\<lfloor>r\<rfloor> \<le> 59" by simp
  have "e = of_int (60 * k) + r" by (simp add: r_def)
  then have "\<lfloor>e\<rfloor> = 60 * k + \<lfloor>r\<rfloor>" by (metis floor_add_int add.commute)
  then have total: "60 * k + \<lfloor>r\<rfloor> = \<lfloor>e\<rfloor>" by simp
  have "epoch_time start_time end_time = Inr (k, \<lfloor>r\<rfloor>)"
    using py_sub_finite [OF assms(1,2)]
  proof
    assume "\<exists>n. elapsed_time = PyInt n \<and> e = of_int n"
    then obtain n where v: "elapsed_time = PyInt n" and en: "e = of_int n" by blast
    have n0: "0 \<le> n" using assms(3) en by simp
    have "real_of_int n < of_int (2 ^ 53)" using assms(4) en by simp
    then have n53: "n < 2 ^ 53" by (simp only: of_int_less_iff)
    have "r = of_int (n - k * 60)" by (simp add: r_def en)
    then have "\<lfloor>r\<rfloor> = n - k * 60" by (simp only: floor_of_int)
    then show ?thesis
      using epoch_time_of_int [OF assms(1) [unfolded v] n0 n53]
      by (simp add: k_def en)
  next
    assume "elapsed_time = PyFloat (Finite e) \<and> is_double e"
    then have v: "elapsed_time = PyFloat (Finite e)" and d: "is_double e" by simp_all
    show ?thesis
      using epoch_time_of_float [OF assms(1) [unfolded v] d assms(3,4)]
      by (simp add: k_def r_def)
  qed
  then show ?thesis using tr lo hi total by (simp add: k_def)
qed

theorem epoch_time_minutes_seconds_witness:
  "is_double (1 / 2) \<and> is_double (515 / 4)
   \<and> py_sub (PyFloat (Finite (515 / 4))) (PyFloat (Finite (1 / 2))) = Inr (PyFloat (Finite (513 / 4)))
   \<and> finite_value (PyFloat (Finite (513 / 4))) = Some (513 / 4)
   \<and> (0::real) \<le> 513 / 4 \<and> (513::real) / 4 < 2 ^ 53
   \<and> epoch_time (PyFloat (Finite (1 / 2))) (PyFloat (Finite (515 / 4))) = Inr (2, 8)"
proof -
  have h1: "py_sub (PyFloat (Finite (515 / 4))) (PyFloat (Finite (1 / 2))) =
              Inr (PyFloat (Finite (513 / 4)))"
    using float_round_is_double [OF double_513_4] by simp
  have h2: "finite_value (PyFloat (Finite (513 / 4))) = Some (513 / 4)" by simp
  have h3: "(0::real) \<le> 513 / 4" by simp
  have h4: "(513::real) / 4 < 2 ^ 53" by simp
  have a: "\<lfloor>(513::real) / 4 / 60\<rfloor> = 2" by (simp add: floor_eq_iff)
  have b: "\<lfloor>(513::real) / 4\<rfloor> = 128" by (simp add: floor_eq_iff)
  obtain elapsed_mins elapsed_secs where
    "epoch_time (PyFloat (Finite (1 / 2))) (PyFloat (Finite (515 / 4))) =
       Inr (elapsed_mins, elapsed_secs)"
    and "elapsed_mins = \<lfloor>(513::real) / 4 / 60\<rfloor>"
    and "60 * elapsed_mins + elapsed_secs = \<lfloor>(513::real) / 4\<rfloor>"
    using epoch_time_minutes_seconds [OF h1 h2 h3 h4] by blast
  then have "epoch_time (PyFloat (Finite (1 / 2))) (PyFloat (Finite (515 / 4))) = Inr (2, 8)"
    unfolding a b by simp
  then show ?thesis using double_half double_515_4 h1 h2 h3 h4 by simp
qed

text \<open>
  Without the bound the statement fails. From \<^verbatim>\<open>0.0\<close> to \<^verbatim>\<open>1e17\<close> the elapsed time is
  \<open>10 ^ 17\<close> exactly and \<^verbatim>\<open>elapsed_mins\<close> is the truncated quotient, but
  \<^verbatim>\<open>elapsed_mins * 60 = 99999999999999960\<close> is no binary64 number: it is rounded to
  \<open>99999999999999968\<close> before the subtraction, and \<^verbatim>\<open>epoch_time\<close> returns
  \<open>(1666666666666666, 32)\<close>, which stands for \<open>99999999999999992\<close> seconds. With the \<^verbatim>\<open>int\<close>
  timestamps \<^verbatim>\<open>0\<close> and \<^verbatim>\<open>10**30\<close> the rounded quotient is above the exact one, and
  \<^verbatim>\<open>elapsed_secs\<close> is negative.
\<close>

theorem epoch_time_drops_seconds:
  "is_double 0 \<and> is_double (10 ^ 17)
   \<and> py_sub (PyFloat (Finite (10 ^ 17))) (PyFloat (Finite 0)) = Inr (PyFloat (Finite (10 ^ 17)))
   \<and> epoch_time (PyFloat (Finite 0)) (PyFloat (Finite (10 ^ 17))) = Inr (1666666666666666, 32)
   \<and> 60 * 1666666666666666 + 32 \<noteq> \<lfloor>(10::real) ^ 17\<rfloor>
   \<and> epoch_time (PyInt 0) (PyInt (10 ^ 30)) =
       Inr (16666666666666666704873979904, - 2292438794240)"
proof -
  have z: "is_double 0" using is_double_of_int [of 0] by simp
  have s: "py_sub (PyFloat (Finite (10 ^ 17))) (PyFloat (Finite 0)) =
             Inr (PyFloat (Finite (10 ^ 17)))"
    using float_round_is_double [OF double_1e17] by simp
  have f60: "float_of_int 60 = Inr (Finite 60)"
    using float_of_int_exact [of 60] by simp
  have dv: "py_truediv (PyFloat (Finite (10 ^ 17))) (PyInt 60) =
              Inr (PyFloat (Finite (6666666666666667 / 4)))"
    using div_1e17 by (simp add: f60)
  have t: "py_trunc (6666666666666667 / 4) = 1666666666666666"
    by (simp add: py_trunc_def floor_eq_iff)
  have fm: "float_of_int 99999999999999960 = Inr (Finite 99999999999999968)"
    unfolding float_of_int_def float_of_minutes by simp
  have m60: "(1666666666666666::int) * 60 = 99999999999999960" by simp
  have sb: "py_sub (PyFloat (Finite (10 ^ 17))) (PyInt (1666666666666666 * 60)) =
              Inr (PyFloat (Finite 32))"
    unfolding m60 using float_round_is_double [OF double_32] by (simp add: fm)
  have t2: "py_trunc 32 = 32" by (simp add: py_trunc_def)
  have e: "epoch_time (PyFloat (Finite 0)) (PyFloat (Finite (10 ^ 17))) =
             Inr (1666666666666666, 32)"
    unfolding epoch_time_def
    by (simp only: s dv t sb t2 sum.case py_int.simps)
  have n: "60 * 1666666666666666 + 32 \<noteq> \<lfloor>(10::real) ^ 17\<rfloor>" by simp
  show ?thesis using z double_1e17 s e n epoch_time_int_1e30 by blast
qed

end
